(* ===== verification/Prelude.thy ===== *)
theory Prelude
  imports Main "HOL-Library.Word" "HOL-Library.Monad_Syntax" "HOL-Library.AList"
    "HOL-Library.Char_ord" "HOL-Library.List_Lexorder" "HOL-Library.Product_Lexorder"
begin

text \<open>
  Shared vocabulary of the development: the machine types of the Rust program, panics as a
  value, bounds-checked indexing and slicing, little-endian integers, Rust strings, and the
  \<open>HashMap\<close> interface with the association lists that implement it. Nothing here is
  specific to the multiplexer.
\<close>

section \<open>Machine types\<close>

type_synonym u8 = "8 word"
type_synonym u16 = "16 word"
type_synonym u32 = "32 word"
type_synonym u64 = "64 word"

text \<open>A protocol frame (a \<open>Vec<u8>\<close> or \<open>&[u8]\<close> of the source) is a list of bytes.\<close>

type_synonym frame = "u8 list"

text \<open>
  A Rust expression that may panic has type \<open>'a or_panic\<close>: \<open>None\<close> is the panic,
  which unwinds through every caller, as \<open>None\<close> does through \<open>Option.bind\<close>.
\<close>

type_synonym 'a or_panic = "'a option"

named_theorems slice_simps "bounds-checked indexing and slicing"
named_theorems bytes_simps "little-endian integers and their byte lists"
named_theorems hm_simps "laws of the hash maps"

section \<open>Indexing and slicing with the bounds checks of Rust\<close>

definition index :: "'a list \<Rightarrow> nat \<Rightarrow> 'a or_panic" where
  "index xs i = (if i < length xs then Some (xs ! i) else None)"

text \<open>\<open>slice xs a b\<close> is \<open>xs[a..b]\<close>; \<open>xs.get(a..b)\<close> is the same value, read as an
  ordinary \<open>Option\<close>.\<close>

definition slice :: "'a list \<Rightarrow> nat \<Rightarrow> nat \<Rightarrow> 'a list or_panic" where
  "slice xs a b = (if a \<le> b \<and> b \<le> length xs then Some (take (b - a) (drop a xs)) else None)"

definition slice_from :: "'a list \<Rightarrow> nat \<Rightarrow> 'a list or_panic" where
  "slice_from xs a = (if a \<le> length xs then Some (drop a xs) else None)"

lemma index_Some [slice_simps]: "i < length xs \<Longrightarrow> index xs i = Some (xs ! i)"
  by (simp add: index_def)

lemma index_None_iff [slice_simps]: "index xs i = None \<longleftrightarrow> length xs \<le> i"
  by (simp add: index_def)

lemma index_Cons_0 [simp]: "index (x # xs) 0 = Some x"
  by (simp add: index_def)

lemma index_0_conv: "index xs 0 = Some x \<longleftrightarrow> (\<exists>ys. xs = x # ys)"
  by (cases xs) (auto simp: index_def)

lemma slice_Some [slice_simps]:
  "a \<le> b \<Longrightarrow> b \<le> length xs \<Longrightarrow> slice xs a b = Some (take (b - a) (drop a xs))"
  by (simp add: slice_def)

lemma slice_None_iff [slice_simps]: "slice xs a b = None \<longleftrightarrow> b < a \<or> length xs < b"
  by (auto simp: slice_def)

lemma slice_from_Some [slice_simps]: "a \<le> length xs \<Longrightarrow> slice_from xs a = Some (drop a xs)"
  by (simp add: slice_from_def)

lemma slice_from_None_iff [slice_simps]: "slice_from xs a = None \<longleftrightarrow> length xs < a"
  by (auto simp: slice_from_def)

lemma slice_length: "slice xs a b = Some ys \<Longrightarrow> length ys = b - a"
  by (auto simp: slice_def split: if_splits)

section \<open>Little-endian integers\<close>

primrec le_nat :: "frame \<Rightarrow> nat" where
  "le_nat [] = 0"
| "le_nat (b # bs) = unat b + 256 * le_nat bs"

primrec le_bytes :: "nat \<Rightarrow> nat \<Rightarrow> frame" where
  "le_bytes 0 k = []"
| "le_bytes (Suc n) k = word_of_nat k # le_bytes n (k div 256)"

lemma length_le_bytes [simp]: "length (le_bytes n k) = n"
  by (induction n arbitrary: k) auto

lemma unat_less_pow: "unat (w :: 'l::len word) < 2 ^ LENGTH('l)"
  by (rule unsigned_less)

lemma unat_u8_bound: "unat (b :: u8) < 256"
  using unat_less_pow [of b] by simp

lemma le_nat_bound: "le_nat bs < 256 ^ length bs"
proof (induction bs)
  case (Cons b bs)
  have "unat b + 256 * le_nat bs < 256 + 256 * le_nat bs"
    using unat_u8_bound by simp
  also have "\<dots> = 256 * (le_nat bs + 1)" by simp
  also have "\<dots> \<le> 256 * 256 ^ length bs"
    using Cons.IH by (intro mult_le_mono) auto
  finally show ?case by simp
qed simp

lemma unat_word_of_nat_u8: "unat (word_of_nat k :: u8) = k mod 256"
  by (simp add: unat_of_nat)

lemma le_nat_le_bytes [bytes_simps]: "le_nat (le_bytes n k) = k mod 256 ^ n"
proof (induction n arbitrary: k)
  case (Suc n)
  have "k mod 256 + 256 * (k div 256 mod 256 ^ n) = k mod (256 * 256 ^ n)"
    by (simp add: mod_mult2_eq)
  then show ?case by (simp add: Suc.IH unat_word_of_nat_u8)
qed simp

lemma le_bytes_le_nat [bytes_simps]: "le_bytes (length bs) (le_nat bs) = bs"
proof (induction bs)
  case (Cons b bs)
  have "(word_of_nat (unat b + 256 * le_nat bs) :: u8) = b"
    by (rule word_unat_eq_iff [THEN iffD2])
      (simp only: unat_word_of_nat_u8 mod_mult_self2, simp add: unat_u8_bound)
  moreover have "(unat b + 256 * le_nat bs) div 256 = le_nat bs"
    using unat_u8_bound [of b] by simp
  ultimately show ?case using Cons.IH by simp
qed simp

definition u16_from_le_bytes :: "frame \<Rightarrow> u16" where
  "u16_from_le_bytes bs = word_of_nat (le_nat bs)"

definition u16_to_le_bytes :: "u16 \<Rightarrow> frame" where
  "u16_to_le_bytes w = le_bytes 2 (unat w)"

definition u32_from_le_bytes :: "frame \<Rightarrow> u32" where
  "u32_from_le_bytes bs = word_of_nat (le_nat bs)"

definition u32_to_le_bytes :: "u32 \<Rightarrow> frame" where
  "u32_to_le_bytes w = le_bytes 4 (unat w)"

text \<open>\<open>i32::from_le_bytes\<close> and \<open>i64::from_le_bytes\<close>, two's complement.\<close>

definition i32_from_le_bytes :: "frame \<Rightarrow> int" where
  "i32_from_le_bytes bs = sint (word_of_nat (le_nat bs) :: u32)"

definition i64_from_le_bytes :: "frame \<Rightarrow> int" where
  "i64_from_le_bytes bs = sint (word_of_nat (le_nat bs) :: u64)"

definition i64_to_le_bytes :: "int \<Rightarrow> frame" where
  "i64_to_le_bytes i = le_bytes 8 (unat (word_of_int i :: u64))"

lemma length_u32_to_le_bytes [simp]: "length (u32_to_le_bytes w) = 4"
  by (simp add: u32_to_le_bytes_def)

lemma length_u16_to_le_bytes [simp]: "length (u16_to_le_bytes w) = 2"
  by (simp add: u16_to_le_bytes_def)

lemma u32_le_roundtrip [bytes_simps]: "u32_from_le_bytes (u32_to_le_bytes w) = w"
proof -
  have "unat w mod 256 ^ 4 = unat w"
    using unat_less_pow [of w] by simp
  then show ?thesis
    by (simp add: u32_from_le_bytes_def u32_to_le_bytes_def le_nat_le_bytes)
qed

lemma u16_le_roundtrip [bytes_simps]: "u16_from_le_bytes (u16_to_le_bytes w) = w"
proof -
  have "unat w mod 256 ^ 2 = unat w"
    using unat_less_pow [of w] by simp
  then show ?thesis
    by (simp add: u16_from_le_bytes_def u16_to_le_bytes_def le_nat_le_bytes)
qed

lemma unat_u16_from_le_bytes: "length bs = 2 \<Longrightarrow> unat (u16_from_le_bytes bs) = le_nat bs"
  using le_nat_bound [of bs] by (simp add: u16_from_le_bytes_def unat_of_nat)

lemma u16_to_from_le_bytes [bytes_simps]:
  assumes "length bs = 2"
  shows "u16_to_le_bytes (u16_from_le_bytes bs) = bs"
  using le_bytes_le_nat [of bs] assms
  by (simp add: u16_to_le_bytes_def unat_u16_from_le_bytes)

lemma i64_le_roundtrip [bytes_simps]:
  assumes "- (2 ^ 63) \<le> i" and "i < 2 ^ 63"
  shows "i64_from_le_bytes (i64_to_le_bytes i) = i"
proof -
  have "unat (word_of_int i :: u64) mod 256 ^ 8 = unat (word_of_int i :: u64)"
    using unat_less_pow [of "word_of_int i :: u64"] by simp
  then have "i64_from_le_bytes (i64_to_le_bytes i) = sint (word_of_int i :: u64)"
    by (simp add: i64_from_le_bytes_def i64_to_le_bytes_def le_nat_le_bytes)
  also have "\<dots> = i"
    using assms by (simp add: signed_of_int signed_take_bit_int_eq_self)
  finally show ?thesis .
qed

section \<open>The \<open>HashMap\<close> interface\<close>

text \<open>
  What the program relies on of \<open>std::collections::HashMap\<close>: \<open>get\<close> after
  \<open>insert\<close>, \<open>remove\<close> and \<open>retain\<close>. The iteration order is unspecified
  in Rust, and nothing below depends on it.
\<close>

locale hash_map =
  fixes empty :: "'m"
    and get :: "'m \<Rightarrow> 'k \<Rightarrow> 'v option"
    and insert :: "'k \<Rightarrow> 'v \<Rightarrow> 'm \<Rightarrow> 'm"
    and remove :: "'k \<Rightarrow> 'm \<Rightarrow> 'm"
    and retain :: "('k \<Rightarrow> 'v \<Rightarrow> bool) \<Rightarrow> 'm \<Rightarrow> 'm"
    and invar :: "'m \<Rightarrow> bool"
  assumes get_empty: "get empty k = None"
    and get_insert: "get (insert k v m) k' = (if k' = k then Some v else get m k')"
    and get_remove: "invar m \<Longrightarrow> get (remove k m) k' = (if k' = k then None else get m k')"
    and get_retain: "invar m \<Longrightarrow>
      get (retain P m) k = (case get m k of None \<Rightarrow> None | Some v \<Rightarrow> if P k v then Some v else None)"
    and invar_empty: "invar empty"
    and invar_insert: "invar m \<Longrightarrow> invar (insert k v m)"
    and invar_remove: "invar m \<Longrightarrow> invar (remove k m)"
    and invar_retain: "invar m \<Longrightarrow> invar (retain P m)"
begin

lemma get_insert_same: "get (insert k v m) k = Some v"
  by (simp add: get_insert)

lemma get_insert_other: "k' \<noteq> k \<Longrightarrow> get (insert k v m) k' = get m k'"
  by (simp add: get_insert)

lemma remove_once: "invar m \<Longrightarrow> get (remove k (insert k v m)) k = None"
  by (simp add: get_remove invar_insert)

lemma get_retain_Some:
  assumes "invar m" and "get (retain P m) k = Some v"
  shows "get m k = Some v" and "P k v"
  using assms by (auto simp: get_retain split: option.splits if_splits)

text \<open>Purging old entries and then recording a new one, as the ACK table does.\<close>

lemma get_insert_retain:
  assumes "invar m"
  shows "get (insert k v (retain P m)) k' =
    (if k' = k then Some v
     else case get m k' of None \<Rightarrow> None | Some v' \<Rightarrow> if P k' v' then Some v' else None)"
  using assms by (simp add: get_insert get_retain)

end

text \<open>The implementation used by the model: association lists with distinct keys.\<close>

type_synonym ('k, 'v) hmap = "('k \<times> 'v) list"

definition hm_get :: "('k, 'v) hmap \<Rightarrow> 'k \<Rightarrow> 'v option" where
  "hm_get m k = map_of m k"

definition hm_insert :: "'k \<Rightarrow> 'v \<Rightarrow> ('k, 'v) hmap \<Rightarrow> ('k, 'v) hmap" where
  "hm_insert k v m = AList.update k v m"

definition hm_remove :: "'k \<Rightarrow> ('k, 'v) hmap \<Rightarrow> ('k, 'v) hmap" where
  "hm_remove k m = AList.delete k m"

definition hm_retain :: "('k \<Rightarrow> 'v \<Rightarrow> bool) \<Rightarrow> ('k, 'v) hmap \<Rightarrow> ('k, 'v) hmap" where
  "hm_retain P m = filter (\<lambda>(k, v). P k v) m"

definition hm_contains :: "('k, 'v) hmap \<Rightarrow> 'k \<Rightarrow> bool" where
  "hm_contains m k = (hm_get m k \<noteq> None)"

definition hm_invar :: "('k, 'v) hmap \<Rightarrow> bool" where
  "hm_invar m = distinct (map fst m)"

lemma map_of_filter_distinct:
  assumes "distinct (map fst m)"
  shows "map_of (filter (\<lambda>(k, v). P k v) m) k =
    (case map_of m k of None \<Rightarrow> None | Some v \<Rightarrow> if P k v then Some v else None)"
  using assms
proof (induction m)
  case (Cons kv m)
  obtain k' v' where kv: "kv = (k', v')" by (cases kv)
  have "map_of m k' = None" using Cons.prems kv by (simp add: map_of_eq_None_iff)
  then show ?case using Cons kv by auto
qed simp

lemma distinct_keys_filter: "distinct (map fst m) \<Longrightarrow> distinct (map fst (filter P m))"
  by (induction m) auto

interpretation hm: hash_map "[]" hm_get hm_insert hm_remove hm_retain hm_invar
proof unfold_locales
  show "hm_invar m \<Longrightarrow> hm_get (hm_retain P m) k =
      (case hm_get m k of None \<Rightarrow> None | Some v \<Rightarrow> if P k v then Some v else None)"
    for m :: "('a, 'b) hmap" and P k
    by (simp add: hm_get_def hm_retain_def hm_invar_def map_of_filter_distinct)
qed (auto simp: hm_get_def hm_insert_def hm_remove_def hm_retain_def hm_invar_def update_conv'
    delete_conv' AList.distinct_update AList.distinct_delete distinct_keys_filter)

lemmas hm_laws [hm_simps] =
  hm.get_empty hm.get_insert hm.get_remove hm.get_retain hm.invar_empty hm.invar_insert
  hm.invar_remove hm.invar_retain

text \<open>Retaining by key alone needs no invariant.\<close>

lemma hm_get_retain_key [hm_simps]:
  "hm_get (hm_retain (\<lambda>k v. P k) m) k = (if P k then hm_get m k else None)"
  by (induction m) (auto simp: hm_get_def hm_retain_def)

lemma hm_get_SomeD: "hm_get m k = Some v \<Longrightarrow> (k, v) \<in> set m"
  by (simp add: hm_get_def map_of_SomeD)

lemma hm_get_eq_Some: "hm_invar m \<Longrightarrow> hm_get m k = Some v \<longleftrightarrow> (k, v) \<in> set m"
  by (simp add: hm_get_def hm_invar_def)

section \<open>Rust strings\<close>

text \<open>
  A \<open>String\<close> is its UTF-8 bytes, here the 8-bit characters of HOL, so \<open>length\<close> is
  \<open>str::len\<close> and the order is the byte order of \<open>str\<close>.
\<close>

definition char_of_byte :: "u8 \<Rightarrow> char" where
  "char_of_byte b = char_of (unat b)"

definition byte_of_char :: "char \<Rightarrow> u8" where
  "byte_of_char c = word_of_nat (of_char c)"

definition as_bytes :: "string \<Rightarrow> frame" where
  "as_bytes s = map byte_of_char s"

definition from_bytes :: "frame \<Rightarrow> string" where
  "from_bytes bs = map char_of_byte bs"

lemma byte_char_byte [simp]: "byte_of_char (char_of_byte b) = b"
proof -
  have "unat b mod 256 = unat b" using unat_u8_bound by simp
  then show ?thesis by (simp add: byte_of_char_def char_of_byte_def)
qed

lemma char_byte_char [simp]: "char_of_byte (byte_of_char c) = c"
proof -
  have "(of_char c :: nat) mod 256 = of_char c" by simp
  then show ?thesis by (simp add: byte_of_char_def char_of_byte_def unat_word_of_nat_u8)
qed

lemma as_from_bytes [simp]: "as_bytes (from_bytes bs) = bs"
  by (simp add: as_bytes_def from_bytes_def o_def)

lemma from_as_bytes [simp]: "from_bytes (as_bytes s) = s"
  by (simp add: as_bytes_def from_bytes_def o_def)

lemma length_as_bytes [simp]: "length (as_bytes s) = length s"
  by (simp add: as_bytes_def)

text \<open>\<open>str::trim_end_matches('\0')\<close>.\<close>

definition nul :: char where
  "nul = char_of_byte 0"

definition trim_end_nul :: "string \<Rightarrow> string" where
  "trim_end_nul s = rev (dropWhile (\<lambda>c. c = nul) (rev s))"

text \<open>\<open>iter().position(|b| b == 0)\<close>.\<close>

fun position_nul :: "frame \<Rightarrow> nat option" where
  "position_nul [] = None"
| "position_nul (b # bs) = (if b = 0 then Some 0 else map_option Suc (position_nul bs))"

lemma position_nul_Some:
  "position_nul bs = Some n \<Longrightarrow> n < length bs \<and> bs ! n = 0 \<and> (\<forall>b \<in> set (take n bs). b \<noteq> 0)"
proof (induction bs arbitrary: n)
  case (Cons b bs)
  then show ?case by (cases "b = 0"; cases n) auto
qed simp

lemma position_nul_None: "position_nul bs = None \<longleftrightarrow> (\<forall>b \<in> set bs. b \<noteq> 0)"
  by (induction bs) auto

lemma position_nul_append:
  "\<forall>b \<in> set xs. b \<noteq> 0 \<Longrightarrow> position_nul (xs @ ys) = map_option ((+) (length xs)) (position_nul ys)"
  by (induction xs; cases "position_nul ys") auto

end
