(* ===== verification/Float64.thy ===== *)
theory Float64
  imports Prelude
begin

text \<open>
  The \<open>f64\<close> arithmetic the program uses: division of a 32-bit integer by a power of ten
  (\<open>f64::from(x) / 1_000_000.0\<close>), multiplication by it, the truncating cast
  \<open>as i32\<close>, comparison with zero and the format \<open>{:.2}\<close>. A finite double is a
  mantissa of at most 53 bits times a power of two; every operation rounds the exact result
  to the nearest one, ties to even. The values here stay far inside the exponent range of
  binary64, so neither overflow nor subnormals arise, and zero is always positive.
\<close>

datatype f64 = F64 (mant: int) (expo: int)

text \<open>The number of binary digits of a nonnegative integer.\<close>

function nbits :: "int \<Rightarrow> int" where
  "nbits n = (if n \<le> 0 then 0 else 1 + nbits (n div 2))"
  by pat_completeness auto
termination
  by (relation "measure nat") auto

declare nbits.simps [simp del]

text \<open>\<open>a / b\<close> rounded to the nearest integer, ties to even.\<close>

definition rne_div :: "int \<Rightarrow> int \<Rightarrow> int" where
  "rne_div a b =
     (let q = a div b; r = a mod b
      in if 2 * r < b \<or> (2 * r = b \<and> even q) then q else q + 1)"

text \<open>\<open>a / b\<close> scaled by \<open>2 ^ -e\<close>, as a fraction.\<close>

definition scale :: "int \<Rightarrow> int \<Rightarrow> int \<Rightarrow> int \<times> int" where
  "scale a b e = (if e \<ge> 0 then (a, b * 2 ^ nat e) else (a * 2 ^ nat (- e), b))"

text \<open>
  The double nearest to \<open>a / b\<close>. With \<open>k = nbits a - nbits b\<close> the quotient lies
  strictly between \<open>2 ^ (k - 1)\<close> and \<open>2 ^ (k + 1)\<close>, which leaves two candidates for
  the exponent of a 53-bit mantissa.
\<close>

definition quotient_exponent :: "int \<Rightarrow> int \<Rightarrow> int" where
  "quotient_exponent a b =
     (let k = nbits a - nbits b; (n, d) = scale a b k
      in if d \<le> n then k - 52 else k - 53)"

definition round_quotient :: "int \<Rightarrow> int \<Rightarrow> int \<times> int" where
  "round_quotient a b =
     (let e = quotient_exponent a b; (n, d) = scale a b e in (rne_div n d, e))"

definition f64_quotient :: "int \<Rightarrow> int \<Rightarrow> f64" where
  "f64_quotient x b =
     (if x = 0 then F64 0 0
      else let (m, e) = round_quotient \<bar>x\<bar> b in F64 (sgn x * m) e)"

text \<open>\<open>f64::from(x) / c\<close>: the conversion of a 32-bit integer is exact.\<close>

definition f64_div :: "int \<Rightarrow> int \<Rightarrow> f64" where
  "f64_div x c = f64_quotient x c"

text \<open>\<open>x * c\<close> for an integer constant \<open>c\<close>: the exact product, rounded.\<close>

definition f64_mul :: "f64 \<Rightarrow> int \<Rightarrow> f64" where
  "f64_mul x c =
     (let p = mant x * c
      in if expo x \<ge> 0 then f64_quotient (p * 2 ^ nat (expo x)) 1
         else f64_quotient p (2 ^ nat (- expo x)))"

definition f64_is_zero :: "f64 \<Rightarrow> bool" where
  "f64_is_zero x \<longleftrightarrow> mant x = 0"

text \<open>Truncation towards zero, and the saturating cast \<open>as i32\<close>.\<close>

definition f64_trunc :: "f64 \<Rightarrow> int" where
  "f64_trunc x =
     (if expo x \<ge> 0 then mant x * 2 ^ nat (expo x)
      else sgn (mant x) * (\<bar>mant x\<bar> div 2 ^ nat (- expo x)))"

definition f64_as_i32 :: "f64 \<Rightarrow> int" where
  "f64_as_i32 x = max (- (2 ^ 31)) (min (2 ^ 31 - 1) (f64_trunc x))"

text \<open>Decimal digits, for \<open>to_string\<close> of integers and for \<open>{:.2}\<close>.\<close>

definition digit :: "int \<Rightarrow> char" where
  "digit d = char_of (48 + d)"

function dec_digits :: "int \<Rightarrow> string" where
  "dec_digits n = (if n < 10 then [digit n] else dec_digits (n div 10) @ [digit (n mod 10)])"
  by pat_completeness auto
termination
  by (relation "measure nat") auto

declare dec_digits.simps [simp del]

definition int_to_string :: "int \<Rightarrow> string" where
  "int_to_string i = (if i < 0 then ''-'' else []) @ dec_digits \<bar>i\<bar>"

text \<open>
  \<open>format!("{x:.2}")\<close>: the exact binary value rounded to hundredths, ties to even; the
  sign is kept even when everything rounds away.
\<close>

definition f64_hundredths :: "f64 \<Rightarrow> int" where
  "f64_hundredths x =
     (if expo x \<ge> 0 then \<bar>mant x\<bar> * 2 ^ nat (expo x) * 100
      else rne_div (\<bar>mant x\<bar> * 100) (2 ^ nat (- expo x)))"

definition f64_fixed2 :: "f64 \<Rightarrow> string" where
  "f64_fixed2 x =
     (let h = f64_hundredths x
      in (if mant x < 0 then ''-'' else []) @ dec_digits (h div 100) @ ''.'' @
         dec_digits (h mod 100 div 10) @ dec_digits (h mod 10))"

end
