(* ===== verification/Store.thy ===== *)
theory Store
  imports Prelude Float64
begin

text \<open>
  \<open>src/node/state.rs\<close>: the SQLite cache. A table is a list of rows in rowid order, an SQL
  statement is the function it computes on the tables, and every operation returns the
  \<open>Result\<close> of the source: \<open>Inl SqlError\<close> where the statement fails, in which case SQLite
  leaves the tables as they were. Whether a statement fails and what the clock says are given
  by the environment of the call, so every theorem holds for any pattern of failures.
\<close>

section \<open>Rows and tables\<close>

record cached_contact =
  public_key :: frame
  contact_name :: string
  contact_type :: int
  last_advert :: "int option"
  contact_lat :: "f64 option"
  contact_lon :: "f64 option"
  raw :: "frame option"

record contact_row =
  contact :: cached_contact
  seen_at :: "int option"

record cached_channel =
  idx :: int
  channel_name :: string
  config :: "frame option"

type_synonym identity = "u16 \<times> string"

record new_message =
  msg_type :: string
  from_key :: "frame option"
  channel_idx :: "int option"
  msg_text :: string
  timestamp :: int
  msg_frame :: frame
  origin :: "identity option"

text \<open>The columns added by later versions are NULL (\<open>None\<close>) in rows of older databases.\<close>

record message_row =
  msg_id :: int
  row_type :: string
  row_from :: "frame option"
  row_channel :: "int option"
  row_text :: string
  row_timestamp :: int
  received_at :: "int option"
  row_frame :: "frame option"
  origin_port :: "int option"
  origin_app :: "string option"

record client_row =
  last_seen_id :: int
  last_connected_at :: int

record raw_rx_row =
  rx_ts :: int
  rx_code :: int
  rx_payload :: frame

record node_state =
  contacts :: "contact_row list"
  channels :: "cached_channel list"
  messages :: "message_row list"
  message_seq :: int
  kv_store :: "(string, frame) hmap"
  raw_rx :: "raw_rx_row list"
  clients :: "(int \<times> string, client_row) hmap"

definition empty_state :: node_state where
  "empty_state = \<lparr>contacts = [], channels = [], messages = [], message_seq = 0, kv_store = [],
     raw_rx = [], clients = []\<rparr>"

datatype backlog = Off | Messages nat | Seconds int

record retention =
  messages_days :: nat
  raw_rx_days :: nat
  contacts_days :: nat
  clients_days :: nat

record purge_stats =
  purged_messages :: nat
  purged_raw_rx :: nat
  purged_contacts :: nat
  purged_clients :: nat

section \<open>The environment of a call\<close>

datatype db_error = SqlError

text \<open>The statements the program runs, with the key they touch where one call runs several.\<close>

datatype db_call =
    UpsertContact frame | GetContacts | UpsertChannel int | DeleteContact frame
  | DeleteChannel int | GetChannels | InsertMessage | MessageHead | MessageIdsAfter
  | BacklogMessageIds | MessageFrame int | ClientCursor | AdvanceClientCursor u16 string
  | KvSet string | KvGet string | InsertRawRx | PurgeMessages | PurgeRawRx | PurgeContacts
  | PurgeClients | Vacuum

record db_env =
  unix_now :: int
  db_ok :: "db_call \<Rightarrow> bool"

type_synonym 'a db_result = "db_error + 'a"

definition run_query :: "('e) db_env_scheme \<Rightarrow> db_call \<Rightarrow> 'a \<Rightarrow> 'a db_result" where
  "run_query env call r = (if db_ok env call then Inr r else Inl SqlError)"

section \<open>Contacts and channels\<close>

text \<open>\<open>INSERT OR REPLACE\<close> deletes the row with the same primary key and adds a new one.\<close>

definition upsert_row :: "('r \<Rightarrow> 'k) \<Rightarrow> 'r \<Rightarrow> 'r list \<Rightarrow> 'r list" where
  "upsert_row key r rows = filter (\<lambda>x. key x \<noteq> key r) rows @ [r]"

definition delete_row :: "('r \<Rightarrow> 'k) \<Rightarrow> 'k \<Rightarrow> 'r list \<Rightarrow> 'r list" where
  "delete_row key k rows = filter (\<lambda>x. key x \<noteq> k) rows"

definition find_row :: "('r \<Rightarrow> 'k) \<Rightarrow> 'r list \<Rightarrow> 'k \<Rightarrow> 'r option" where
  "find_row key rows k = find (\<lambda>x. key x = k) rows"

abbreviation contact_key :: "contact_row \<Rightarrow> frame" where
  "contact_key r \<equiv> public_key (contact r)"

definition upsert_contact ::
  "('e) db_env_scheme \<Rightarrow> cached_contact \<Rightarrow> node_state \<Rightarrow> node_state db_result" where
  "upsert_contact env c s =
     run_query env (UpsertContact (public_key c))
       (s\<lparr>contacts := upsert_row contact_key \<lparr>contact = c, seen_at = Some (unix_now env)\<rparr> (contacts s)\<rparr>)"

text \<open>\<open>ORDER BY name\<close>; the order of equal names is that of the rows.\<close>

definition get_contacts :: "('e) db_env_scheme \<Rightarrow> node_state \<Rightarrow> cached_contact list db_result" where
  "get_contacts env s = run_query env GetContacts (sort_key contact_name (map contact (contacts s)))"

definition upsert_channel ::
  "('e) db_env_scheme \<Rightarrow> cached_channel \<Rightarrow> node_state \<Rightarrow> node_state db_result" where
  "upsert_channel env c s =
     run_query env (UpsertChannel (idx c)) (s\<lparr>channels := upsert_row idx c (channels s)\<rparr>)"

definition delete_contact ::
  "('e) db_env_scheme \<Rightarrow> frame \<Rightarrow> node_state \<Rightarrow> node_state db_result" where
  "delete_contact env pk s =
     run_query env (DeleteContact pk) (s\<lparr>contacts := delete_row contact_key pk (contacts s)\<rparr>)"

definition delete_channel ::
  "('e) db_env_scheme \<Rightarrow> int \<Rightarrow> node_state \<Rightarrow> node_state db_result" where
  "delete_channel env i s =
     run_query env (DeleteChannel i) (s\<lparr>channels := delete_row idx i (channels s)\<rparr>)"

definition get_channels :: "('e) db_env_scheme \<Rightarrow> node_state \<Rightarrow> cached_channel list db_result" where
  "get_channels env s = run_query env GetChannels (sort_key idx (channels s))"

section \<open>Messages\<close>

text \<open>
  \<open>id INTEGER PRIMARY KEY AUTOINCREMENT\<close>: one above the highest id ever used, kept in
  \<open>sqlite_sequence\<close>; SQLite refuses the insert once the 64-bit range is exhausted.
\<close>

definition max_rowid :: int where
  "max_rowid = 2 ^ 63 - 1"

definition message_row_of :: "int \<Rightarrow> int \<Rightarrow> new_message \<Rightarrow> message_row" where
  "message_row_of i now m =
     \<lparr>msg_id = i, row_type = msg_type m, row_from = from_key m, row_channel = channel_idx m,
      row_text = msg_text m, row_timestamp = timestamp m, received_at = Some now,
      row_frame = Some (msg_frame m), origin_port = map_option (\<lambda>(p, _). uint p) (origin m),
      origin_app = map_option (\<lambda>(_, a). a) (origin m)\<rparr>"

definition insert_message ::
  "('e) db_env_scheme \<Rightarrow> new_message \<Rightarrow> node_state \<Rightarrow> (int \<times> node_state) db_result" where
  "insert_message env m s =
     (if message_seq s \<ge> max_rowid then Inl SqlError
      else let i = message_seq s + 1
        in run_query env InsertMessage
             (i, s\<lparr>messages := messages s @ [message_row_of i (unix_now env) m], message_seq := i\<rparr>))"

definition max_message_id :: "message_row list \<Rightarrow> int" where
  "max_message_id ms = (if ms = [] then 0 else Max (set (map msg_id ms)))"

definition message_head :: "('e) db_env_scheme \<Rightarrow> node_state \<Rightarrow> int db_result" where
  "message_head env s = run_query env MessageHead (max_message_id (messages s))"

text \<open>The condition \<open>REPLAYABLE_TO\<close>; a comparison with NULL does not hold.\<close>

definition replayable_to :: "identity \<Rightarrow> message_row \<Rightarrow> bool" where
  "replayable_to who m \<longleftrightarrow> row_frame m \<noteq> None \<and>
     (origin_port m = None \<or> origin_port m \<noteq> Some (uint (fst who)) \<or>
      (case origin_app m of None \<Rightarrow> False | Some a \<Rightarrow> a \<noteq> snd who))"

definition replayable_ids :: "(message_row \<Rightarrow> bool) \<Rightarrow> identity \<Rightarrow> node_state \<Rightarrow> int list" where
  "replayable_ids P who s =
     sort (map msg_id (filter (\<lambda>m. P m \<and> replayable_to who m) (messages s)))"

definition message_ids_after ::
  "('e) db_env_scheme \<Rightarrow> int \<Rightarrow> identity \<Rightarrow> node_state \<Rightarrow> int list db_result" where
  "message_ids_after env after who s =
     run_query env MessageIdsAfter (replayable_ids (\<lambda>m. msg_id m > after) who s)"

definition backlog_message_ids ::
  "('e) db_env_scheme \<Rightarrow> backlog \<Rightarrow> identity \<Rightarrow> node_state \<Rightarrow> int list db_result" where
  "backlog_message_ids env b who s =
     (case b of
        Off \<Rightarrow> Inr []
      | Messages n \<Rightarrow>
          run_query env BacklogMessageIds
            (sort (take n (rev (replayable_ids (\<lambda>m. True) who s))))
      | Seconds secs \<Rightarrow>
          run_query env BacklogMessageIds
            (replayable_ids (\<lambda>m. case received_at m of None \<Rightarrow> False
                                | Some t \<Rightarrow> t \<ge> unix_now env - secs) who s))"

definition message_frame ::
  "('e) db_env_scheme \<Rightarrow> int \<Rightarrow> node_state \<Rightarrow> frame option db_result" where
  "message_frame env i s =
     run_query env (MessageFrame i)
       (Option.bind (find (\<lambda>m. msg_id m = i \<and> row_frame m \<noteq> None) (messages s)) row_frame)"

section \<open>Clients\<close>

definition client_key :: "identity \<Rightarrow> int \<times> string" where
  "client_key who = (uint (fst who), snd who)"

definition client_cursor ::
  "('e) db_env_scheme \<Rightarrow> identity \<Rightarrow> node_state \<Rightarrow> int option db_result" where
  "client_cursor env who s =
     run_query env ClientCursor (map_option last_seen_id (hm_get (clients s) (client_key who)))"

text \<open>\<open>ON CONFLICT DO UPDATE SET last_seen_id = MAX(last_seen_id, excluded.last_seen_id)\<close>.\<close>

definition advance_cursor :: "int \<Rightarrow> identity \<Rightarrow> int \<Rightarrow> node_state \<Rightarrow> node_state" where
  "advance_cursor now who seen s =
     s\<lparr>clients := hm_insert (client_key who)
         \<lparr>last_seen_id = (case hm_get (clients s) (client_key who) of
             None \<Rightarrow> seen | Some r \<Rightarrow> max (last_seen_id r) seen),
          last_connected_at = now\<rparr> (clients s)\<rparr>"

definition advance_client_cursor ::
  "('e) db_env_scheme \<Rightarrow> identity \<Rightarrow> int \<Rightarrow> node_state \<Rightarrow> node_state db_result" where
  "advance_client_cursor env who seen s =
     run_query env (AdvanceClientCursor (fst who) (snd who)) (advance_cursor (unix_now env) who seen s)"

section \<open>Key-value store and raw recordings\<close>

definition kv_set ::
  "('e) db_env_scheme \<Rightarrow> string \<Rightarrow> frame \<Rightarrow> node_state \<Rightarrow> node_state db_result" where
  "kv_set env k v s = run_query env (KvSet k) (s\<lparr>kv_store := hm_insert k v (kv_store s)\<rparr>)"

definition kv_get :: "('e) db_env_scheme \<Rightarrow> string \<Rightarrow> node_state \<Rightarrow> frame option db_result" where
  "kv_get env k s = run_query env (KvGet k) (hm_get (kv_store s) k)"

definition insert_raw_rx ::
  "('e) db_env_scheme \<Rightarrow> u8 \<Rightarrow> frame \<Rightarrow> node_state \<Rightarrow> node_state db_result" where
  "insert_raw_rx env code p s =
     run_query env InsertRawRx
       (s\<lparr>raw_rx := raw_rx s @ [\<lparr>rx_ts = unix_now env, rx_code = uint code, rx_payload = p\<rparr>]\<rparr>)"

text \<open>\<open>migrate\<close>: the schema is fixed here; what it changes in the data is dropping the
  obsolete key-value entries.\<close>

definition obsolete_keys :: "string list" where
  "obsolete_keys = [''self_info'', ''device_info'', ''battery_info'', ''identity.seed'', ''identity.pk'']"

definition migrate :: "node_state \<Rightarrow> node_state" where
  "migrate s = s\<lparr>kv_store := hm_retain (\<lambda>k v. k \<notin> set obsolete_keys) (kv_store s)\<rparr>"

section \<open>Maintenance\<close>

text \<open>
  A purge deletes the rows that satisfy a condition and reports how many they were.
  \<open>maintain\<close> runs its statements in order and returns at the first that fails, so the
  deletions before it stand: the result carries the tables in both cases.
\<close>

definition cutoff :: "int \<Rightarrow> nat \<Rightarrow> int" where
  "cutoff now days = now - int days * 86400"

definition purge_rows :: "('r \<Rightarrow> bool) \<Rightarrow> 'r list \<Rightarrow> 'r list \<times> nat" where
  "purge_rows old rows = (filter (\<lambda>r. \<not> old r) rows, length (filter old rows))"

definition contacts_synced_at :: "('e) db_env_scheme \<Rightarrow> node_state \<Rightarrow> int option db_result" where
  "contacts_synced_at env s =
     (case kv_get env ''contacts_synced_at'' s of
        Inl e \<Rightarrow> Inl e
      | Inr v \<Rightarrow> Inr (Option.bind v
          (\<lambda>b. if length b = 8 then Some (i64_from_le_bytes b) else None)))"

definition set_contacts_synced_at ::
  "('e) db_env_scheme \<Rightarrow> int \<Rightarrow> node_state \<Rightarrow> node_state db_result" where
  "set_contacts_synced_at env started s = kv_set env ''contacts_synced_at'' (i64_to_le_bytes started) s"

definition message_time :: "message_row \<Rightarrow> int" where
  "message_time m = (case received_at m of Some t \<Rightarrow> t | None \<Rightarrow> row_timestamp m)"

definition contact_time :: "contact_row \<Rightarrow> int" where
  "contact_time r = (case seen_at r of Some t \<Rightarrow> t | None \<Rightarrow> 0)"

type_synonym maintenance = "node_state \<times> purge_stats db_result"

text \<open>The next statement runs on the tables and counts so far, unless one has failed.\<close>

definition then_purge ::
  "maintenance \<Rightarrow> (node_state \<Rightarrow> purge_stats \<Rightarrow> maintenance) \<Rightarrow> maintenance" where
  "then_purge m step = (case m of (s, Inl e) \<Rightarrow> (s, Inl e) | (s, Inr st) \<Rightarrow> step s st)"

definition maintain_messages ::
  "('e) db_env_scheme \<Rightarrow> retention \<Rightarrow> node_state \<Rightarrow> purge_stats \<Rightarrow> maintenance" where
  "maintain_messages env ret s st =
     (if messages_days ret > 0
      then let (ms, n) = purge_rows (\<lambda>m. message_time m < cutoff (unix_now env) (messages_days ret))
                           (messages s)
        in if db_ok env PurgeMessages
           then (s\<lparr>messages := ms\<rparr>, Inr (st\<lparr>purged_messages := n\<rparr>)) else (s, Inl SqlError)
      else (s, Inr st))"

definition maintain_raw_rx ::
  "('e) db_env_scheme \<Rightarrow> retention \<Rightarrow> node_state \<Rightarrow> purge_stats \<Rightarrow> maintenance" where
  "maintain_raw_rx env ret s st =
     (if raw_rx_days ret > 0
      then let (rs, n) = purge_rows (\<lambda>r. rx_ts r < cutoff (unix_now env) (raw_rx_days ret)) (raw_rx s)
        in if db_ok env PurgeRawRx
           then (s\<lparr>raw_rx := rs\<rparr>, Inr (st\<lparr>purged_raw_rx := n\<rparr>)) else (s, Inl SqlError)
      else (s, Inr st))"

definition maintain_contacts ::
  "('e) db_env_scheme \<Rightarrow> retention \<Rightarrow> node_state \<Rightarrow> purge_stats \<Rightarrow> maintenance" where
  "maintain_contacts env ret s st =
     (if contacts_days ret > 0
      then case contacts_synced_at env s of
          Inl e \<Rightarrow> (s, Inl e)
        | Inr None \<Rightarrow> (s, Inr st)
        | Inr (Some synced) \<Rightarrow>
            (let threshold = min synced (cutoff (unix_now env) (contacts_days ret));
                 (cs, n) = purge_rows (\<lambda>r. contact_time r < threshold) (contacts s)
             in if db_ok env PurgeContacts
                then (s\<lparr>contacts := cs\<rparr>, Inr (st\<lparr>purged_contacts := n\<rparr>)) else (s, Inl SqlError))
      else (s, Inr st))"

definition maintain_clients ::
  "('e) db_env_scheme \<Rightarrow> retention \<Rightarrow> node_state \<Rightarrow> purge_stats \<Rightarrow> maintenance" where
  "maintain_clients env ret s st =
     (if clients_days ret > 0
      then let (cs, n) = purge_rows
                 (\<lambda>(k, c). last_connected_at c < cutoff (unix_now env) (clients_days ret)) (clients s)
        in if db_ok env PurgeClients
           then (s\<lparr>clients := cs\<rparr>, Inr (st\<lparr>purged_clients := n\<rparr>)) else (s, Inl SqlError)
      else (s, Inr st))"

definition no_stats :: purge_stats where
  "no_stats = \<lparr>purged_messages = 0, purged_raw_rx = 0, purged_contacts = 0, purged_clients = 0\<rparr>"

text \<open>The closing \<open>incremental_vacuum\<close> and \<open>optimize\<close> change no row.\<close>

definition maintain :: "('e) db_env_scheme \<Rightarrow> retention \<Rightarrow> node_state \<Rightarrow> maintenance" where
  "maintain env ret s =
     then_purge (then_purge (then_purge (then_purge
       (maintain_messages env ret s no_stats)
       (maintain_raw_rx env ret))
       (maintain_contacts env ret))
       (maintain_clients env ret))
       (\<lambda>s st. (s, run_query env Vacuum st))"

section \<open>Backlog settings\<close>

text \<open>
  \<open>Backlog::from_str\<close>. \<open>str::trim\<close> on the (ASCII) setting, a trailing letter as the
  unit, and \<open>u32::parse\<close>, which takes an optional plus sign, at least one digit, and no
  value above \<open>2 ^ 32 - 1\<close>. The error is the text of the message.
\<close>

definition is_space :: "char \<Rightarrow> bool" where
  "is_space c \<longleftrightarrow> of_char c \<in> {9, 10, 11, 12, 13, 32 :: nat}"

definition trim :: "string \<Rightarrow> string" where
  "trim s = rev (dropWhile is_space (rev (dropWhile is_space s)))"

definition is_ascii_alphabetic :: "char \<Rightarrow> bool" where
  "is_ascii_alphabetic c \<longleftrightarrow>
     65 \<le> (of_char c :: nat) \<and> (of_char c :: nat) \<le> 90 \<or> 97 \<le> (of_char c :: nat) \<and> (of_char c :: nat) \<le> 122"

definition to_ascii_lowercase :: "char \<Rightarrow> char" where
  "to_ascii_lowercase c =
     (if 65 \<le> (of_char c :: nat) \<and> (of_char c :: nat) \<le> 90 then char_of ((of_char c :: nat) + 32) else c)"

definition digit_value :: "char \<Rightarrow> int option" where
  "digit_value c =
     (let n = (of_char c :: int) in if 48 \<le> n \<and> n \<le> 57 then Some (n - 48) else None)"

fun parse_digits :: "int \<Rightarrow> string \<Rightarrow> int option" where
  "parse_digits acc [] = Some acc"
| "parse_digits acc (c # cs) =
     (case digit_value c of
        None \<Rightarrow> None
      | Some d \<Rightarrow> if acc * 10 + d < 2 ^ 32 then parse_digits (acc * 10 + d) cs else None)"

definition parse_u32 :: "string \<Rightarrow> int option" where
  "parse_u32 s =
     (let ds = (case s of c # cs \<Rightarrow> if c = CHR ''+'' then cs else s | [] \<Rightarrow> s)
      in if ds = [] then None else parse_digits 0 ds)"

datatype backlog_error = InvalidNumber string | InvalidUnit char

definition parse_backlog :: "string \<Rightarrow> backlog_error + backlog" where
  "parse_backlog input =
     (let s = trim input;
          (num, unit) = (if s \<noteq> [] \<and> is_ascii_alphabetic (last s)
                         then (butlast s, Some (to_ascii_lowercase (last s))) else (s, None))
      in case parse_u32 num of
           None \<Rightarrow> Inl (InvalidNumber s)
         | Some n \<Rightarrow>
             (if n = 0 then Inr Off
              else case unit of
                None \<Rightarrow> Inr (Messages (nat n))
              | Some u \<Rightarrow>
                  if u = CHR ''h'' then Inr (Seconds (n * 3600))
                  else if u = CHR ''d'' then Inr (Seconds (n * 86400))
                  else Inl (InvalidUnit u)))"

end
