(* ===== verification/Store_Laws.thy ===== *)
theory Store_Laws
  imports Store
begin

text \<open>
  What the callers of \<open>src/node/state.rs\<close> rely on, stated as two interfaces and proved for
  the tables of the model: a table with a primary key (contacts, channels), and the table of
  client cursors. Then the well-formedness of the whole state and its preservation by every
  statement, and the properties of the queries.
\<close>

section \<open>Tables with a primary key\<close>

lemma find_append: "find P (xs @ ys) = (case find P xs of Some x \<Rightarrow> Some x | None \<Rightarrow> find P ys)"
  by (induction xs) auto

lemma find_SomeD: "find P xs = Some x \<Longrightarrow> x \<in> set xs \<and> P x"
  by (auto simp: find_Some_iff)

lemma find_filter: "find P (filter Q xs) = find (\<lambda>x. Q x \<and> P x) xs"
  by (induction xs) auto

locale keyed_table =
  fixes key :: "'r \<Rightarrow> 'k"
    and put :: "'r \<Rightarrow> 't \<Rightarrow> 't"
    and del :: "'k \<Rightarrow> 't \<Rightarrow> 't"
    and look :: "'t \<Rightarrow> 'k \<Rightarrow> 'r option"
    and ok :: "'t \<Rightarrow> bool"
  assumes look_put: "look (put r t) k = (if k = key r then Some r else look t k)"
    and look_del: "look (del k t) k' = (if k' = k then None else look t k')"
    and ok_put: "ok t \<Longrightarrow> ok (put r t)"
    and ok_del: "ok t \<Longrightarrow> ok (del k t)"
begin

text \<open>A later write of the same key wins; a deleted key stays away until it is written.\<close>

lemma look_put_put:
  "look (put r' (put r t)) k = (if k = key r' then Some r' else if k = key r then Some r else look t k)"
  by (simp add: look_put)

lemma look_put_del: "look (put r (del k t)) k' =
    (if k' = key r then Some r else if k' = k then None else look t k')"
  by (simp add: look_put look_del)

lemma look_put_key: "look (put r t) (key r) = Some r"
  by (simp add: look_put)

lemma look_fold_put:
  "look (fold put rs t) k =
     (case find (\<lambda>r. key r = k) (rev rs) of Some r \<Rightarrow> Some r | None \<Rightarrow> look t k)"
  by (induction rs arbitrary: t) (auto simp: look_put find_append split: option.splits)

end

lemma find_row_upsert:
  "find_row key (upsert_row key r rows) k = (if k = key r then Some r else find_row key rows k)"
proof (cases "k = key r")
  case True
  then have "find (\<lambda>x. key x \<noteq> key r \<and> key x = k) rows = None" by (auto simp: find_None_iff)
  then show ?thesis using True by (simp add: find_row_def upsert_row_def find_append find_filter)
next
  case False
  then have "(\<lambda>x. key x \<noteq> key r \<and> key x = k) = (\<lambda>x. key x = k)" by auto
  then show ?thesis using False
    by (auto simp: find_row_def upsert_row_def find_append find_filter split: option.splits)
qed

lemma find_row_delete:
  "find_row key (delete_row key k rows) k' = (if k' = k then None else find_row key rows k')"
proof -
  have "(\<lambda>x. key x \<noteq> k \<and> key x = k') = (\<lambda>x. key x = k')" if "k' \<noteq> k" using that by auto
  moreover have "find (\<lambda>x. key x \<noteq> k \<and> key x = k) rows = None" by (auto simp: find_None_iff)
  ultimately show ?thesis by (auto simp: find_row_def delete_row_def find_filter)
qed

definition distinct_key :: "('r \<Rightarrow> 'k) \<Rightarrow> 'r list \<Rightarrow> bool" where
  "distinct_key key rows = distinct (map key rows)"

lemma distinct_key_filter: "distinct_key key rows \<Longrightarrow> distinct_key key (filter P rows)"
  by (simp add: distinct_key_def distinct_map inj_on_def)

lemma distinct_key_delete: "distinct_key key rows \<Longrightarrow> distinct_key key (delete_row key k rows)"
  by (simp add: delete_row_def distinct_key_filter)

lemma distinct_key_upsert: "distinct_key key rows \<Longrightarrow> distinct_key key (upsert_row key r rows)"
  by (auto simp: upsert_row_def distinct_key_def distinct_map inj_on_def)

lemma find_row_distinct:
  "distinct_key key rows \<Longrightarrow> find_row key rows k = Some r \<longleftrightarrow> r \<in> set rows \<and> key r = k"
  by (induction rows) (auto simp: distinct_key_def find_row_def)

lemma distinct_keyD:
  assumes "distinct_key key rows" and "x \<in> set rows" and "y \<in> set rows"
    and "key x = k" and "key y = k"
  shows "x = y"
  using assms find_row_distinct [OF assms(1), of k] by (metis option.inject)

interpretation contact_table:
  keyed_table contact_key "upsert_row contact_key" "delete_row contact_key" "find_row contact_key"
    "distinct_key contact_key"
  by unfold_locales
    (simp_all add: find_row_upsert find_row_delete distinct_key_upsert distinct_key_delete)

interpretation channel_table:
  keyed_table idx "upsert_row idx" "delete_row idx" "find_row idx" "distinct_key idx"
  by unfold_locales
    (simp_all add: find_row_upsert find_row_delete distinct_key_upsert distinct_key_delete)

text \<open>Looking a row up in a sorted copy of the table finds the same row.\<close>

lemma find_unique:
  assumes "\<And>x y. x \<in> set xs \<Longrightarrow> y \<in> set xs \<Longrightarrow> P x \<Longrightarrow> P y \<Longrightarrow> x = y" and "set ys = set xs"
  shows "find P ys = find P xs"
proof (cases "find P xs")
  case None
  then show ?thesis using assms(2) by (metis find_None_iff)
next
  case (Some x)
  then have x: "x \<in> set xs" "P x" by (auto simp: find_Some_iff)
  then have "find P ys \<noteq> None" using assms(2) by (simp add: find_None_iff) blast
  then obtain y where y: "find P ys = Some y" by auto
  then have "y \<in> set ys" "P y" by (auto simp: find_Some_iff)
  then have "y = x" using assms(1) [of y x] assms(2) x by simp
  then show ?thesis using y Some by simp
qed

lemma find_row_sort:
  assumes "distinct_key key rows"
  shows "find (\<lambda>x. key x = k) (sort_key f rows) = find_row key rows k"
  unfolding find_row_def
proof (rule find_unique)
  show "x = y" if "x \<in> set rows" and "y \<in> set rows" and "key x = k" and "key y = k" for x y
    by (rule distinct_keyD [OF assms that])
qed simp

section \<open>Cursors\<close>

text \<open>
  The interface of \<open>advance_client_cursor\<close>: a write moves the cursor of one identity, never
  backwards.
\<close>

locale cursor_table =
  fixes cursor :: "'t \<Rightarrow> 'id \<Rightarrow> int option"
    and advance :: "'id \<Rightarrow> int \<Rightarrow> 't \<Rightarrow> 't"
  assumes cursor_advance: "cursor (advance who n t) who' =
    (if who' = who then Some (case cursor t who of None \<Rightarrow> n | Some c \<Rightarrow> max c n) else cursor t who')"
begin

definition not_behind :: "'t \<Rightarrow> 't \<Rightarrow> bool" where
  "not_behind t t' \<longleftrightarrow> (\<forall>who c. cursor t who = Some c \<longrightarrow> (\<exists>c'. cursor t' who = Some c' \<and> c \<le> c'))"

lemma not_behind_refl: "not_behind t t"
  by (simp add: not_behind_def)

lemma not_behind_trans: "not_behind t u \<Longrightarrow> not_behind u v \<Longrightarrow> not_behind t v"
  unfolding not_behind_def by (meson order_trans)

lemma advance_not_behind: "not_behind t (advance who n t)"
  by (auto simp: not_behind_def cursor_advance)

lemma advances_not_behind: "not_behind t (fold (\<lambda>(who, n). advance who n) ws t)"
  by (induction ws arbitrary: t)
    (auto intro: not_behind_refl not_behind_trans [OF advance_not_behind])

lemma advance_reaches: "\<exists>c. cursor (advance who n t) who = Some c \<and> n \<le> c"
  by (auto simp: cursor_advance split: option.splits)

text \<open>Reports that arrive in either order leave the same cursors.\<close>

lemma advance_commute:
  "cursor (advance a m (advance b n t)) who = cursor (advance b n (advance a m t)) who"
  by (auto simp: cursor_advance max.commute max.left_commute split: option.splits)

end

definition cursor_of :: "node_state \<Rightarrow> identity \<Rightarrow> int option" where
  "cursor_of s who = map_option last_seen_id (hm_get (clients s) (client_key who))"

lemma client_key_eq_iff: "client_key a = client_key b \<longleftrightarrow> a = b"
  by (auto simp: client_key_def prod_eq_iff word_uint_eq_iff)

interpretation cursors: cursor_table cursor_of "advance_cursor now" for now
  by unfold_locales
    (auto simp: cursor_of_def advance_cursor_def hm_simps client_key_eq_iff split: option.splits)

lemma client_cursor_eq: "client_cursor env who s = run_query env ClientCursor (cursor_of s who)"
  by (simp add: client_cursor_def cursor_of_def)

section \<open>Well-formedness and what a statement may change\<close>

definition store_inv :: "node_state \<Rightarrow> bool" where
  "store_inv d \<longleftrightarrow> distinct_key contact_key (contacts d) \<and> distinct_key idx (channels d) \<and>
     sorted_wrt (<) (map msg_id (messages d)) \<and> 0 \<le> message_seq d \<and>
     (\<forall>m \<in> set (messages d). 1 \<le> msg_id m \<and> msg_id m \<le> message_seq d) \<and>
     hm_invar (kv_store d) \<and> hm_invar (clients d) \<and>
     (\<forall>who c. cursor_of d who = Some c \<longrightarrow> c \<le> message_seq d)"

text \<open>New messages get ids above every id ever given out.\<close>

definition log_extends :: "node_state \<Rightarrow> node_state \<Rightarrow> bool" where
  "log_extends d d' \<longleftrightarrow> message_seq d \<le> message_seq d' \<and>
     (\<forall>m \<in> set (messages d'). m \<in> set (messages d) \<or> message_seq d < msg_id m)"

lemma log_extends_refl: "log_extends d d"
  by (simp add: log_extends_def)

lemma log_extends_trans: "log_extends a b \<Longrightarrow> log_extends b c \<Longrightarrow> log_extends a c"
  by (fastforce simp: log_extends_def)

definition db_step :: "node_state \<Rightarrow> node_state \<Rightarrow> bool" where
  "db_step d d' \<longleftrightarrow> (store_inv d \<longrightarrow> store_inv d' \<and> log_extends d d' \<and> cursors.not_behind d d')"

lemma db_step_refl [intro, simp]: "db_step d d"
  by (simp add: db_step_def log_extends_refl cursors.not_behind_refl)

lemma db_step_trans [trans]: "db_step a b \<Longrightarrow> db_step b c \<Longrightarrow> db_step a c"
  by (meson db_step_def log_extends_trans cursors.not_behind_trans)

lemma cursor_of_cong: "clients d' = clients d \<Longrightarrow> cursor_of d' who = cursor_of d who"
  by (simp add: cursor_of_def)

text \<open>Statements that leave messages and clients alone.\<close>

lemma db_step_same_log:
  assumes "messages d' = messages d" "message_seq d' = message_seq d" "clients d' = clients d"
    and "store_inv d \<Longrightarrow> distinct_key contact_key (contacts d') \<and> distinct_key idx (channels d') \<and>
      hm_invar (kv_store d')"
  shows "db_step d d'"
proof -
  have c: "cursor_of d' = cursor_of d"
    using assms(3) by (simp add: fun_eq_iff cursor_of_def)
  show ?thesis
    using assms by (simp add: db_step_def store_inv_def log_extends_def cursors.not_behind_def c)
qed

lemma db_step_upsert_contact: "upsert_contact env c d = Inr d' \<Longrightarrow> db_step d d'"
  by (rule db_step_same_log)
    (auto simp: upsert_contact_def run_query_def store_inv_def distinct_key_upsert split: if_splits)

lemma db_step_delete_contact: "delete_contact env pk d = Inr d' \<Longrightarrow> db_step d d'"
  by (rule db_step_same_log)
    (auto simp: delete_contact_def run_query_def store_inv_def distinct_key_delete split: if_splits)

lemma db_step_upsert_channel: "upsert_channel env c d = Inr d' \<Longrightarrow> db_step d d'"
  by (rule db_step_same_log)
    (auto simp: upsert_channel_def run_query_def store_inv_def distinct_key_upsert split: if_splits)

lemma db_step_delete_channel: "delete_channel env i d = Inr d' \<Longrightarrow> db_step d d'"
  by (rule db_step_same_log)
    (auto simp: delete_channel_def run_query_def store_inv_def distinct_key_delete split: if_splits)

lemma db_step_kv_set: "kv_set env k v d = Inr d' \<Longrightarrow> db_step d d'"
  by (rule db_step_same_log)
    (auto simp: kv_set_def run_query_def store_inv_def hm_simps split: if_splits)

lemma db_step_set_contacts_synced_at: "set_contacts_synced_at env t d = Inr d' \<Longrightarrow> db_step d d'"
  by (simp add: set_contacts_synced_at_def db_step_kv_set)

lemma db_step_insert_raw_rx: "insert_raw_rx env code p d = Inr d' \<Longrightarrow> db_step d d'"
  by (rule db_step_same_log)
    (auto simp: insert_raw_rx_def run_query_def store_inv_def split: if_splits)

lemma db_step_migrate: "db_step d (migrate d)"
  by (rule db_step_same_log) (auto simp: migrate_def store_inv_def hm_simps)

text \<open>The log: an insert takes the next id.\<close>

lemma insert_message_Inr:
  "insert_message env m d = Inr (i, d') \<longleftrightarrow> message_seq d < max_rowid \<and> db_ok env InsertMessage \<and>
     i = message_seq d + 1 \<and>
     d' = d\<lparr>messages := messages d @ [message_row_of i (unix_now env) m], message_seq := i\<rparr>"
  by (auto simp: insert_message_def run_query_def Let_def)

lemma store_inv_insert:
  assumes "store_inv d"
  shows "store_inv (d\<lparr>messages := messages d @ [message_row_of (message_seq d + 1) now m],
    message_seq := message_seq d + 1\<rparr>)"
proof -
  have "cursor_of (d\<lparr>messages := ms, message_seq := i\<rparr>) who = cursor_of d who" for ms i who
    by (rule cursor_of_cong) simp
  with assms show ?thesis
    by (fastforce simp: store_inv_def sorted_wrt_append message_row_of_def)
qed

lemma db_step_insert_message: "insert_message env m d = Inr (i, d') \<Longrightarrow> db_step d d'"
  unfolding db_step_def insert_message_Inr
  by (elim conjE, hypsubst)
    (simp add: store_inv_insert log_extends_def cursors.not_behind_def cursor_of_def,
      auto simp: message_row_of_def)

lemma max_message_id_bounds:
  assumes "store_inv d"
  shows "0 \<le> max_message_id (messages d)" and "max_message_id (messages d) \<le> message_seq d"
proof -
  have b: "1 \<le> msg_id m \<and> msg_id m \<le> message_seq d" if "m \<in> set (messages d)" for m
    using assms that by (simp add: store_inv_def)
  have "Max (set (map msg_id (messages d))) \<in> msg_id ` set (messages d)" if "messages d \<noteq> []"
    using Max_in [of "set (map msg_id (messages d))"] that by simp
  with b assms show "0 \<le> max_message_id (messages d)" "max_message_id (messages d) \<le> message_seq d"
    by (fastforce simp: max_message_id_def store_inv_def)+
qed

lemma message_frame_Some:
  assumes "message_frame env i d = Inr (Some f)"
  shows "\<exists>m \<in> set (messages d). msg_id m = i \<and> row_frame m = Some f"
  using assms
  by (auto simp: message_frame_def run_query_def bind_eq_Some_conv dest!: find_SomeD
      split: if_splits)

text \<open>Cursors stay at or below the last id given out.\<close>

lemma db_step_advance:
  assumes "advance_client_cursor env who n d = Inr d'"
    and "store_inv d \<Longrightarrow> n \<le> message_seq d"
  shows "db_step d d'"
proof -
  have d': "d' = advance_cursor (unix_now env) who n d"
    using assms(1) by (simp add: advance_client_cursor_def run_query_def split: if_splits)
  have "store_inv d'" if "store_inv d"
    unfolding store_inv_def
  proof (intro conjI)
    show "\<forall>who c. cursor_of d' who = Some c \<longrightarrow> c \<le> message_seq d'"
      using that assms(2) [OF that] unfolding d' cursors.cursor_advance
      by (auto simp: store_inv_def advance_cursor_def split: option.splits)
  qed (use that in \<open>simp_all add: d' advance_cursor_def store_inv_def hm_simps\<close>)
  moreover have "log_extends d d'" by (simp add: d' log_extends_def advance_cursor_def)
  ultimately show ?thesis by (simp add: db_step_def d' cursors.advance_not_behind)
qed

section \<open>Maintenance\<close>

text \<open>Each part of \<open>maintain\<close> touches one table and, when it does, only deletes rows.\<close>

lemmas maintain_defs = maintain_messages_def maintain_raw_rx_def maintain_contacts_def
  maintain_clients_def purge_rows_def

definition purged_of :: "node_state \<Rightarrow> node_state \<Rightarrow> bool" where
  "purged_of d d' \<longleftrightarrow> (\<exists>P Q R S. d' = d\<lparr>messages := filter P (messages d), raw_rx := filter Q (raw_rx d),
     contacts := filter R (contacts d), clients := filter S (clients d)\<rparr>)"

lemma purged_of_parts:
  "purged_of d (d\<lparr>messages := filter P (messages d)\<rparr>)"
  "purged_of d (d\<lparr>raw_rx := filter Q (raw_rx d)\<rparr>)"
  "purged_of d (d\<lparr>contacts := filter R (contacts d)\<rparr>)"
  "purged_of d (d\<lparr>clients := filter S (clients d)\<rparr>)"
  "purged_of d d"
  unfolding purged_of_def
  by (rule exI [of _ P] exI [of _ "\<lambda>_. True"], rule exI [of _ Q] exI [of _ "\<lambda>_. True"],
      rule exI [of _ R] exI [of _ "\<lambda>_. True"], rule exI [of _ S] exI [of _ "\<lambda>_. True"], simp)+

lemma purged_of_trans:
  assumes "purged_of a b" and "purged_of b c"
  shows "purged_of a c"
proof -
  obtain P Q R S where b: "b = a\<lparr>messages := filter P (messages a), raw_rx := filter Q (raw_rx a),
      contacts := filter R (contacts a), clients := filter S (clients a)\<rparr>"
    using assms(1) by (auto simp: purged_of_def)
  obtain P' Q' R' S' where c: "c = b\<lparr>messages := filter P' (messages b), raw_rx := filter Q' (raw_rx b),
      contacts := filter R' (contacts b), clients := filter S' (clients b)\<rparr>"
    using assms(2) by (auto simp: purged_of_def)
  show ?thesis
    unfolding purged_of_def
    by (rule exI [of _ "\<lambda>x. P x \<and> P' x"], rule exI [of _ "\<lambda>x. Q x \<and> Q' x"],
        rule exI [of _ "\<lambda>x. R x \<and> R' x"], rule exI [of _ "\<lambda>x. S x \<and> S' x"])
      (simp add: b c conj_commute)
qed

lemma then_purge_purged_of:
  assumes "purged_of d (fst m)" and "\<And>s st. purged_of s (fst (f s st))"
  shows "purged_of d (fst (then_purge m f))"
proof -
  obtain s r where "m = (s, r)" by fastforce
  with assms show ?thesis
    by (cases r) (auto simp: then_purge_def intro: purged_of_trans)
qed

lemma maintain_part_purged_of:
  "purged_of s (fst (maintain_messages env ret s st))"
  "purged_of s (fst (maintain_raw_rx env ret s st))"
  "purged_of s (fst (maintain_contacts env ret s st))"
  "purged_of s (fst (maintain_clients env ret s st))"
  by (auto simp: maintain_defs Let_def purged_of_parts split: sum.splits option.splits)

lemma maintain_purged_of: "purged_of d (fst (maintain env ret d))"
  unfolding maintain_def
  by (intro then_purge_purged_of maintain_part_purged_of) (simp add: purged_of_parts)

lemma store_inv_purged:
  assumes "store_inv d" and "purged_of d d'"
  shows "store_inv d' \<and> log_extends d d'"
proof -
  obtain P Q R S where d': "d' = d\<lparr>messages := filter P (messages d), raw_rx := filter Q (raw_rx d),
      contacts := filter R (contacts d), clients := filter S (clients d)\<rparr>"
    using assms(2) by (auto simp: purged_of_def)
  have k: "hm_invar (clients d)" using assms(1) by (simp add: store_inv_def)
  then have "hm_invar (filter S (clients d))" by (simp add: hm_invar_def distinct_keys_filter)
  moreover from this have "cursor_of d who = Some c" if "cursor_of d' who = Some c" for who c
    using that k by (auto simp: cursor_of_def d' hm_get_eq_Some)
  then have "\<forall>who c. cursor_of d' who = Some c \<longrightarrow> c \<le> message_seq d"
    using assms(1) unfolding store_inv_def by blast
  ultimately show ?thesis
    using assms(1)
    by (simp add: store_inv_def d' log_extends_def distinct_key_filter sorted_wrt_map sorted_wrt_filter)
qed

lemma maintain_inv:
  "store_inv d \<Longrightarrow> store_inv (fst (maintain env ret d)) \<and> log_extends d (fst (maintain env ret d))"
  by (rule store_inv_purged [OF _ maintain_purged_of])

section \<open>Properties of the store\<close>

lemma maintain_part_contacts:
  "contacts (fst (maintain_messages env ret s st)) = contacts s"
  "kv_store (fst (maintain_messages env ret s st)) = kv_store s"
  "contacts (fst (maintain_raw_rx env ret s st)) = contacts s"
  "kv_store (fst (maintain_raw_rx env ret s st)) = kv_store s"
  "contacts (fst (maintain_clients env ret s st)) = contacts s"
  by (auto simp: maintain_defs Let_def)

lemma then_purge_field:
  "(\<And>s st. g (fst (f s st)) = g s) \<Longrightarrow> g (fst (then_purge m f)) = g (fst m)"
  by (cases m; cases "snd m") (auto simp: then_purge_def)

definition purgeable_contact :: "('e) db_env_scheme \<Rightarrow> retention \<Rightarrow> node_state \<Rightarrow> contact_row \<Rightarrow> bool" where
  "purgeable_contact env ret s r \<longleftrightarrow> contacts_days ret > 0 \<and>
     (\<exists>synced. contacts_synced_at env s = Inr (Some synced) \<and> contact_time r < synced \<and>
        contact_time r < cutoff (unix_now env) (contacts_days ret))"

lemma maintain_contacts_purges:
  "r \<in> set (contacts s) \<Longrightarrow> r \<notin> set (contacts (fst (maintain_contacts env ret s st))) \<Longrightarrow>
   purgeable_contact env ret s r"
  by (auto simp: maintain_defs purgeable_contact_def Let_def split: if_splits sum.splits option.splits)

lemma purgeable_contact_cong:
  "kv_store s' = kv_store s \<Longrightarrow> purgeable_contact env ret s' r = purgeable_contact env ret s r"
  by (simp add: purgeable_contact_def contacts_synced_at_def kv_get_def)

text \<open>C36. Whatever statements fail, maintenance deletes a contact only when a retention period
  is set, a complete synchronization with the radio is on record, and the contact was last seen
  before both that synchronization and the retention period: a contact the radio still holds
  is never purged.\<close>

theorem maintain_contacts_safe:
  assumes "r \<in> set (contacts d)" and "r \<notin> set (contacts (fst (maintain env ret d)))"
  shows "contacts_days ret > 0 \<and>
    (\<exists>synced. contacts_synced_at env d = Inr (Some synced) \<and> contact_time r < synced \<and>
       contact_time r < cutoff (unix_now env) (contacts_days ret))"
proof -
  define m where "m = then_purge (maintain_messages env ret d no_stats) (maintain_raw_rx env ret)"
  have c: "contacts (fst m) = contacts d" and k: "kv_store (fst m) = kv_store d"
    by (auto simp: m_def then_purge_field maintain_part_contacts)
  have "contacts (fst (maintain env ret d)) = contacts (fst (then_purge m (maintain_contacts env ret)))"
    by (simp add: maintain_def m_def [symmetric] then_purge_field maintain_part_contacts)
  with assms c have "\<exists>st. r \<notin> set (contacts (fst (maintain_contacts env ret (fst m) st)))"
    by (cases m; cases "snd m") (auto simp: then_purge_def)
  with assms(1) c maintain_contacts_purges have "purgeable_contact env ret (fst m) r" by metis
  then have "purgeable_contact env ret d r" using purgeable_contact_cong [OF k] by blast
  then show ?thesis by (simp add: purgeable_contact_def)
qed

lemma maintain_ok:
  assumes "\<And>c. db_ok env c"
  shows "maintain env ret d =
    (let old_m = (\<lambda>m. messages_days ret > 0 \<and> message_time m < cutoff (unix_now env) (messages_days ret));
         old_r = (\<lambda>r. raw_rx_days ret > 0 \<and> rx_ts r < cutoff (unix_now env) (raw_rx_days ret));
         old_c = (\<lambda>r. contacts_days ret > 0 \<and>
            (case contacts_synced_at env d of Inr (Some t) \<Rightarrow>
               contact_time r < min t (cutoff (unix_now env) (contacts_days ret)) | _ \<Rightarrow> False));
         old_k = (\<lambda>x. clients_days ret > 0 \<and>
            last_connected_at (snd x) < cutoff (unix_now env) (clients_days ret))
     in (d\<lparr>messages := filter (\<lambda>x. \<not> old_m x) (messages d), raw_rx := filter (\<lambda>x. \<not> old_r x) (raw_rx d),
           contacts := filter (\<lambda>x. \<not> old_c x) (contacts d), clients := filter (\<lambda>x. \<not> old_k x) (clients d)\<rparr>,
         Inr \<lparr>purged_messages = length (filter old_m (messages d)),
              purged_raw_rx = length (filter old_r (raw_rx d)),
              purged_contacts = length (filter old_c (contacts d)),
              purged_clients = length (filter old_k (clients d))\<rparr>))"
proof -
  have s: "contacts_synced_at env (d\<lparr>messages := ms, raw_rx := rs\<rparr>) = contacts_synced_at env d"
    "contacts_synced_at env (d\<lparr>messages := ms\<rparr>) = contacts_synced_at env d"
    "contacts_synced_at env (d\<lparr>raw_rx := rs\<rparr>) = contacts_synced_at env d" for ms rs
    by (simp_all add: contacts_synced_at_def kv_get_def)
  obtain v where v: "contacts_synced_at env d = Inr v"
    by (simp add: contacts_synced_at_def kv_get_def run_query_def assms)
  show ?thesis
    by (cases v)
      (simp_all add: maintain_def then_purge_def maintain_defs Let_def assms run_query_def no_stats_def
        s v split_def cutoff_def)
qed

text \<open>C39. When no statement fails, maintenance keeps exactly the rows inside their retention
  period (all of them where it is zero), and reports how many it deleted.\<close>

theorem maintain_exact:
  assumes "\<And>c. db_ok env c"
  shows "maintain env ret d =
    (let old_m = (\<lambda>m. messages_days ret > 0 \<and> message_time m < cutoff (unix_now env) (messages_days ret));
         old_r = (\<lambda>r. raw_rx_days ret > 0 \<and> rx_ts r < cutoff (unix_now env) (raw_rx_days ret));
         old_c = (\<lambda>r. contacts_days ret > 0 \<and>
            (case contacts_synced_at env d of Inr (Some t) \<Rightarrow>
               contact_time r < min t (cutoff (unix_now env) (contacts_days ret)) | _ \<Rightarrow> False));
         old_k = (\<lambda>x. clients_days ret > 0 \<and>
            last_connected_at (snd x) < cutoff (unix_now env) (clients_days ret))
     in (d\<lparr>messages := filter (\<lambda>x. \<not> old_m x) (messages d), raw_rx := filter (\<lambda>x. \<not> old_r x) (raw_rx d),
           contacts := filter (\<lambda>x. \<not> old_c x) (contacts d), clients := filter (\<lambda>x. \<not> old_k x) (clients d)\<rparr>,
         Inr \<lparr>purged_messages = length (filter old_m (messages d)),
              purged_raw_rx = length (filter old_r (raw_rx d)),
              purged_contacts = length (filter old_c (contacts d)),
              purged_clients = length (filter old_k (clients d))\<rparr>))"
  by (rule maintain_ok [OF assms])

text \<open>A contact last seen on day 0, and a synchronization after it, for the witnesses.\<close>

definition old_contact :: contact_row where
  "old_contact = \<lparr>contact = \<lparr>public_key = [1], contact_name = ''old'', contact_type = 1,
     last_advert = None, contact_lat = None, contact_lon = None, raw = None\<rparr>, seen_at = Some 0\<rparr>"

definition synced_state :: node_state where
  "synced_state = empty_state\<lparr>contacts := [old_contact],
     kv_store := [(''contacts_synced_at'', i64_to_le_bytes 900000)]\<rparr>"

definition one_day :: retention where
  "one_day = \<lparr>messages_days = 1, raw_rx_days = 1, contacts_days = 1, clients_days = 1\<rparr>"

definition million :: "unit db_env_scheme" where
  "million = \<lparr>unix_now = 1000000, db_ok = (\<lambda>c. True)\<rparr>"

lemma synced_state_synced: "contacts_synced_at million synced_state = Inr (Some 900000)"
  by (simp add: contacts_synced_at_def kv_get_def run_query_def million_def synced_state_def
      hm_get_def i64_le_roundtrip) (simp add: i64_to_le_bytes_def)

lemma synced_state_contacts: "contacts synced_state = [old_contact]"
  by (simp add: synced_state_def)

lemma million_ok: "db_ok million c"
  by (simp add: million_def)

lemma old_contact_old:
  "contact_time old_contact < min 900000 (cutoff (unix_now million) (contacts_days one_day))"
  "0 < contacts_days one_day"
  by (simp_all add: contact_time_def old_contact_def cutoff_def million_def one_day_def)

theorem maintain_contacts_safe_witness:
  "old_contact \<in> set (contacts synced_state) \<and>
   old_contact \<notin> set (contacts (fst (maintain million one_day synced_state))) \<and>
   contact_time old_contact < 900000"
proof -
  have e: "contacts (fst (maintain million one_day synced_state)) = []"
    unfolding maintain_ok [OF million_ok] Let_def
    using old_contact_old by (simp add: synced_state_contacts synced_state_synced)
  have "old_contact \<in> set (contacts synced_state)" by (simp add: synced_state_contacts)
  from maintain_contacts_safe [OF this, of million one_day] e this synced_state_synced
  show ?thesis by auto
qed

theorem maintain_exact_witness:
  "contacts (fst (maintain million one_day synced_state)) = []"
  unfolding maintain_exact [OF million_ok] Let_def
  using old_contact_old by (simp add: synced_state_contacts synced_state_synced)

lemma replayable_ids_set:
  "set (replayable_ids P who d) = msg_id ` {m \<in> set (messages d). P m \<and> replayable_to who m}"
  by (auto simp: replayable_ids_def)

lemma replayable_ids_sorted:
  assumes "store_inv d"
  shows "sorted_wrt (<) (replayable_ids P who d)"
proof -
  have "distinct (map msg_id (messages d))"
    using assms by (simp add: store_inv_def strict_sorted_iff)
  then show ?thesis
    by (simp add: replayable_ids_def strict_sorted_iff distinct_map_filter)
qed

text \<open>The messages a returning client is replayed: their ids come in strictly increasing
  order, and they are exactly the stored messages after its cursor that kept their frame and
  that no client of the same port and app sent.\<close>

theorem message_ids_after_spec:
  assumes "store_inv d" and "message_ids_after env after who d = Inr ids"
  shows "sorted_wrt (<) ids \<and> set ids = {msg_id m | m. m \<in> set (messages d) \<and> after < msg_id m \<and>
    row_frame m \<noteq> None \<and> \<not> (origin_port m = Some (uint (fst who)) \<and>
      (origin_app m = None \<or> origin_app m = Some (snd who)))}"
proof -
  have ids: "ids = replayable_ids (\<lambda>m. msg_id m > after) who d"
    using assms(2) by (simp add: message_ids_after_def run_query_def split: if_splits)
  have "replayable_to who m \<longleftrightarrow> row_frame m \<noteq> None \<and> \<not> (origin_port m = Some (uint (fst who)) \<and>
      (origin_app m = None \<or> origin_app m = Some (snd who)))" for m
    by (auto simp: replayable_to_def split: option.split)
  then have "set ids = {msg_id m | m. m \<in> set (messages d) \<and> after < msg_id m \<and>
    row_frame m \<noteq> None \<and> \<not> (origin_port m = Some (uint (fst who)) \<and>
      (origin_app m = None \<or> origin_app m = Some (snd who)))}"
    by (auto simp: ids replayable_ids_set)
  then show ?thesis using replayable_ids_sorted [OF assms(1)] by (simp add: ids)
qed

text \<open>Three stored messages: one from the radio, one sent by the client itself, one by another.\<close>

definition sample_message :: "int \<Rightarrow> identity option \<Rightarrow> message_row" where
  "sample_message i who = message_row_of i 0 \<lparr>msg_type = ''channel'', from_key = None,
     channel_idx = Some 0, msg_text = [], timestamp = 0, msg_frame = [8, word_of_int i], origin = who\<rparr>"

definition sample_log :: node_state where
  "sample_log = empty_state\<lparr>messages := [sample_message 1 None, sample_message 2 (Some (5000, ''app'')),
     sample_message 3 (Some (5000, ''other''))], message_seq := 3\<rparr>"

lemma sample_log_inv: "store_inv sample_log"
  by (simp add: store_inv_def sample_log_def empty_state_def distinct_key_def sample_message_def
      message_row_of_def hm_simps cursor_of_def)

theorem message_ids_after_spec_witness:
  "message_ids_after million 1 (5000, ''app'') sample_log = Inr [3] \<and>
   set [3 :: int] = {msg_id m | m. m \<in> set (messages sample_log) \<and> 1 < msg_id m \<and>
    row_frame m \<noteq> None \<and> \<not> (origin_port m = Some (uint (5000 :: u16)) \<and>
      (origin_app m = None \<or> origin_app m = Some ''app''))}"
proof -
  have "message_ids_after million 1 (5000, ''app'') sample_log = Inr [3]"
    by (simp add: message_ids_after_def run_query_def million_def replayable_ids_def sample_log_def
        sample_message_def message_row_of_def replayable_to_def)
  with message_ids_after_spec [OF sample_log_inv this] show ?thesis by simp
qed

text \<open>The backlog of a new client: of the messages it may be sent, the newest \<open>n\<close>, oldest
  first; with \<open>Off\<close>, none.\<close>

theorem backlog_newest:
  assumes "store_inv d" and "backlog_message_ids env (Messages n) who d = Inr ids"
  shows "ids = drop (length (replayable_ids (\<lambda>m. True) who d) - n) (replayable_ids (\<lambda>m. True) who d) \<and>
    length ids = min n (length (replayable_ids (\<lambda>m. True) who d)) \<and> sorted_wrt (<) ids \<and>
    backlog_message_ids env Off who d = Inr []"
proof -
  let ?all = "replayable_ids (\<lambda>m. True) who d"
  have "ids = sort (take n (rev ?all))"
    using assms(2) by (simp add: backlog_message_ids_def run_query_def split: if_splits)
  also have "take n (rev ?all) = rev (drop (length ?all - n) ?all)" by (simp add: take_rev)
  also have "sort (rev (drop (length ?all - n) ?all)) = drop (length ?all - n) ?all"
  proof (rule sorted_distinct_set_unique)
    have "sorted_wrt (<) (drop (length ?all - n) ?all)"
      by (rule sorted_wrt_drop) (rule replayable_ids_sorted [OF assms(1)])
    then show "sorted (drop (length ?all - n) ?all)" "distinct (drop (length ?all - n) ?all)"
      "distinct (sort (rev (drop (length ?all - n) ?all)))"
      by (simp_all add: strict_sorted_iff)
  qed simp_all
  finally have "ids = drop (length ?all - n) ?all" .
  then show ?thesis
    using replayable_ids_sorted [OF assms(1), of "\<lambda>m. True" who]
    by (auto simp: sorted_wrt_drop backlog_message_ids_def)
qed

theorem backlog_newest_witness:
  "backlog_message_ids million (Messages 1) (5000, ''app'') sample_log = Inr [3] \<and> sorted_wrt (<) [3 :: int]"
proof -
  have "backlog_message_ids million (Messages 1) (5000, ''app'') sample_log = Inr [3]"
    by (simp add: backlog_message_ids_def run_query_def million_def replayable_ids_def sample_log_def
        sample_message_def message_row_of_def replayable_to_def)
  with backlog_newest [OF sample_log_inv this] show ?thesis by blast
qed

section \<open>The backlog setting\<close>

lemma of_char_digit: "0 \<le> d \<Longrightarrow> d < 10 \<Longrightarrow> of_char (digit d) = 48 + d"
  by (simp add: digit_def)

lemma digit_value_digit: "0 \<le> d \<Longrightarrow> d < 10 \<Longrightarrow> digit_value (digit d) = Some d"
  by (simp add: digit_value_def of_char_digit Let_def)

lemma parse_digits_snoc:
  "parse_digits acc (xs @ [c]) = (case parse_digits acc xs of None \<Rightarrow> None | Some a \<Rightarrow> parse_digits a [c])"
  by (induction acc xs rule: parse_digits.induct) (auto split: option.split)

lemma parse_dec_digits: "0 \<le> n \<Longrightarrow> n < 2 ^ 32 \<Longrightarrow> parse_digits 0 (dec_digits n) = Some n"
proof (induction n rule: dec_digits.induct)
  case (1 n)
  show ?case
  proof (cases "n < 10")
    case True
    then show ?thesis using 1 by (simp add: dec_digits.simps [of n] digit_value_digit)
  next
    case False
    then have "parse_digits 0 (dec_digits (n div 10)) = Some (n div 10)" using 1 by simp
    then show ?thesis
      using 1(2,3) False by (simp add: dec_digits.simps [of n] parse_digits_snoc digit_value_digit)
  qed
qed

lemma dec_digits_digits: "0 \<le> n \<Longrightarrow> c \<in> set (dec_digits n) \<Longrightarrow> \<exists>d. 0 \<le> d \<and> d < 10 \<and> c = digit d"
proof (induction n rule: dec_digits.induct)
  case (1 n)
  have "\<exists>d. 0 \<le> d \<and> d < 10 \<and> digit (n mod 10) = digit d"
    by (rule exI [of _ "n mod 10"]) simp
  with 1 show ?case by (cases "n < 10") (auto simp: dec_digits.simps [of n])
qed

lemma dec_digits_not_Nil: "dec_digits n \<noteq> []"
  by (simp add: dec_digits.simps [of n])


lemma digit_plain:
  assumes "0 \<le> d" "d < 10"
  shows "\<not> is_space (digit d)" and "\<not> is_ascii_alphabetic (digit d)" and "digit d \<noteq> CHR ''+''"
proof -
  have n: "(of_char (digit d) :: nat) = nat (48 + d)"
    using of_char_digit [OF assms] of_nat_of_char [of "digit d", where 'a = int] by simp
  with assms show "\<not> is_space (digit d)" "\<not> is_ascii_alphabetic (digit d)"
    by (auto simp: is_space_def is_ascii_alphabetic_def)
  show "digit d \<noteq> CHR ''+''"
  proof
    assume "digit d = CHR ''+''"
    then have "(of_char (digit d) :: nat) = 43" by simp
    with n assms show False by simp
  qed
qed

lemma trim_padded:
  assumes "\<forall>c \<in> set pre. is_space c" "\<forall>c \<in> set post. is_space c"
    and "s \<noteq> []" "\<not> is_space (hd s)" "\<not> is_space (last s)"
  shows "trim (pre @ s @ post) = s"
proof -
  have a: "dropWhile is_space (xs @ ys) = ys"
    if "\<forall>c \<in> set xs. is_space c" "ys \<noteq> []" "\<not> is_space (hd ys)" for xs ys
    using that by (cases ys) (auto simp: dropWhile_append)
  have "dropWhile is_space (pre @ s @ post) = s @ post"
    using assms by (intro a) (auto simp: hd_append)
  moreover have "dropWhile is_space (rev post @ rev s) = rev s"
    using assms by (intro a) (auto simp: hd_rev)
  ultimately show ?thesis by (simp add: trim_def)
qed

lemma parse_u32_digits: "0 \<le> n \<Longrightarrow> n < 2 ^ 32 \<Longrightarrow> parse_u32 (dec_digits n) = Some n"
proof -
  assume n: "0 \<le> n" "n < 2 ^ 32"
  obtain c cs where c: "dec_digits n = c # cs" using dec_digits_not_Nil by (cases "dec_digits n") auto
  then have "c \<noteq> CHR ''+''" using dec_digits_digits [OF n(1), of c] digit_plain(3) by auto
  then show ?thesis using parse_dec_digits [OF n] c by (simp add: parse_u32_def Let_def)
qed

text \<open>The backlog setting: a decimal number below \<open>2 ^ 32\<close>, with any white space around
  it, is read as that many messages, with \<open>h\<close> or \<open>d\<close> after it as hours or days in seconds,
  and zero turns the backlog off.\<close>

theorem parse_backlog_numbers:
  assumes "0 \<le> n" and "n < 2 ^ 32"
    and "\<forall>c \<in> set pre. is_space c" and "\<forall>c \<in> set post. is_space c"
  shows "parse_backlog (pre @ int_to_string n @ post) = Inr (if n = 0 then Off else Messages (nat n)) \<and>
    parse_backlog (pre @ int_to_string n @ ''h'' @ post) = Inr (if n = 0 then Off else Seconds (n * 3600)) \<and>
    parse_backlog (pre @ int_to_string n @ ''d'' @ post) = Inr (if n = 0 then Off else Seconds (n * 86400))"
proof -
  have i: "int_to_string n = dec_digits n" using assms(1) by (simp add: int_to_string_def)
  have nn: "dec_digits n \<noteq> []" by (rule dec_digits_not_Nil)
  have plain: "\<not> is_space c \<and> \<not> is_ascii_alphabetic c" if "c \<in> set (dec_digits n)" for c
    using dec_digits_digits [OF assms(1) that] digit_plain by auto
  have t: "trim (pre @ dec_digits n @ u @ post) = dec_digits n @ u"
    if "u = [] \<or> \<not> is_space (last u)" for u
    using trim_padded [OF assms(3,4), of "dec_digits n @ u"] plain nn that by (auto simp: last_append)
  have l: "\<not> is_ascii_alphabetic (last (dec_digits n))" using plain nn by simp
  have u: "\<not> is_space CHR ''h''" "\<not> is_space CHR ''d''" "is_ascii_alphabetic CHR ''h''"
    "is_ascii_alphabetic CHR ''d''" "to_ascii_lowercase CHR ''h'' = CHR ''h''"
    "to_ascii_lowercase CHR ''d'' = CHR ''d''"
    by (simp_all add: is_space_def is_ascii_alphabetic_def to_ascii_lowercase_def)
  show ?thesis
    using t [of "[]"] t [of "''h''"] t [of "''d''"] parse_u32_digits [OF assms(1,2)] l nn u
    by (simp add: parse_backlog_def i Let_def)
qed

theorem parse_backlog_numbers_witness:
  "parse_backlog ('' '' @ int_to_string 12 @ ''d'' @ []) = Inr (Seconds 1036800)"
  using parse_backlog_numbers [of 12 "'' ''" "[]"] by (simp add: is_space_def)

end
