(* ===== verification/Schema.thy ===== *)
theory Schema
  imports Store
begin

text \<open>
  Opening the database, \<open>NodeState::open\<close> and \<open>NodeState::migrate\<close> of \<open>src/node/state.rs\<close>: the
  file as any version of the program left it, the statements that bring its schema up to date, and
  what they mean for the tables of the model. Every statement may fail, and what the statements
  before it did stays in the file.
\<close>

section \<open>Database files\<close>

datatype sql_value = SqlNull | SqlInt int | SqlReal f64 | SqlText string | SqlBlob frame

type_synonym sql_row = "(string \<times> sql_value) list"

text \<open>\<open>last_rowid\<close> is the entry of the table in \<open>sqlite_sequence\<close>.\<close>

record sql_table =
  columns :: "string list"
  table_rows :: "sql_row list"
  last_rowid :: int

record database =
  tables :: "(string, sql_table) hmap"
  auto_vacuum :: nat

definition table :: "string \<Rightarrow> database \<Rightarrow> sql_table option" where
  "table t db = hm_get (tables db) t"

definition put_table :: "string \<Rightarrow> sql_table \<Rightarrow> database \<Rightarrow> database" where
  "put_table t tb db = db\<lparr>tables := hm_insert t tb (tables db)\<rparr>"

text \<open>Column \<open>c\<close> of a row; a row written before the column was added has none.\<close>

definition column :: "string \<Rightarrow> sql_row \<Rightarrow> sql_value" where
  "column c r = (case map_of r c of None \<Rightarrow> SqlNull | Some v \<Rightarrow> v)"

section \<open>The migration\<close>

datatype migration =
    CreateTable string "string list"
  | DropKeys "string list"
  | AddColumn string string
  | ConvertVacuum

text \<open>\<open>CREATE TABLE IF NOT EXISTS\<close>.\<close>

definition create_table :: "string \<Rightarrow> string list \<Rightarrow> database \<Rightarrow> database" where
  "create_table t cols db =
     (if table t db = None then put_table t \<lparr>columns = cols, table_rows = [], last_rowid = 0\<rparr> db else db)"

definition has_key :: "string list \<Rightarrow> sql_row \<Rightarrow> bool" where
  "has_key ks r \<longleftrightarrow> (case column ''key'' r of SqlText k \<Rightarrow> k \<in> set ks | _ \<Rightarrow> False)"

definition drop_keys :: "string list \<Rightarrow> database \<Rightarrow> database db_result" where
  "drop_keys ks db =
     (case table ''kv_store'' db of
        None \<Rightarrow> Inl SqlError
      | Some tb \<Rightarrow> Inr (put_table ''kv_store''
          (tb\<lparr>table_rows := filter (\<lambda>r. \<not> has_key ks r) (table_rows tb)\<rparr>) db))"

text \<open>The columns of a missing table are none, and altering it is an error.\<close>

definition column_exists :: "string \<Rightarrow> string \<Rightarrow> database \<Rightarrow> bool" where
  "column_exists t c db = (case table t db of None \<Rightarrow> False | Some tb \<Rightarrow> c \<in> set (columns tb))"

definition add_column_if_missing :: "string \<Rightarrow> string \<Rightarrow> database \<Rightarrow> database db_result" where
  "add_column_if_missing t c db =
     (if column_exists t c db then Inr db
      else case table t db of
          None \<Rightarrow> Inl SqlError
        | Some tb \<Rightarrow> Inr (put_table t
            (tb\<lparr>columns := columns tb @ [c], table_rows := map ((#) (c, SqlNull)) (table_rows tb)\<rparr>) db))"

definition convert_vacuum :: "database \<Rightarrow> database" where
  "convert_vacuum db = (if auto_vacuum db \<noteq> 2 then db\<lparr>auto_vacuum := 2\<rparr> else db)"

fun run_migration :: "migration \<Rightarrow> database \<Rightarrow> database db_result" where
  "run_migration (CreateTable t cols) db = Inr (create_table t cols db)"
| "run_migration (DropKeys ks) db = drop_keys ks db"
| "run_migration (AddColumn t c) db = add_column_if_missing t c db"
| "run_migration ConvertVacuum db = Inr (convert_vacuum db)"

definition migrations :: "migration list" where
  "migrations =
     [CreateTable ''contacts'' [''public_key'', ''name'', ''contact_type'', ''last_advert'', ''lat'', ''lon''],
      CreateTable ''channels'' [''idx'', ''name'', ''config''],
      CreateTable ''messages'' [''id'', ''msg_type'', ''from_key'', ''channel_idx'', ''text'', ''timestamp''],
      CreateTable ''kv_store'' [''key'', ''value''],
      CreateTable ''raw_rx'' [''id'', ''ts'', ''code'', ''payload''],
      CreateTable ''clients'' [''port'', ''app_name'', ''last_seen_id'', ''last_connected_at''],
      DropKeys obsolete_keys,
      AddColumn ''contacts'' ''raw'',
      AddColumn ''contacts'' ''seen_at'',
      AddColumn ''messages'' ''received_at'',
      AddColumn ''messages'' ''frame'',
      AddColumn ''messages'' ''origin_port'',
      AddColumn ''messages'' ''origin_app'',
      ConvertVacuum]"

text \<open>Steps in order up to the first that fails; \<open>ok n\<close> tells whether the n-th is let through.\<close>

fun run_steps :: "('m \<Rightarrow> 'd \<Rightarrow> 'd db_result) \<Rightarrow> (nat \<Rightarrow> bool) \<Rightarrow> nat \<Rightarrow> 'm list \<Rightarrow> 'd \<Rightarrow> 'd \<times> unit db_result" where
  "run_steps exec ok n [] d = (d, Inr ())"
| "run_steps exec ok n (m # ms) d =
     (if \<not> ok n then (d, Inl SqlError)
      else case exec m d of
          Inl e \<Rightarrow> (d, Inl e)
        | Inr d' \<Rightarrow> run_steps exec ok (Suc n) ms d')"

definition migrate_database :: "(nat \<Rightarrow> bool) \<Rightarrow> database \<Rightarrow> database \<times> unit db_result" where
  "migrate_database ok db = run_steps run_migration ok 0 migrations db"

section \<open>Opening\<close>

text \<open>A missing file is created. The vacuum mode of the options takes effect on a database that has
  no table yet.\<close>

definition connect_database :: "database option \<Rightarrow> database" where
  "connect_database file =
     (let db = (case file of None \<Rightarrow> \<lparr>tables = [], auto_vacuum = 0\<rparr> | Some db \<Rightarrow> db)
      in if tables db = [] then db\<lparr>auto_vacuum := 2\<rparr> else db)"

definition open_database :: "bool \<Rightarrow> (nat \<Rightarrow> bool) \<Rightarrow> database option \<Rightarrow> database option \<times> unit db_result" where
  "open_database connects ok file =
     (if \<not> connects then (file, Inl SqlError)
      else let (db, r) = migrate_database ok (connect_database file) in (Some db, r))"

section \<open>Steps that may be repeated\<close>

text \<open>A step that was done once does nothing when it is run again, whatever was run in between.\<close>

locale repeatable_steps =
  fixes exec :: "'m \<Rightarrow> 'd \<Rightarrow> 'd db_result" and settled :: "'m \<Rightarrow> 'd \<Rightarrow> bool"
  assumes exec_settles: "exec m d = Inr e \<Longrightarrow> settled m e"
    and settled_stays: "settled m d \<Longrightarrow> exec m' d = Inr e \<Longrightarrow> settled m e"
    and settled_repeats: "settled m d \<Longrightarrow> exec m d = Inr d"
begin

lemma run_settled_append:
  "\<forall>m \<in> set ms. settled m d \<Longrightarrow>
   run_steps exec (\<lambda>n. True) n (ms @ ms') d = run_steps exec (\<lambda>n. True) (n + length ms) ms' d"
  by (induction ms arbitrary: n) (simp_all add: settled_repeats)

lemma run_counter: "run_steps exec (\<lambda>n. True) n ms d = run_steps exec (\<lambda>n. True) k ms d"
  by (induction ms arbitrary: d n k) (auto split: sum.split)

text \<open>Where a run has stopped, it has settled what it ran, and the rest is what is left to do.\<close>

lemma run_splits:
  "run_steps exec ok n ms d = (e, r) \<Longrightarrow> \<forall>m \<in> set before. settled m d \<Longrightarrow>
   \<exists>ran rest. ms = ran @ rest \<and> (\<forall>m \<in> set (before @ ran). settled m e) \<and>
     run_steps exec (\<lambda>n. True) n ms d = run_steps exec (\<lambda>n. True) n rest e"
proof (induction ms arbitrary: d n before)
  case (Cons m ms)
  show ?case
  proof (cases "ok n")
    case False
    then show ?thesis using Cons.prems by (intro exI [of _ "[]"] exI [of _ "m # ms"]) simp
  next
    case ok: True
    show ?thesis
    proof (cases "exec m d")
      case (Inl x)
      then show ?thesis using ok Cons.prems by (intro exI [of _ "[]"] exI [of _ "m # ms"]) simp
    next
      case (Inr d')
      then have "\<forall>x \<in> set (before @ [m]). settled x d'"
        using Cons.prems(2) exec_settles settled_stays by auto
      from Cons.IH [OF _ this, of "Suc n"] Inr ok Cons.prems(1)
      obtain ran rest where "ms = ran @ rest" "\<forall>x \<in> set ((before @ [m]) @ ran). settled x e"
        "run_steps exec (\<lambda>n. True) (Suc n) ms d' = run_steps exec (\<lambda>n. True) (Suc n) rest e"
        by auto
      then show ?thesis
        using Inr run_counter [of "Suc n" rest e n] by (intro exI [of _ "m # ran"] exI [of _ rest]) auto
    qed
  qed
qed auto

lemma completed:
  "run_steps exec ok n ms d = (e, Inr u) \<Longrightarrow> \<forall>m \<in> set before. settled m d \<Longrightarrow>
   \<forall>m \<in> set (before @ ms). settled m e"
proof (induction ms arbitrary: d n before)
  case (Cons m ms)
  then obtain d' where d: "exec m d = Inr d'" "run_steps exec ok (Suc n) ms d' = (e, Inr u)"
    by (auto split: if_splits sum.splits)
  then have "\<forall>x \<in> set (before @ [m]). settled x d'"
    using Cons.prems(2) exec_settles settled_stays by auto
  from Cons.IH [OF d(2) this] show ?case by simp
qed simp

lemma resume:
  assumes "run_steps exec ok n ms d = (e, r)"
  shows "run_steps exec (\<lambda>n. True) k ms e = run_steps exec (\<lambda>n. True) k ms d"
proof -
  obtain ran rest where "ms = ran @ rest" "\<forall>m \<in> set ran. settled m e"
    "run_steps exec (\<lambda>n. True) n ms d = run_steps exec (\<lambda>n. True) n rest e"
    using run_splits [OF assms, of "[]"] by auto
  then show ?thesis
    using run_settled_append [of ran e k rest] run_counter [of _ rest e k] run_counter [of k ms d n]
    by (metis run_counter)
qed

end

lemma table_put [simp]: "table t (put_table t' tb db) = (if t = t' then Some tb else table t db)"
  by (simp add: table_def put_table_def hm_simps)

lemma table_vacuum [simp]:
  "table t (db\<lparr>auto_vacuum := n\<rparr>) = table t db" "table t (convert_vacuum db) = table t db"
  by (simp_all add: table_def convert_vacuum_def)

lemma vacuum_put [simp]: "auto_vacuum (put_table t tb db) = auto_vacuum db"
  by (simp add: put_table_def)

lemma put_table_id: "table t db = Some tb \<Longrightarrow> put_table t tb db = db"
  by (simp add: table_def put_table_def hm_get_def hm_insert_def update_triv)

fun settled :: "migration \<Rightarrow> database \<Rightarrow> bool" where
  "settled (CreateTable t cols) db \<longleftrightarrow> table t db \<noteq> None"
| "settled (DropKeys ks) db \<longleftrightarrow>
     (case table ''kv_store'' db of None \<Rightarrow> False | Some tb \<Rightarrow> \<forall>r \<in> set (table_rows tb). \<not> has_key ks r)"
| "settled (AddColumn t c) db \<longleftrightarrow> column_exists t c db"
| "settled ConvertVacuum db \<longleftrightarrow> auto_vacuum db = 2"

lemma exec_settles: "run_migration m db = Inr db' \<Longrightarrow> settled m db'"
  by (cases m)
    (auto simp: create_table_def drop_keys_def add_column_if_missing_def column_exists_def convert_vacuum_def
      split: option.splits if_splits)

lemma has_key_Cons: "c \<noteq> ''key'' \<Longrightarrow> has_key ks ((c, v) # r) = has_key ks r"
  by (simp add: has_key_def column_def)

lemma has_key_null: "\<not> has_key ks ((''key'', SqlNull) # r)"
  by (simp add: has_key_def column_def)

lemma settled_stays: "settled m db \<Longrightarrow> run_migration m' db = Inr db' \<Longrightarrow> settled m db'"
proof (induction m' db rule: run_migration.induct)
  case (3 t c db)
  have "\<not> has_key ks ((c, SqlNull) # r)" if "\<not> has_key ks r" for ks r
    using that by (cases "c = ''key''") (simp_all add: has_key_Cons has_key_null)
  then show ?case using 3
    by (cases m) (auto simp: add_column_if_missing_def column_exists_def split: option.splits if_splits)
qed (cases m; auto simp: create_table_def drop_keys_def column_exists_def convert_vacuum_def
      split: option.splits if_splits)+


lemma settled_repeats: "settled m db \<Longrightarrow> run_migration m db = Inr db"
proof (cases m)
  case (DropKeys ks)
  assume "settled m db"
  with DropKeys obtain tb where "table ''kv_store'' db = Some tb" "\<forall>r \<in> set (table_rows tb). \<not> has_key ks r"
    by (auto split: option.splits)
  moreover from this have "filter (\<lambda>r. \<not> has_key ks r) (table_rows tb) = table_rows tb" by simp
  ultimately show ?thesis using DropKeys by (simp add: drop_keys_def put_table_id)
qed (auto simp: create_table_def add_column_if_missing_def convert_vacuum_def)

interpretation migrating: repeatable_steps run_migration settled
  by unfold_locales (rule exec_settles, assumption, rule settled_stays, assumption+, rule settled_repeats)

section \<open>The tables of the model\<close>

definition rows :: "string \<Rightarrow> database \<Rightarrow> sql_row list" where
  "rows t db = (case table t db of None \<Rightarrow> [] | Some tb \<Rightarrow> table_rows tb)"

definition opt_int :: "sql_value \<Rightarrow> int option" where
  "opt_int v = (case v of SqlInt i \<Rightarrow> Some i | _ \<Rightarrow> None)"

definition opt_real :: "sql_value \<Rightarrow> f64 option" where
  "opt_real v = (case v of SqlReal x \<Rightarrow> Some x | _ \<Rightarrow> None)"

definition opt_text :: "sql_value \<Rightarrow> string option" where
  "opt_text v = (case v of SqlText s \<Rightarrow> Some s | _ \<Rightarrow> None)"

definition opt_blob :: "sql_value \<Rightarrow> frame option" where
  "opt_blob v = (case v of SqlBlob b \<Rightarrow> Some b | _ \<Rightarrow> None)"

definition the_or :: "'a \<Rightarrow> 'a option \<Rightarrow> 'a" where
  "the_or d v = (case v of None \<Rightarrow> d | Some x \<Rightarrow> x)"

abbreviation int_at :: "string \<Rightarrow> sql_row \<Rightarrow> int" where
  "int_at c r \<equiv> the_or 0 (opt_int (column c r))"

abbreviation text_at :: "string \<Rightarrow> sql_row \<Rightarrow> string" where
  "text_at c r \<equiv> the_or [] (opt_text (column c r))"

abbreviation blob_at :: "string \<Rightarrow> sql_row \<Rightarrow> frame" where
  "blob_at c r \<equiv> the_or [] (opt_blob (column c r))"

text \<open>A row as the queries read it.\<close>

definition load_contact :: "sql_row \<Rightarrow> contact_row" where
  "load_contact r =
     \<lparr>contact = \<lparr>public_key = blob_at ''public_key'' r, contact_name = text_at ''name'' r,
        contact_type = int_at ''contact_type'' r, last_advert = opt_int (column ''last_advert'' r),
        contact_lat = opt_real (column ''lat'' r), contact_lon = opt_real (column ''lon'' r),
        raw = opt_blob (column ''raw'' r)\<rparr>,
      seen_at = opt_int (column ''seen_at'' r)\<rparr>"

definition load_channel :: "sql_row \<Rightarrow> cached_channel" where
  "load_channel r =
     \<lparr>idx = int_at ''idx'' r, channel_name = text_at ''name'' r, config = opt_blob (column ''config'' r)\<rparr>"

definition load_message :: "sql_row \<Rightarrow> message_row" where
  "load_message r =
     \<lparr>msg_id = int_at ''id'' r, row_type = text_at ''msg_type'' r, row_from = opt_blob (column ''from_key'' r),
      row_channel = opt_int (column ''channel_idx'' r), row_text = text_at ''text'' r,
      row_timestamp = int_at ''timestamp'' r, received_at = opt_int (column ''received_at'' r),
      row_frame = opt_blob (column ''frame'' r), origin_port = opt_int (column ''origin_port'' r),
      origin_app = opt_text (column ''origin_app'' r)\<rparr>"

definition load_raw :: "sql_row \<Rightarrow> raw_rx_row" where
  "load_raw r = \<lparr>rx_ts = int_at ''ts'' r, rx_code = int_at ''code'' r, rx_payload = blob_at ''payload'' r\<rparr>"

definition load_client :: "sql_row \<Rightarrow> (int \<times> string) \<times> client_row" where
  "load_client r = ((int_at ''port'' r, text_at ''app_name'' r),
     \<lparr>last_seen_id = int_at ''last_seen_id'' r, last_connected_at = int_at ''last_connected_at'' r\<rparr>)"

definition load_kv :: "sql_row \<Rightarrow> string \<times> frame" where
  "load_kv r = (text_at ''key'' r, blob_at ''value'' r)"

definition load :: "database \<Rightarrow> node_state" where
  "load db =
     \<lparr>contacts = map load_contact (rows ''contacts'' db), channels = map load_channel (rows ''channels'' db),
      messages = map load_message (rows ''messages'' db),
      message_seq = (case table ''messages'' db of None \<Rightarrow> 0 | Some tb \<Rightarrow> last_rowid tb),
      kv_store = map load_kv (rows ''kv_store'' db), raw_rx = map load_raw (rows ''raw_rx'' db),
      clients = map load_client (rows ''clients'' db)\<rparr>"

text \<open>The rows of a table have values for its columns only.\<close>

definition database_wf :: "database \<Rightarrow> bool" where
  "database_wf db \<longleftrightarrow> (\<forall>t tb. table t db = Some tb \<longrightarrow>
     (\<forall>r \<in> set (table_rows tb). set (map fst r) \<subseteq> set (columns tb)))"

lemma column_new: "c \<notin> set (map fst r) \<Longrightarrow> column d ((c, SqlNull) # r) = column d r"
  by (auto simp: column_def map_of_eq_None_iff [symmetric] split: option.split)

lemma load_rows_cong:
  "c \<notin> set (map fst r) \<Longrightarrow> load_contact ((c, SqlNull) # r) = load_contact r"
  "c \<notin> set (map fst r) \<Longrightarrow> load_channel ((c, SqlNull) # r) = load_channel r"
  "c \<notin> set (map fst r) \<Longrightarrow> load_message ((c, SqlNull) # r) = load_message r"
  "c \<notin> set (map fst r) \<Longrightarrow> load_raw ((c, SqlNull) # r) = load_raw r"
  "c \<notin> set (map fst r) \<Longrightarrow> load_client ((c, SqlNull) # r) = load_client r"
  "c \<notin> set (map fst r) \<Longrightarrow> load_kv ((c, SqlNull) # r) = load_kv r"
  by (simp_all add: load_contact_def load_channel_def load_message_def load_raw_def load_client_def
      load_kv_def column_new)

lemma rows_put [simp]: "rows t (put_table t' tb db) = (if t = t' then table_rows tb else rows t db)"
  by (simp add: rows_def)

lemma rows_create [simp]: "rows t (create_table t' cols db) = rows t db"
  by (auto simp: create_table_def rows_def)

lemma load_create: "load (create_table t cols db) = load db"
  by (auto simp: load_def create_table_def rows_def)

lemma load_vacuum: "load (convert_vacuum db) = load db"
  by (simp add: load_def rows_def)

lemma rows_add_column:
  assumes "add_column_if_missing t c db = Inr db'" and "database_wf db"
    and "\<And>r. c \<notin> set (map fst r) \<Longrightarrow> f ((c, SqlNull) # r) = f r"
  shows "map f (rows t' db') = map f (rows t' db)"
proof (cases "column_exists t c db")
  case False
  then obtain tb where tb: "table t db = Some tb" and c: "c \<notin> set (columns tb)"
    and db': "db' = put_table t (tb\<lparr>columns := columns tb @ [c], table_rows := map ((#) (c, SqlNull)) (table_rows tb)\<rparr>) db"
    using assms(1) by (auto simp: add_column_if_missing_def column_exists_def split: option.splits)
  have "c \<notin> set (map fst r)" if "r \<in> set (table_rows tb)" for r
    using that assms(2) tb c by (fastforce simp: database_wf_def)
  then show ?thesis using assms(3) tb by (simp add: db' rows_def)
qed (use assms in \<open>simp add: add_column_if_missing_def\<close>)

lemma load_add_column:
  assumes "add_column_if_missing t c db = Inr db'" and "database_wf db"
  shows "load db' = load db"
proof -
  note same = rows_add_column [OF assms]
  have reads: "map load_contact (rows t' db') = map load_contact (rows t' db)"
    "map load_channel (rows t' db') = map load_channel (rows t' db)"
    "map load_message (rows t' db') = map load_message (rows t' db)"
    "map load_raw (rows t' db') = map load_raw (rows t' db)"
    "map load_client (rows t' db') = map load_client (rows t' db)"
    "map load_kv (rows t' db') = map load_kv (rows t' db)" for t'
    by (rule same, rule load_rows_cong, assumption)+
  have "(case table ''messages'' db' of None \<Rightarrow> 0 | Some tb \<Rightarrow> last_rowid tb) =
      (case table ''messages'' db of None \<Rightarrow> 0 | Some tb \<Rightarrow> last_rowid tb)"
    using assms(1) by (auto simp: add_column_if_missing_def split: option.splits if_splits)
  then show ?thesis
    by (simp add: load_def reads)
qed

lemma has_key_load: "has_key ks r \<longleftrightarrow> fst (load_kv r) \<in> set ks" if "[] \<notin> set ks"
  using that by (auto simp: has_key_def load_kv_def opt_text_def the_or_def split: sql_value.split)

lemma load_drop_keys: "drop_keys obsolete_keys db = Inr db' \<Longrightarrow> load db' = migrate (load db)"
proof -
  assume d: "drop_keys obsolete_keys db = Inr db'"
  then obtain tb where tb: "table ''kv_store'' db = Some tb"
    and db': "db' = put_table ''kv_store'' (tb\<lparr>table_rows := filter (\<lambda>r. \<not> has_key obsolete_keys r) (table_rows tb)\<rparr>) db"
    by (auto simp: drop_keys_def split: option.splits)
  have "map load_kv (filter (\<lambda>r. \<not> has_key obsolete_keys r) rs) =
      hm_retain (\<lambda>k v. k \<notin> set obsolete_keys) (map load_kv rs)" for rs
    by (induction rs) (auto simp: hm_retain_def has_key_load obsolete_keys_def split_beta)
  then show ?thesis using tb by (simp add: db' load_def migrate_def rows_def)
qed

section \<open>Running the migration\<close>

lemma database_wf_put:
  "database_wf db \<Longrightarrow> \<forall>r \<in> set (table_rows tb). set (map fst r) \<subseteq> set (columns tb) \<Longrightarrow>
   database_wf (put_table t tb db)"
  by (auto simp: database_wf_def split: if_splits)

lemma database_wf_step:
  assumes "run_migration m db = Inr db'" and "database_wf db"
  shows "database_wf db'"
proof -
  have r: "\<forall>r \<in> set (table_rows tb). set (map fst r) \<subseteq> set (columns tb)" if "table t db = Some tb" for t tb
    using that assms(2) by (simp add: database_wf_def)
  show ?thesis
  proof (cases m)
    case (CreateTable t cols)
    then show ?thesis using assms by (auto simp: create_table_def intro!: database_wf_put)
  next
    case (DropKeys ks)
    then obtain tb where tb: "table ''kv_store'' db = Some tb"
      and db': "db' = put_table ''kv_store'' (tb\<lparr>table_rows := filter (\<lambda>r. \<not> has_key ks r) (table_rows tb)\<rparr>) db"
      using assms(1) by (auto simp: drop_keys_def split: option.splits)
    show ?thesis unfolding db' using r [OF tb] by (intro database_wf_put [OF assms(2)]) simp
  next
    case (AddColumn t c)
    show ?thesis
    proof (cases "column_exists t c db")
      case False
      then obtain tb where tb: "table t db = Some tb"
        and db': "db' = put_table t (tb\<lparr>columns := columns tb @ [c], table_rows := map ((#) (c, SqlNull)) (table_rows tb)\<rparr>) db"
        using assms(1) AddColumn by (auto simp: add_column_if_missing_def split: option.splits)
      show ?thesis unfolding db' using r [OF tb] by (intro database_wf_put [OF assms(2)]) auto
    qed (use assms AddColumn in \<open>simp add: add_column_if_missing_def\<close>)
  next
    case ConvertVacuum
    then have "db' = convert_vacuum db" using assms(1) by simp
    then show ?thesis using assms(2) by (simp add: database_wf_def)
  qed
qed

text \<open>Every statement finds the tables it needs.\<close>

fun needs :: "migration \<Rightarrow> string option" where
  "needs (DropKeys ks) = Some ''kv_store''"
| "needs (AddColumn t c) = Some t"
| "needs m = None"

fun ready :: "string list \<Rightarrow> migration list \<Rightarrow> bool" where
  "ready ts [] \<longleftrightarrow> True"
| "ready ts (CreateTable t cols # ms) \<longleftrightarrow> ready (t # ts) ms"
| "ready ts (m # ms) \<longleftrightarrow> (case needs m of None \<Rightarrow> True | Some t \<Rightarrow> t \<in> set ts) \<and> ready ts ms"

lemma tables_stay: "run_migration m db = Inr db' \<Longrightarrow> table t db \<noteq> None \<Longrightarrow> table t db' \<noteq> None"
  using settled_stays [of "CreateTable t []" db m db'] by simp

lemma migrate_twice [simp]: "migrate (migrate s) = migrate s"
  by (simp add: migrate_def hm_retain_def)

lemma step_ready:
  assumes "\<And>t. needs m = Some t \<Longrightarrow> table t db \<noteq> None" and "database_wf db"
    and "\<And>ks. m = DropKeys ks \<Longrightarrow> ks = obsolete_keys"
  shows "\<exists>db'. run_migration m db = Inr db' \<and>
    load db' = (if m = DropKeys obsolete_keys then migrate (load db) else load db)"
proof (cases m)
  case (DropKeys ks)
  then obtain db' where "drop_keys obsolete_keys db = Inr db'"
    using assms(1,3) by (auto simp: drop_keys_def)
  then show ?thesis using DropKeys assms(3) load_drop_keys by simp
next
  case (AddColumn t c)
  then have "\<forall>e. add_column_if_missing t c db \<noteq> Inl e"
    using assms(1) by (auto simp: add_column_if_missing_def split: option.split)
  then obtain db' where "add_column_if_missing t c db = Inr db'"
    by (cases "add_column_if_missing t c db") simp_all
  then show ?thesis using AddColumn load_add_column assms(2) by simp
qed (simp_all add: load_create load_vacuum)

lemma ready_Cons:
  "ready ts (m # ms) \<longleftrightarrow> (\<forall>t. needs m = Some t \<longrightarrow> t \<in> set ts) \<and>
     ready (case m of CreateTable t cols \<Rightarrow> t # ts | _ \<Rightarrow> ts) ms"
  by (cases m) auto

lemma run_ready:
  "ready ts ms \<Longrightarrow> \<forall>t \<in> set ts. table t db \<noteq> None \<Longrightarrow> database_wf db \<Longrightarrow>
   \<forall>ks. DropKeys ks \<in> set ms \<longrightarrow> ks = obsolete_keys \<Longrightarrow>
   \<exists>db'. run_steps run_migration (\<lambda>n. True) n ms db = (db', Inr ()) \<and>
     load db' = (if DropKeys obsolete_keys \<in> set ms then migrate (load db) else load db)"
proof (induction ms arbitrary: ts db n)
  case (Cons m ms)
  obtain e where e: "run_migration m db = Inr e"
    and l: "load e = (if m = DropKeys obsolete_keys then migrate (load db) else load db)"
    using step_ready [of m db] Cons.prems by (auto simp: ready_Cons)
  let ?ts = "case m of CreateTable t cols \<Rightarrow> t # ts | _ \<Rightarrow> ts"
  have "\<forall>t \<in> set ?ts. table t e \<noteq> None"
    using tables_stay [OF e] exec_settles [OF e] Cons.prems(2) by (auto split: migration.splits)
  moreover have "ready ?ts ms" using Cons.prems(1) by (simp add: ready_Cons)
  ultimately show ?case
    using Cons.IH [of ?ts e "Suc n"] database_wf_step [OF e Cons.prems(3)] Cons.prems(4) e l by auto
qed simp

lemma migration_loads:
  assumes "database_wf db"
  shows "\<exists>db'. migrate_database (\<lambda>n. True) db = (db', Inr ()) \<and> load db' = migrate (load db)"
proof -
  have "ready [] migrations" by (simp add: migrations_def)
  moreover have "\<forall>ks. DropKeys ks \<in> set migrations \<longrightarrow> ks = obsolete_keys" "DropKeys obsolete_keys \<in> set migrations"
    by (simp_all add: migrations_def)
  ultimately show ?thesis
    using run_ready [of "[]" migrations db 0] assms by (auto simp: migrate_database_def)
qed

text \<open>The columns that the statements of \<open>NodeState\<close> name and the tables of the first version lack.\<close>

definition later_columns :: "(string \<times> string) list" where
  "later_columns =
     [(''contacts'', ''raw''), (''contacts'', ''seen_at''), (''messages'', ''received_at''),
      (''messages'', ''frame''), (''messages'', ''origin_port''), (''messages'', ''origin_app'')]"

lemma migrated_schema:
  assumes "migrate_database ok db = (db', Inr ())" and "(t, c) \<in> set later_columns"
  shows "column_exists t c db'"
proof -
  have "\<forall>m \<in> set migrations. settled m db'"
    using migrating.completed [of ok 0 migrations db db' "()" "[]"] assms(1) by (simp add: migrate_database_def)
  moreover have "AddColumn t c \<in> set migrations"
    using assms(2) by (auto simp: later_columns_def migrations_def)
  ultimately have "settled (AddColumn t c) db'" by blast
  then show ?thesis by simp
qed

text \<open>C29. Whatever version of the program left the database behind and wherever an earlier migration
  was interrupted, opening it again gives the database an undisturbed migration gives. That one
  always succeeds, the database then has every column that was added since the first version, and
  it changes nothing of what the queries read except that the obsolete key-value entries are gone.\<close>

theorem migration_resumes:
  assumes "database_wf db"
  shows "migrate_database (\<lambda>n. True) (fst (migrate_database ok db)) = migrate_database (\<lambda>n. True) db \<and>
    snd (migrate_database (\<lambda>n. True) db) = Inr () \<and>
    (\<forall>(t, c) \<in> set later_columns. column_exists t c (fst (migrate_database (\<lambda>n. True) db))) \<and>
    load (fst (migrate_database (\<lambda>n. True) db)) = migrate (load db)"
proof -
  obtain db' where d: "migrate_database (\<lambda>n. True) db = (db', Inr ())" "load db' = migrate (load db)"
    using migration_loads [OF assms] by blast
  moreover have "migrate_database (\<lambda>n. True) (fst (migrate_database ok db)) = migrate_database (\<lambda>n. True) db"
    unfolding migrate_database_def by (rule migrating.resume [OF prod.collapse [symmetric]])
  ultimately show ?thesis using migrated_schema [OF d(1)] by auto
qed

text \<open>A database of the first version, with a contact and an obsolete entry, and an interruption when
  the first column had been added.\<close>

definition old_database :: database where
  "old_database = \<lparr>tables =
     [(''contacts'', \<lparr>columns = [''public_key'', ''name'', ''contact_type'', ''last_advert'', ''lat'', ''lon''],
        table_rows = [[(''public_key'', SqlBlob [7]), (''name'', SqlText ''ann''), (''contact_type'', SqlInt 1)]],
        last_rowid = 0\<rparr>),
      (''kv_store'', \<lparr>columns = [''key'', ''value''],
        table_rows = [[(''key'', SqlText ''self_info''), (''value'', SqlBlob [1])]], last_rowid = 0\<rparr>)],
     auto_vacuum = 0\<rparr>"

theorem migration_resumes_witness:
  "let db = fst (migrate_database (\<lambda>n. n < 8) old_database) in
     column_exists ''contacts'' ''raw'' db \<and> \<not> column_exists ''contacts'' ''seen_at'' db \<and>
     migrate_database (\<lambda>n. True) db = migrate_database (\<lambda>n. True) old_database \<and>
     kv_store (load (fst (migrate_database (\<lambda>n. True) db))) = []"
proof -
  have wf: "database_wf old_database"
    by (auto simp: database_wf_def old_database_def table_def hm_get_def split: if_splits)
  have "column_exists ''contacts'' ''raw'' (fst (migrate_database (\<lambda>n. n < 8) old_database))"
    "\<not> column_exists ''contacts'' ''seen_at'' (fst (migrate_database (\<lambda>n. n < 8) old_database))"
    by code_simp+
  moreover have "kv_store (migrate (load old_database)) = []" by code_simp
  ultimately show ?thesis using migration_resumes [OF wf, of "\<lambda>n. n < 8"] by (simp add: Let_def)
qed

end
