(* ===== verification/Types.thy ===== *)
theory Types
  imports Prelude
begin

text \<open>
  \<open>src/protocol/types.rs\<close>: the command and response codes of the companion protocol,
  their byte values, the decoding of a byte and the names the event log prints. A constructor
  carries the enum it belongs to as a prefix, because both enums have a \<open>SignStart\<close>.
\<close>

section \<open>Commands\<close>

datatype (plugins only: code) command_code =
    CmdAppStart | CmdSendMsg | CmdSendChanMsg | CmdGetContacts | CmdGetTime | CmdSetTime |
    CmdSendAdvert | CmdSetName | CmdUpdateContact | CmdGetMsg | CmdSetRadio | CmdSetTxPower |
    CmdResetPath | CmdSetCoords | CmdRemoveContact | CmdShareContact | CmdExportContact |
    CmdImportContact | CmdReboot | CmdGetBattery | CmdSetTuning | CmdDeviceQuery |
    CmdExportPrivateKey | CmdImportPrivateKey | CmdSendRawData | CmdSendLogin |
    CmdSendStatusReq | CmdHasConnection | CmdSendLogout | CmdGetContactByKey | CmdGetChannel |
    CmdSetChannel | CmdSignStart | CmdSignData | CmdSignFinish | CmdSendTrace |
    CmdSetDevicePin | CmdSetOtherParams | CmdGetTelemetry | CmdGetCustomVars |
    CmdSetCustomVar | CmdGetAdvertPath | CmdGetTuningParams | CmdBinaryReq | CmdFactoryReset |
    CmdPathDiscovery | CmdSetFloodScope | CmdSendControlData | CmdGetStats | CmdSendAnonReq |
    CmdSetAutoaddConfig | CmdGetAutoaddConfig | CmdGetAllowedRepeatFreq | CmdSetPathHashMode |
    CmdSendChannelData | CmdSetDefaultFloodScope | CmdGetDefaultFloodScope | CmdSendRawPacket |
    CmdRunCliCommand

text \<open>The discriminants (\<open>c as u8\<close>).\<close>

primrec command_as_u8 :: "command_code \<Rightarrow> u8" where
  "command_as_u8 CmdAppStart = 0x01"
| "command_as_u8 CmdSendMsg = 0x02"
| "command_as_u8 CmdSendChanMsg = 0x03"
| "command_as_u8 CmdGetContacts = 0x04"
| "command_as_u8 CmdGetTime = 0x05"
| "command_as_u8 CmdSetTime = 0x06"
| "command_as_u8 CmdSendAdvert = 0x07"
| "command_as_u8 CmdSetName = 0x08"
| "command_as_u8 CmdUpdateContact = 0x09"
| "command_as_u8 CmdGetMsg = 0x0A"
| "command_as_u8 CmdSetRadio = 0x0B"
| "command_as_u8 CmdSetTxPower = 0x0C"
| "command_as_u8 CmdResetPath = 0x0D"
| "command_as_u8 CmdSetCoords = 0x0E"
| "command_as_u8 CmdRemoveContact = 0x0F"
| "command_as_u8 CmdShareContact = 0x10"
| "command_as_u8 CmdExportContact = 0x11"
| "command_as_u8 CmdImportContact = 0x12"
| "command_as_u8 CmdReboot = 0x13"
| "command_as_u8 CmdGetBattery = 0x14"
| "command_as_u8 CmdSetTuning = 0x15"
| "command_as_u8 CmdDeviceQuery = 0x16"
| "command_as_u8 CmdExportPrivateKey = 0x17"
| "command_as_u8 CmdImportPrivateKey = 0x18"
| "command_as_u8 CmdSendRawData = 0x19"
| "command_as_u8 CmdSendLogin = 0x1A"
| "command_as_u8 CmdSendStatusReq = 0x1B"
| "command_as_u8 CmdHasConnection = 0x1C"
| "command_as_u8 CmdSendLogout = 0x1D"
| "command_as_u8 CmdGetContactByKey = 0x1E"
| "command_as_u8 CmdGetChannel = 0x1F"
| "command_as_u8 CmdSetChannel = 0x20"
| "command_as_u8 CmdSignStart = 0x21"
| "command_as_u8 CmdSignData = 0x22"
| "command_as_u8 CmdSignFinish = 0x23"
| "command_as_u8 CmdSendTrace = 0x24"
| "command_as_u8 CmdSetDevicePin = 0x25"
| "command_as_u8 CmdSetOtherParams = 0x26"
| "command_as_u8 CmdGetTelemetry = 0x27"
| "command_as_u8 CmdGetCustomVars = 0x28"
| "command_as_u8 CmdSetCustomVar = 0x29"
| "command_as_u8 CmdGetAdvertPath = 0x2A"
| "command_as_u8 CmdGetTuningParams = 0x2B"
| "command_as_u8 CmdBinaryReq = 0x32"
| "command_as_u8 CmdFactoryReset = 0x33"
| "command_as_u8 CmdPathDiscovery = 0x34"
| "command_as_u8 CmdSetFloodScope = 0x36"
| "command_as_u8 CmdSendControlData = 0x37"
| "command_as_u8 CmdGetStats = 0x38"
| "command_as_u8 CmdSendAnonReq = 0x39"
| "command_as_u8 CmdSetAutoaddConfig = 0x3A"
| "command_as_u8 CmdGetAutoaddConfig = 0x3B"
| "command_as_u8 CmdGetAllowedRepeatFreq = 0x3C"
| "command_as_u8 CmdSetPathHashMode = 0x3D"
| "command_as_u8 CmdSendChannelData = 0x3E"
| "command_as_u8 CmdSetDefaultFloodScope = 0x3F"
| "command_as_u8 CmdGetDefaultFloodScope = 0x40"
| "command_as_u8 CmdSendRawPacket = 0x41"
| "command_as_u8 CmdRunCliCommand = 0x42"

definition command_from_byte_table :: "(u8 \<times> command_code) list" where
  "command_from_byte_table =
     [(0x01, CmdAppStart), (0x02, CmdSendMsg), (0x03, CmdSendChanMsg), (0x04, CmdGetContacts),
      (0x05, CmdGetTime), (0x06, CmdSetTime), (0x07, CmdSendAdvert), (0x08, CmdSetName),
      (0x09, CmdUpdateContact), (0x0A, CmdGetMsg), (0x0B, CmdSetRadio), (0x0C, CmdSetTxPower),
      (0x0D, CmdResetPath), (0x0E, CmdSetCoords), (0x0F, CmdRemoveContact),
      (0x10, CmdShareContact), (0x11, CmdExportContact), (0x12, CmdImportContact),
      (0x13, CmdReboot), (0x14, CmdGetBattery), (0x15, CmdSetTuning), (0x16, CmdDeviceQuery),
      (0x17, CmdExportPrivateKey), (0x18, CmdImportPrivateKey), (0x19, CmdSendRawData),
      (0x1A, CmdSendLogin), (0x1B, CmdSendStatusReq), (0x1C, CmdHasConnection),
      (0x1D, CmdSendLogout), (0x1E, CmdGetContactByKey), (0x1F, CmdGetChannel),
      (0x20, CmdSetChannel), (0x21, CmdSignStart), (0x22, CmdSignData), (0x23, CmdSignFinish),
      (0x24, CmdSendTrace), (0x25, CmdSetDevicePin), (0x26, CmdSetOtherParams),
      (0x27, CmdGetTelemetry), (0x28, CmdGetCustomVars), (0x29, CmdSetCustomVar),
      (0x2A, CmdGetAdvertPath), (0x2B, CmdGetTuningParams), (0x32, CmdBinaryReq),
      (0x33, CmdFactoryReset), (0x34, CmdPathDiscovery), (0x36, CmdSetFloodScope),
      (0x37, CmdSendControlData), (0x38, CmdGetStats), (0x39, CmdSendAnonReq),
      (0x3A, CmdSetAutoaddConfig), (0x3B, CmdGetAutoaddConfig),
      (0x3C, CmdGetAllowedRepeatFreq), (0x3D, CmdSetPathHashMode), (0x3E, CmdSendChannelData),
      (0x3F, CmdSetDefaultFloodScope), (0x40, CmdGetDefaultFloodScope),
      (0x41, CmdSendRawPacket), (0x42, CmdRunCliCommand)]"

definition command_from_byte :: "u8 \<Rightarrow> command_code option" where
  "command_from_byte b = map_of command_from_byte_table b"

primrec command_name :: "command_code \<Rightarrow> string" where
  "command_name CmdAppStart = ''CMD_APPSTART''"
| "command_name CmdSendMsg = ''CMD_SEND_MSG''"
| "command_name CmdSendChanMsg = ''CMD_SEND_CHAN_MSG''"
| "command_name CmdGetContacts = ''CMD_GET_CONTACTS''"
| "command_name CmdGetTime = ''CMD_GET_TIME''"
| "command_name CmdSetTime = ''CMD_SET_TIME''"
| "command_name CmdSendAdvert = ''CMD_SEND_ADVERT''"
| "command_name CmdSetName = ''CMD_SET_NAME''"
| "command_name CmdUpdateContact = ''CMD_UPDATE_CONTACT''"
| "command_name CmdGetMsg = ''CMD_GET_MSG''"
| "command_name CmdSetRadio = ''CMD_SET_RADIO''"
| "command_name CmdSetTxPower = ''CMD_SET_TX_POWER''"
| "command_name CmdResetPath = ''CMD_RESET_PATH''"
| "command_name CmdSetCoords = ''CMD_SET_COORDS''"
| "command_name CmdRemoveContact = ''CMD_REMOVE_CONTACT''"
| "command_name CmdShareContact = ''CMD_SHARE_CONTACT''"
| "command_name CmdExportContact = ''CMD_EXPORT_CONTACT''"
| "command_name CmdImportContact = ''CMD_IMPORT_CONTACT''"
| "command_name CmdReboot = ''CMD_REBOOT''"
| "command_name CmdGetBattery = ''CMD_GET_BATTERY''"
| "command_name CmdSetTuning = ''CMD_SET_TUNING''"
| "command_name CmdDeviceQuery = ''CMD_DEVICE_QUERY''"
| "command_name CmdExportPrivateKey = ''CMD_EXPORT_PRIVATE_KEY''"
| "command_name CmdImportPrivateKey = ''CMD_IMPORT_PRIVATE_KEY''"
| "command_name CmdSendRawData = ''CMD_SEND_RAW_DATA''"
| "command_name CmdSendLogin = ''CMD_SEND_LOGIN''"
| "command_name CmdSendStatusReq = ''CMD_SEND_STATUS_REQ''"
| "command_name CmdHasConnection = ''CMD_HAS_CONNECTION''"
| "command_name CmdSendLogout = ''CMD_SEND_LOGOUT''"
| "command_name CmdGetContactByKey = ''CMD_GET_CONTACT_BY_KEY''"
| "command_name CmdGetChannel = ''CMD_GET_CHANNEL''"
| "command_name CmdSetChannel = ''CMD_SET_CHANNEL''"
| "command_name CmdSignStart = ''CMD_SIGN_START''"
| "command_name CmdSignData = ''CMD_SIGN_DATA''"
| "command_name CmdSignFinish = ''CMD_SIGN_FINISH''"
| "command_name CmdSendTrace = ''CMD_SEND_TRACE''"
| "command_name CmdSetDevicePin = ''CMD_SET_DEVICE_PIN''"
| "command_name CmdSetOtherParams = ''CMD_SET_OTHER_PARAMS''"
| "command_name CmdGetTelemetry = ''CMD_GET_TELEMETRY''"
| "command_name CmdGetCustomVars = ''CMD_GET_CUSTOM_VARS''"
| "command_name CmdSetCustomVar = ''CMD_SET_CUSTOM_VAR''"
| "command_name CmdGetAdvertPath = ''CMD_GET_ADVERT_PATH''"
| "command_name CmdGetTuningParams = ''CMD_GET_TUNING_PARAMS''"
| "command_name CmdBinaryReq = ''CMD_BINARY_REQ''"
| "command_name CmdFactoryReset = ''CMD_FACTORY_RESET''"
| "command_name CmdPathDiscovery = ''CMD_PATH_DISCOVERY''"
| "command_name CmdSetFloodScope = ''CMD_SET_FLOOD_SCOPE''"
| "command_name CmdSendControlData = ''CMD_SEND_CONTROL_DATA''"
| "command_name CmdGetStats = ''CMD_GET_STATS''"
| "command_name CmdSendAnonReq = ''CMD_SEND_ANON_REQ''"
| "command_name CmdSetAutoaddConfig = ''CMD_SET_AUTOADD_CONFIG''"
| "command_name CmdGetAutoaddConfig = ''CMD_GET_AUTOADD_CONFIG''"
| "command_name CmdGetAllowedRepeatFreq = ''CMD_GET_ALLOWED_REPEAT_FREQ''"
| "command_name CmdSetPathHashMode = ''CMD_SET_PATH_HASH_MODE''"
| "command_name CmdSendChannelData = ''CMD_SEND_CHANNEL_DATA''"
| "command_name CmdSetDefaultFloodScope = ''CMD_SET_DEFAULT_FLOOD_SCOPE''"
| "command_name CmdGetDefaultFloodScope = ''CMD_GET_DEFAULT_FLOOD_SCOPE''"
| "command_name CmdSendRawPacket = ''CMD_SEND_RAW_PACKET''"
| "command_name CmdRunCliCommand = ''CMD_RUN_CLI_COMMAND''"

section \<open>Responses\<close>

datatype (plugins only: code) response_code =
    RespOk | RespError | RespContactStart | RespContact | RespContactEnd | RespSelfInfo |
    RespMsgSent | RespContactMsgRecv | RespChannelMsgRecv | RespCurrentTime | RespNoMoreMsgs |
    RespContactUri | RespBattery | RespDeviceInfo | RespPrivateKey | RespDisabled |
    RespContactMsgRecvV3 | RespChannelMsgRecvV3 | RespChannelInfo | RespSignStart |
    RespSignature | RespCustomVars | RespAdvertPath | RespTuningParams | RespStats |
    RespAutoaddConfig | RespAllowedRepeatFreq | RespChannelDataRecv | RespDefaultFloodScope |
    RespCliReply | RespAdvertisement | RespPathUpdate | RespAck | RespMessagesWaiting |
    RespRawData | RespLoginSuccess | RespLoginFailed | RespStatusResponse | RespLogData |
    RespTraceData | RespNewAdvert | RespTelemetryResponse | RespBinaryResponse |
    RespPathDiscoveryResponse | RespControlData | RespContactDeleted | RespContactsFull

text \<open>The discriminants (\<open>c as u8\<close>).\<close>

primrec response_as_u8 :: "response_code \<Rightarrow> u8" where
  "response_as_u8 RespOk = 0x00"
| "response_as_u8 RespError = 0x01"
| "response_as_u8 RespContactStart = 0x02"
| "response_as_u8 RespContact = 0x03"
| "response_as_u8 RespContactEnd = 0x04"
| "response_as_u8 RespSelfInfo = 0x05"
| "response_as_u8 RespMsgSent = 0x06"
| "response_as_u8 RespContactMsgRecv = 0x07"
| "response_as_u8 RespChannelMsgRecv = 0x08"
| "response_as_u8 RespCurrentTime = 0x09"
| "response_as_u8 RespNoMoreMsgs = 0x0A"
| "response_as_u8 RespContactUri = 0x0B"
| "response_as_u8 RespBattery = 0x0C"
| "response_as_u8 RespDeviceInfo = 0x0D"
| "response_as_u8 RespPrivateKey = 0x0E"
| "response_as_u8 RespDisabled = 0x0F"
| "response_as_u8 RespContactMsgRecvV3 = 0x10"
| "response_as_u8 RespChannelMsgRecvV3 = 0x11"
| "response_as_u8 RespChannelInfo = 0x12"
| "response_as_u8 RespSignStart = 0x13"
| "response_as_u8 RespSignature = 0x14"
| "response_as_u8 RespCustomVars = 0x15"
| "response_as_u8 RespAdvertPath = 0x16"
| "response_as_u8 RespTuningParams = 0x17"
| "response_as_u8 RespStats = 0x18"
| "response_as_u8 RespAutoaddConfig = 0x19"
| "response_as_u8 RespAllowedRepeatFreq = 0x1A"
| "response_as_u8 RespChannelDataRecv = 0x1B"
| "response_as_u8 RespDefaultFloodScope = 0x1C"
| "response_as_u8 RespCliReply = 0x1D"
| "response_as_u8 RespAdvertisement = 0x80"
| "response_as_u8 RespPathUpdate = 0x81"
| "response_as_u8 RespAck = 0x82"
| "response_as_u8 RespMessagesWaiting = 0x83"
| "response_as_u8 RespRawData = 0x84"
| "response_as_u8 RespLoginSuccess = 0x85"
| "response_as_u8 RespLoginFailed = 0x86"
| "response_as_u8 RespStatusResponse = 0x87"
| "response_as_u8 RespLogData = 0x88"
| "response_as_u8 RespTraceData = 0x89"
| "response_as_u8 RespNewAdvert = 0x8A"
| "response_as_u8 RespTelemetryResponse = 0x8B"
| "response_as_u8 RespBinaryResponse = 0x8C"
| "response_as_u8 RespPathDiscoveryResponse = 0x8D"
| "response_as_u8 RespControlData = 0x8E"
| "response_as_u8 RespContactDeleted = 0x8F"
| "response_as_u8 RespContactsFull = 0x90"

definition response_from_byte_table :: "(u8 \<times> response_code) list" where
  "response_from_byte_table =
     [(0x00, RespOk), (0x01, RespError), (0x02, RespContactStart), (0x03, RespContact),
      (0x04, RespContactEnd), (0x05, RespSelfInfo), (0x06, RespMsgSent),
      (0x07, RespContactMsgRecv), (0x08, RespChannelMsgRecv), (0x09, RespCurrentTime),
      (0x0A, RespNoMoreMsgs), (0x0B, RespContactUri), (0x0C, RespBattery),
      (0x0D, RespDeviceInfo), (0x0E, RespPrivateKey), (0x0F, RespDisabled),
      (0x10, RespContactMsgRecvV3), (0x11, RespChannelMsgRecvV3), (0x12, RespChannelInfo),
      (0x13, RespSignStart), (0x14, RespSignature), (0x15, RespCustomVars),
      (0x16, RespAdvertPath), (0x17, RespTuningParams), (0x18, RespStats),
      (0x19, RespAutoaddConfig), (0x1A, RespAllowedRepeatFreq), (0x1B, RespChannelDataRecv),
      (0x1C, RespDefaultFloodScope), (0x1D, RespCliReply), (0x80, RespAdvertisement),
      (0x81, RespPathUpdate), (0x82, RespAck), (0x83, RespMessagesWaiting),
      (0x84, RespRawData), (0x85, RespLoginSuccess), (0x86, RespLoginFailed),
      (0x87, RespStatusResponse), (0x88, RespLogData), (0x89, RespTraceData),
      (0x8A, RespNewAdvert), (0x8B, RespTelemetryResponse), (0x8C, RespBinaryResponse),
      (0x8D, RespPathDiscoveryResponse), (0x8E, RespControlData), (0x8F, RespContactDeleted),
      (0x90, RespContactsFull)]"

definition response_from_byte :: "u8 \<Rightarrow> response_code option" where
  "response_from_byte b = map_of response_from_byte_table b"

primrec response_name :: "response_code \<Rightarrow> string" where
  "response_name RespOk = ''OK''"
| "response_name RespError = ''ERROR''"
| "response_name RespContactStart = ''CONTACT_START''"
| "response_name RespContact = ''CONTACT''"
| "response_name RespContactEnd = ''CONTACT_END''"
| "response_name RespSelfInfo = ''SELF_INFO''"
| "response_name RespMsgSent = ''MSG_SENT''"
| "response_name RespContactMsgRecv = ''CONTACT_MSG_RECV''"
| "response_name RespChannelMsgRecv = ''CHANNEL_MSG_RECV''"
| "response_name RespCurrentTime = ''CURRENT_TIME''"
| "response_name RespNoMoreMsgs = ''NO_MORE_MSGS''"
| "response_name RespContactUri = ''CONTACT_URI''"
| "response_name RespBattery = ''BATTERY''"
| "response_name RespDeviceInfo = ''DEVICE_INFO''"
| "response_name RespPrivateKey = ''PRIVATE_KEY''"
| "response_name RespDisabled = ''DISABLED''"
| "response_name RespContactMsgRecvV3 = ''CONTACT_MSG_RECV_V3''"
| "response_name RespChannelMsgRecvV3 = ''CHANNEL_MSG_RECV_V3''"
| "response_name RespChannelInfo = ''CHANNEL_INFO''"
| "response_name RespSignStart = ''SIGN_START''"
| "response_name RespSignature = ''SIGNATURE''"
| "response_name RespCustomVars = ''CUSTOM_VARS''"
| "response_name RespAdvertPath = ''ADVERT_PATH''"
| "response_name RespTuningParams = ''TUNING_PARAMS''"
| "response_name RespStats = ''STATS''"
| "response_name RespAutoaddConfig = ''AUTOADD_CONFIG''"
| "response_name RespAllowedRepeatFreq = ''ALLOWED_REPEAT_FREQ''"
| "response_name RespChannelDataRecv = ''CHANNEL_DATA_RECV''"
| "response_name RespDefaultFloodScope = ''DEFAULT_FLOOD_SCOPE''"
| "response_name RespCliReply = ''CLI_REPLY''"
| "response_name RespAdvertisement = ''ADVERTISEMENT''"
| "response_name RespPathUpdate = ''PATH_UPDATE''"
| "response_name RespAck = ''ACK''"
| "response_name RespMessagesWaiting = ''MESSAGES_WAITING''"
| "response_name RespRawData = ''RAW_DATA''"
| "response_name RespLoginSuccess = ''LOGIN_SUCCESS''"
| "response_name RespLoginFailed = ''LOGIN_FAILED''"
| "response_name RespStatusResponse = ''STATUS_RESPONSE''"
| "response_name RespLogData = ''LOG_DATA''"
| "response_name RespTraceData = ''TRACE_DATA''"
| "response_name RespNewAdvert = ''NEW_ADVERT''"
| "response_name RespTelemetryResponse = ''TELEMETRY_RESPONSE''"
| "response_name RespBinaryResponse = ''BINARY_RESPONSE''"
| "response_name RespPathDiscoveryResponse = ''PATH_DISCOVERY_RESPONSE''"
| "response_name RespControlData = ''CONTROL_DATA''"
| "response_name RespContactDeleted = ''CONTACT_DELETED''"
| "response_name RespContactsFull = ''CONTACTS_FULL''"

section \<open>The byte values and the decoding are inverse\<close>

text \<open>
  Both directions follow from the table: its keys are distinct, and it pairs every byte with
  the code whose discriminant it is.
\<close>

lemma command_table_bytes:
  "map (unat \<circ> fst) command_from_byte_table = [1..<0x2C] @ [0x32..<0x35] @ [0x36..<0x43]"
  by (simp add: command_from_byte_table_def upt_conv_Cons)

lemma response_table_bytes:
  "map (unat \<circ> fst) response_from_byte_table = [0..<0x1E] @ [0x80..<0x91]"
  by (simp add: response_from_byte_table_def upt_conv_Cons)

lemma distinct_map_comp: "distinct (map (g \<circ> f) xs) \<Longrightarrow> distinct (map f xs)"
  unfolding map_map [symmetric] by (rule distinct_map [THEN iffD1, THEN conjunct1])

lemma command_table_distinct: "distinct (map fst command_from_byte_table)"
  by (rule distinct_map_comp [where g = unat]) (simp add: command_table_bytes)

lemma response_table_distinct: "distinct (map fst response_from_byte_table)"
  by (rule distinct_map_comp [where g = unat]) (simp add: response_table_bytes)

lemma command_table_as_u8: "list_all (\<lambda>(b, c). command_as_u8 c = b) command_from_byte_table"
  by (simp add: command_from_byte_table_def)

lemma response_table_as_u8: "list_all (\<lambda>(b, c). response_as_u8 c = b) response_from_byte_table"
  by (simp add: response_from_byte_table_def)

lemma command_in_table: "(command_as_u8 c, c) \<in> set command_from_byte_table"
  by (cases c) (simp_all add: command_from_byte_table_def)

lemma response_in_table: "(response_as_u8 c, c) \<in> set response_from_byte_table"
  by (cases c) (simp_all add: response_from_byte_table_def)

lemma command_from_byte_iff: "command_from_byte b = Some c \<longleftrightarrow> b = command_as_u8 c"
  using command_table_as_u8 command_in_table [of c]
  by (auto simp: command_from_byte_def list_all_iff command_table_distinct dest: map_of_SomeD)

lemma response_from_byte_iff: "response_from_byte b = Some c \<longleftrightarrow> b = response_as_u8 c"
  using response_table_as_u8 response_in_table [of c]
  by (auto simp: response_from_byte_def list_all_iff response_table_distinct dest: map_of_SomeD)

lemma fst_set_unat:
  "b \<in> fst ` set t \<longleftrightarrow> unat b \<in> set (map (unat \<circ> fst) (t :: (u8 \<times> 'c) list))"
  by (auto simp: word_unat_eq_iff image_iff Bex_def)

lemma command_from_byte_None:
  "command_from_byte b = None \<longleftrightarrow>
   \<not> (1 \<le> unat b \<and> unat b \<le> 0x2B \<or> 0x32 \<le> unat b \<and> unat b \<le> 0x34 \<or> 0x36 \<le> unat b \<and> unat b \<le> 0x42)"
  unfolding command_from_byte_def map_of_eq_None_iff fst_set_unat command_table_bytes
  by (simp only: set_append set_upt Un_iff atLeastLessThan_iff) arith

lemma response_from_byte_None:
  "response_from_byte b = None \<longleftrightarrow> \<not> (unat b \<le> 0x1D \<or> 0x80 \<le> unat b \<and> unat b \<le> 0x90)"
  unfolding response_from_byte_def map_of_eq_None_iff fst_set_unat response_table_bytes
  by (simp only: set_append set_upt Un_iff atLeastLessThan_iff) arith

section \<open>Properties\<close>

text \<open>C40. Decoding a byte is the inverse of \<open>CommandCode as u8\<close> and of \<open>ResponseCode as u8\<close>, and the
  bytes that decode to nothing are exactly those outside 1-0x2B, 0x32-0x34 and 0x36-0x42 for
  commands, and outside 0-0x1D and the push codes 0x80-0x90 for responses.\<close>

theorem code_bytes:
  "(command_from_byte b = Some c \<longleftrightarrow> b = command_as_u8 c) \<and>
   (command_from_byte b = None \<longleftrightarrow>
     \<not> (1 \<le> unat b \<and> unat b \<le> 0x2B \<or> 0x32 \<le> unat b \<and> unat b \<le> 0x34 \<or> 0x36 \<le> unat b \<and> unat b \<le> 0x42)) \<and>
   (response_from_byte b = Some r \<longleftrightarrow> b = response_as_u8 r) \<and>
   (response_from_byte b = None \<longleftrightarrow> \<not> (unat b \<le> 0x1D \<or> 0x80 \<le> unat b \<and> unat b \<le> 0x90))"
  by (simp only: command_from_byte_iff command_from_byte_None response_from_byte_iff response_from_byte_None
      simp_thms)

end
