(* ===== verification/Utf8.thy ===== *)
theory Utf8
  imports Prelude
begin

text \<open>
  \<open>String::from_utf8_lossy\<close> of the Rust standard library, which the program applies to
  every name and text it takes out of a frame: valid UTF-8 is kept, and each maximal invalid
  prefix (as the \<open>Utf8Chunks\<close> iterator splits it) becomes one U+FFFD.
\<close>

unbundle bit_operations_syntax

definition is_cont :: "u8 \<Rightarrow> bool" where
  "is_cont b = (b AND 192 = 128)"

text \<open>The second byte a three- or four-byte sequence with this first byte may have.\<close>

definition second_ok :: "u8 \<Rightarrow> u8 \<Rightarrow> bool" where
  "second_ok b c =
     (if b = 0xE0 then 0xA0 \<le> c \<and> c \<le> 0xBF
      else if b = 0xED then 0x80 \<le> c \<and> c \<le> 0x9F
      else if b = 0xF0 then 0x90 \<le> c \<and> c \<le> 0xBF
      else if b = 0xF4 then 0x80 \<le> c \<and> c \<le> 0x8F
      else 0x80 \<le> c \<and> c \<le> 0xBF)"

text \<open>\<open>utf8_char_width\<close>: 0 for a byte that starts no sequence.\<close>

definition char_width :: "u8 \<Rightarrow> nat" where
  "char_width b =
     (if b < 0x80 then 1
      else if 0xC2 \<le> b \<and> b \<le> 0xDF then 2
      else if 0xE0 \<le> b \<and> b \<le> 0xEF then 3
      else if 0xF0 \<le> b \<and> b \<le> 0xF4 then 4
      else 0)"

text \<open>
  What the next sequence of a nonempty input is: whether it is a character, and how many
  bytes it takes after the first one.
\<close>

fun next_char :: "u8 \<Rightarrow> frame \<Rightarrow> bool \<times> nat" where
  "next_char b rest =
     (if char_width b = 1 then (True, 0)
      else if char_width b = 2 then
        (case rest of c # _ \<Rightarrow> if is_cont c then (True, 1) else (False, 0) | [] \<Rightarrow> (False, 0))
      else if char_width b = 3 then
        (case rest of
           c # r \<Rightarrow> if second_ok b c
             then (case r of d # _ \<Rightarrow> if is_cont d then (True, 2) else (False, 1) | [] \<Rightarrow> (False, 1))
             else (False, 0)
         | [] \<Rightarrow> (False, 0))
      else if char_width b = 4 then
        (case rest of
           c # r \<Rightarrow> if second_ok b c
             then (case r of
                 d # r' \<Rightarrow> if is_cont d
                   then (case r' of e # _ \<Rightarrow> if is_cont e then (True, 3) else (False, 2)
                         | [] \<Rightarrow> (False, 2))
                   else (False, 1)
               | [] \<Rightarrow> (False, 1))
             else (False, 0)
         | [] \<Rightarrow> (False, 0))
      else (False, 0))"

definition replacement :: frame where
  "replacement = [0xEF, 0xBF, 0xBD]"

function lossy :: "frame \<Rightarrow> frame" where
  "lossy [] = []"
| "lossy (b # rest) =
     (let (ok, n) = next_char b rest
      in (if ok then b # take n rest else replacement) @ lossy (drop n rest))"
  by pat_completeness auto
termination
  by (relation "measure length") auto

definition from_utf8_lossy :: "frame \<Rightarrow> string" where
  "from_utf8_lossy bs = from_bytes (lossy bs)"

text \<open>The byte lists that are valid UTF-8: every sequence is a character.\<close>

function valid_utf8 :: "frame \<Rightarrow> bool" where
  "valid_utf8 [] = True"
| "valid_utf8 (b # rest) =
     (let (ok, n) = next_char b rest in ok \<and> valid_utf8 (drop n rest))"
  by pat_completeness auto
termination
  by (relation "measure length") auto

declare next_char.simps [simp del]

text \<open>A character is decided by its own bytes: what follows does not matter.\<close>

lemma next_char_length: "next_char b rest = (True, n) \<Longrightarrow> n \<le> length rest"
  by (auto simp: next_char.simps split: if_splits list.splits)

lemma next_char_append:
  "next_char b rest = (True, n) \<Longrightarrow> next_char b (take n rest @ more) = (True, n)"
  by (auto simp: next_char.simps split: if_splits list.splits)

lemma next_char_replacement: "next_char 0xEF (0xBF # 0xBD # more) = (True, 2)"
  by (simp add: next_char.simps char_width_def second_ok_def is_cont_def)

lemma lossy_replacement: "lossy (replacement @ more) = replacement @ lossy more"
  by (simp add: replacement_def next_char_replacement)

lemma lossy_char:
  "next_char b rest = (True, n) \<Longrightarrow>
   lossy (b # take n rest @ more) = b # take n rest @ lossy more"
  using next_char_length [of b rest n] next_char_append [of b rest n more] by simp

text \<open>Valid input is returned unchanged, and the output is always valid.\<close>

lemma lossy_valid [simp]: "valid_utf8 bs \<Longrightarrow> lossy bs = bs"
  by (induction bs rule: valid_utf8.induct) (auto split: prod.splits)

lemma valid_utf8_char:
  "next_char b rest = (True, n) \<Longrightarrow>
   valid_utf8 (b # take n rest @ more) = valid_utf8 more"
  using next_char_length [of b rest n] next_char_append [of b rest n more] by simp

lemma valid_utf8_replacement: "valid_utf8 (replacement @ more) = valid_utf8 more"
  by (simp add: replacement_def next_char_replacement)

lemma valid_utf8_lossy [simp]: "valid_utf8 (lossy bs)"
proof (induction bs rule: lossy.induct)
  case (2 b rest)
  obtain ok n where nc: "next_char b rest = (ok, n)" by fastforce
  with 2 have IH: "valid_utf8 (lossy (drop n rest))" by simp
  show ?case
  proof (cases ok)
    case True
    with nc IH show ?thesis by (simp add: valid_utf8_char del: valid_utf8.simps)
  next
    case False
    with nc IH show ?thesis by (simp add: valid_utf8_replacement del: valid_utf8.simps)
  qed
qed simp

lemma lossy_idem: "lossy (lossy bs) = lossy bs"
  by simp

lemma lossy_length: "length (lossy bs) \<le> 3 * length bs"
proof (induction bs rule: lossy.induct)
  case (2 b rest)
  obtain ok n where nc: "next_char b rest = (ok, n)" by fastforce
  with 2 have IH: "length (lossy (drop n rest)) \<le> 3 * (length rest - n)" by simp
  show ?case
  proof (cases ok)
    case True
    with nc IH next_char_length [of b rest n] show ?thesis by simp
  next
    case False
    with nc IH show ?thesis by (simp add: replacement_def)
  qed
qed simp

lemma valid_utf8_ascii: "\<forall>b \<in> set bs. b < 0x80 \<Longrightarrow> valid_utf8 bs"
  by (induction bs) (auto simp: next_char.simps char_width_def)

lemma as_bytes_from_utf8_lossy [simp]: "as_bytes (from_utf8_lossy bs) = lossy bs"
  by (simp add: from_utf8_lossy_def)

lemma from_utf8_lossy_valid: "valid_utf8 bs \<Longrightarrow> from_utf8_lossy bs = from_bytes bs"
  by (simp add: from_utf8_lossy_def)

end
