(* ===== verification/Decode.thy ===== *)
theory Decode
  imports Utf8 Float64
begin

text \<open>
  \<open>src/protocol/decode.rs\<close>: the decoders of command and response payloads and the text
  form of a decoded frame. Every slice and index of the source keeps its bounds check, so a
  decoder returns \<open>None\<close> where the Rust code panics, \<open>Some None\<close> where it returns
  \<open>None\<close>, and \<open>Some (Some m)\<close> for a nonempty map \<open>m\<close>. \<open>hex::encode\<close> is a
  function of the third-party crate \<open>hex\<close>: it is the parameter \<open>hx\<close>, and the only
  thing the decoders rely on is that it writes two characters per byte.
\<close>

unbundle bit_operations_syntax

section \<open>Decoded values\<close>

datatype decoded_value = DString string | DInteger int | DFloat f64 | DBool bool

type_synonym decoded = "(string, decoded_value) hmap"
type_synonym hex_encode = "frame \<Rightarrow> string"

text \<open>A run of \<open>map.insert(key, value)\<close> calls.\<close>

definition insert_all :: "(string \<times> decoded_value) list \<Rightarrow> decoded \<Rightarrow> decoded" where
  "insert_all kvs m = fold (\<lambda>(k, v). hm_insert k v) kvs m"

text \<open>\<open>payload[i] as i64\<close>, and \<open>u32::from_le_bytes(payload[a..b].try_into().unwrap())\<close>
  with its conversions; \<open>try_into\<close> succeeds because the slice has the array's length.\<close>

definition byte_at :: "frame \<Rightarrow> nat \<Rightarrow> int or_panic" where
  "byte_at p i = map_option uint (index p i)"

definition u32_at :: "frame \<Rightarrow> nat \<Rightarrow> int or_panic" where
  "u32_at p a = map_option (\<lambda>b. uint (u32_from_le_bytes b)) (slice p a (a + 4))"

definition i32_at :: "frame \<Rightarrow> nat \<Rightarrow> int or_panic" where
  "i32_at p a = map_option i32_from_le_bytes (slice p a (a + 4))"

definition u16_at :: "frame \<Rightarrow> nat \<Rightarrow> int or_panic" where
  "u16_at p a = map_option (\<lambda>b. uint (u16_from_le_bytes b)) (slice p a (a + 2))"

definition text_from :: "frame \<Rightarrow> nat \<Rightarrow> string or_panic" where
  "text_from p a = map_option from_utf8_lossy (slice_from p a)"

text \<open>\<open>String::from_utf8_lossy(&p[a..b]).trim_end_matches('\0')\<close>.\<close>

definition field_at :: "frame \<Rightarrow> nat \<Rightarrow> nat \<Rightarrow> string or_panic" where
  "field_at p a b = map_option (\<lambda>s. trim_end_nul (from_utf8_lossy s)) (slice p a b)"

definition key_prefix :: "string \<Rightarrow> string or_panic" where
  "key_prefix pk = map_option (\<lambda>s. s @ ''...'') (slice pk 0 12)"

section \<open>Commands\<close>

definition dec_app_start :: "frame \<Rightarrow> decoded or_panic" where
  "dec_app_start p = do {
     v \<leftarrow> byte_at p 1;
     let app = trim_end_nul (from_utf8_lossy (case slice_from p 8 of Some b \<Rightarrow> b | None \<Rightarrow> []));
     Some (insert_all [(''version'', DInteger v), (''app'', DString app)] []) }"

definition dec_send_msg :: "hex_encode \<Rightarrow> frame \<Rightarrow> decoded or_panic" where
  "dec_send_msg hx p = do {
     msg_type \<leftarrow> byte_at p 1;
     attempt \<leftarrow> byte_at p 2;
     timestamp \<leftarrow> u32_at p 3;
     dst \<leftarrow> (if length p > 7 then map_option hx (slice p 7 (min 13 (length p))) else Some []);
     msg \<leftarrow> (if length p > 13 then text_from p 13 else Some []);
     Some (insert_all [(''type'', DInteger msg_type), (''attempt'', DInteger attempt),
       (''timestamp'', DInteger timestamp), (''to'', DString dst), (''text'', DString msg)] []) }"

definition dec_send_chan_msg :: "frame \<Rightarrow> decoded or_panic" where
  "dec_send_chan_msg p = do {
     channel \<leftarrow> byte_at p 2;
     timestamp \<leftarrow> u32_at p 3;
     msg \<leftarrow> (if length p > 7 then text_from p 7 else Some []);
     Some (insert_all [(''channel'', DInteger channel), (''timestamp'', DInteger timestamp),
       (''text'', DString msg)] []) }"

definition dec_u32_field :: "string \<Rightarrow> frame \<Rightarrow> decoded or_panic" where
  "dec_u32_field k p = do { v \<leftarrow> u32_at p 1; Some (insert_all [(k, DInteger v)] []) }"

definition dec_set_name :: "frame \<Rightarrow> decoded or_panic" where
  "dec_set_name p = do {
     data \<leftarrow> slice_from p 1;
     Some (insert_all [(''name'', DString (trim_end_nul (from_utf8_lossy data)))] []) }"

definition dec_set_radio :: "frame \<Rightarrow> decoded or_panic" where
  "dec_set_radio p = do {
     freq \<leftarrow> u32_at p 1;
     bw \<leftarrow> u32_at p 5;
     sf \<leftarrow> byte_at p 9;
     cr \<leftarrow> byte_at p 10;
     Some (insert_all [(''freq_mhz'', DFloat (f64_div freq 1000)),
       (''bw_khz'', DFloat (f64_div bw 1000)), (''sf'', DInteger sf), (''cr'', DInteger cr)] []) }"

definition dec_set_coords :: "frame \<Rightarrow> decoded or_panic" where
  "dec_set_coords p = do {
     lat \<leftarrow> i32_at p 1;
     lon \<leftarrow> i32_at p 5;
     Some (insert_all [(''lat'', DFloat (f64_div lat 1000000)),
       (''lon'', DFloat (f64_div lon 1000000))] []) }"

definition dec_send_login :: "hex_encode \<Rightarrow> frame \<Rightarrow> decoded or_panic" where
  "dec_send_login hx p = do {
     dst \<leftarrow> slice p 1 33;
     pwd \<leftarrow> text_from p 33;
     Some (insert_all [(''to'', DString (hx dst)), (''password'', DString ''***'')] []) }"

definition dec_get_channel :: "frame \<Rightarrow> decoded or_panic" where
  "dec_get_channel p = do {
     i \<leftarrow> byte_at p 1; Some (insert_all [(''channel_idx'', DInteger i)] []) }"

definition dec_set_channel :: "hex_encode \<Rightarrow> frame \<Rightarrow> decoded or_panic" where
  "dec_set_channel hx p = do {
     i \<leftarrow> byte_at p 1;
     name \<leftarrow> field_at p 2 34;
     psk \<leftarrow> slice p 34 50;
     Some (insert_all [(''channel_idx'', DInteger i), (''name'', DString name),
       (''psk'', DString (hx psk))] []) }"

definition dec_get_telemetry :: "hex_encode \<Rightarrow> frame \<Rightarrow> decoded or_panic" where
  "dec_get_telemetry hx p =
     (if length p > 4
      then do { t \<leftarrow> slice p 4 (min 10 (length p));
                Some (insert_all [(''target'', DString (hx t))] []) }
      else Some (insert_all [(''target'', DString ''self'')] []))"

definition dec_path_discovery :: "hex_encode \<Rightarrow> frame \<Rightarrow> decoded or_panic" where
  "dec_path_discovery hx p = do {
     t \<leftarrow> slice p 2 (min 34 (length p)); Some (insert_all [(''target'', DString (hx t))] []) }"

definition dec_path_hash_mode :: "frame \<Rightarrow> decoded or_panic" where
  "dec_path_hash_mode p = do {
     m \<leftarrow> byte_at p 2; Some (insert_all [(''mode'', DInteger m)] []) }"

definition dec_get_stats :: "frame \<Rightarrow> decoded or_panic" where
  "dec_get_stats p = do {
     st \<leftarrow> index p 1;
     let name = (if st = 0 then ''core'' else if st = 1 then ''radio''
                 else if st = 2 then ''packets'' else ''unknown'');
     Some (insert_all [(''stats_type'', DString name)] []) }"

definition decode_command_arms :: "hex_encode \<Rightarrow> u8 \<Rightarrow> frame \<Rightarrow> decoded or_panic" where
  "decode_command_arms hx code p =
     (if code = 0x01 \<and> length p \<ge> 2 then dec_app_start p
      else if code = 0x02 \<and> length p \<ge> 7 then dec_send_msg hx p
      else if code = 0x03 \<and> length p \<ge> 7 then dec_send_chan_msg p
      else if code = 0x04 \<and> length p > 1 then dec_u32_field ''lastmod'' p
      else if code = 0x06 \<and> length p \<ge> 5 then dec_u32_field ''time'' p
      else if code = 0x08 then dec_set_name p
      else if code = 0x0B \<and> length p \<ge> 11 then dec_set_radio p
      else if code = 0x0C \<and> length p \<ge> 5 then dec_u32_field ''tx_power'' p
      else if code = 0x0E \<and> length p \<ge> 9 then dec_set_coords p
      else if code = 0x14 then Some []
      else if code = 0x16 then Some (insert_all [(''query'', DString ''device_info'')] [])
      else if code = 0x1A \<and> length p > 33 then dec_send_login hx p
      else if code = 0x1F \<and> length p > 1 then dec_get_channel p
      else if code = 0x20 \<and> length p > 49 then dec_set_channel hx p
      else if code = 0x25 \<and> length p \<ge> 5 then dec_u32_field ''pin'' p
      else if code = 0x27 then dec_get_telemetry hx p
      else if code = 0x34 \<and> length p > 2 then dec_path_discovery hx p
      else if code = 0x3D \<and> length p \<ge> 3 then dec_path_hash_mode p
      else if code = 0x38 \<and> length p > 1 then dec_get_stats p
      else Some [])"

text \<open>An empty payload or an empty map is \<open>None\<close>.\<close>

definition nonempty_map :: "decoded \<Rightarrow> decoded option" where
  "nonempty_map m = (if m = [] then None else Some m)"

definition decode_command_payload :: "hex_encode \<Rightarrow> u8 \<Rightarrow> frame \<Rightarrow> decoded option or_panic" where
  "decode_command_payload hx code p =
     (if p = [] then Some None else map_option nonempty_map (decode_command_arms hx code p))"

section \<open>Responses\<close>

definition dec_ok :: "frame \<Rightarrow> decoded or_panic" where
  "dec_ok p = do {
     val \<leftarrow> (if length p = 5 then map_option (\<lambda>v. [(''value'', DInteger v)]) (u32_at p 1) else Some []);
     Some (insert_all ((''status'', DString ''OK'') # val) []) }"

definition dec_error :: "frame \<Rightarrow> decoded or_panic" where
  "dec_error p = do {
     ec \<leftarrow> (if length p > 1 then map_option (\<lambda>v. [(''error_code'', DInteger v)]) (byte_at p 1) else Some []);
     Some (insert_all ((''status'', DString ''ERROR'') # ec) []) }"

text \<open>The optional coordinates: a zero coordinate is left out.\<close>

definition coord_entries :: "f64 \<Rightarrow> f64 \<Rightarrow> (string \<times> decoded_value) list" where
  "coord_entries lat lon =
     (if f64_is_zero lat then [] else [(''lat'', DFloat lat)]) @
     (if f64_is_zero lon then [] else [(''lon'', DFloat lon)])"

definition dec_contact :: "hex_encode \<Rightarrow> frame \<Rightarrow> decoded or_panic" where
  "dec_contact hx p = do {
     pk \<leftarrow> map_option hx (slice p 1 33);
     contact_type \<leftarrow> index p 33;
     flags \<leftarrow> index p 34;
     path_len \<leftarrow> byte_at p 35;
     rest \<leftarrow> slice_from p 100;
     name \<leftarrow> slice rest 0 (case position_nul rest of Some n \<Rightarrow> n | None \<Rightarrow> 32);
     last_advert \<leftarrow> u32_at p 132;
     lat \<leftarrow> map_option (\<lambda>i. f64_div i 1000000) (i32_at p 136);
     lon \<leftarrow> map_option (\<lambda>i. f64_div i 1000000) (i32_at p 140);
     let type_name = (if contact_type = 0 then ''node'' else if contact_type = 1 then ''repeater''
                      else if contact_type = 2 then ''room'' else ''unknown'');
     key \<leftarrow> key_prefix pk;
     Some (insert_all ([(''name'', DString (from_utf8_lossy name)), (''public_key'', DString key),
       (''type'', DString type_name), (''path_len'', DInteger path_len),
       (''last_advert'', DInteger last_advert)] @ coord_entries lat lon) []) }"

definition dec_self_info :: "hex_encode \<Rightarrow> frame \<Rightarrow> decoded or_panic" where
  "dec_self_info hx p = do {
     adv_type \<leftarrow> index p 1;
     tx_power \<leftarrow> byte_at p 2;
     max_tx_power \<leftarrow> byte_at p 3;
     pk \<leftarrow> map_option hx (slice p 4 36);
     lat \<leftarrow> map_option (\<lambda>i. f64_div i 1000000) (i32_at p 36);
     lon \<leftarrow> map_option (\<lambda>i. f64_div i 1000000) (i32_at p 40);
     multi_acks \<leftarrow> byte_at p 44;
     adv_loc_policy \<leftarrow> byte_at p 45;
     telemetry_mode \<leftarrow> byte_at p 46;
     manual_add \<leftarrow> byte_at p 47;
     freq \<leftarrow> map_option (\<lambda>i. f64_div i 1000) (u32_at p 48);
     bw \<leftarrow> (if length p \<ge> 56 then map_option (\<lambda>i. f64_div i 1000) (u32_at p 52)
           else Some (F64 0 0));
     let has_sf_cr = length p > 57;
     sf_cr \<leftarrow> (if has_sf_cr
       then do { sf \<leftarrow> byte_at p 56; cr \<leftarrow> byte_at p 57;
                 Some [(''sf'', DInteger sf), (''cr'', DInteger cr)] }
       else Some []);
     let type_name = (if adv_type = 0 then ''node'' else if adv_type = 1 then ''client''
                      else if adv_type = 2 then ''repeater'' else if adv_type = 3 then ''room''
                      else ''unknown'');
     let name_offset = (if has_sf_cr then 58 else 56);
     name \<leftarrow> (if length p > name_offset then map_option trim_end_nul (text_from p name_offset)
             else Some []);
     key \<leftarrow> key_prefix pk;
     Some (insert_all ([(''max_tx_power'', DInteger max_tx_power),
       (''multi_acks'', DInteger multi_acks), (''adv_loc_policy'', DInteger adv_loc_policy),
       (''telemetry_mode'', DInteger telemetry_mode),
       (''manual_add_contacts'', DInteger manual_add)] @ sf_cr @
       [(''name'', DString name), (''type'', DString type_name), (''public_key'', DString key),
        (''tx_power'', DInteger tx_power), (''freq_mhz'', DFloat freq), (''bw_khz'', DFloat bw)] @
       coord_entries lat lon) []) }"

definition dec_msg_sent :: "hex_encode \<Rightarrow> frame \<Rightarrow> decoded or_panic" where
  "dec_msg_sent hx p = do {
     msg_type \<leftarrow> byte_at p 1;
     ack \<leftarrow> slice p 2 6;
     timeout \<leftarrow> u32_at p 6;
     Some (insert_all [(''msg_type'', DInteger msg_type), (''expected_ack'', DString (hx ack)),
       (''timeout_ms'', DInteger timeout)] []) }"

definition contact_txt_type :: "u8 \<Rightarrow> string" where
  "contact_txt_type t = (if t = 0 then ''text'' else if t = 1 then ''command''
     else if t = 2 then ''signed'' else ''unknown'')"

definition channel_txt_type :: "u8 \<Rightarrow> string" where
  "channel_txt_type t = (if t = 0 then ''text'' else if t = 1 then ''command'' else ''unknown'')"

definition dec_contact_msg :: "hex_encode \<Rightarrow> frame \<Rightarrow> decoded or_panic" where
  "dec_contact_msg hx p = do {
     sender \<leftarrow> slice p 1 7;
     path_len \<leftarrow> byte_at p 7;
     txt_type \<leftarrow> index p 8;
     timestamp \<leftarrow> u32_at p 9;
     msg \<leftarrow> text_from p 13;
     Some (insert_all [(''from'', DString (hx sender)), (''path_len'', DInteger path_len),
       (''timestamp'', DInteger timestamp), (''text'', DString msg),
       (''type'', DString (contact_txt_type txt_type))] []) }"

definition dec_channel_msg :: "frame \<Rightarrow> decoded or_panic" where
  "dec_channel_msg p = do {
     channel \<leftarrow> byte_at p 1;
     path_len \<leftarrow> byte_at p 2;
     txt_type \<leftarrow> index p 3;
     timestamp \<leftarrow> u32_at p 4;
     msg \<leftarrow> text_from p 8;
     Some (insert_all [(''channel'', DInteger channel), (''path_len'', DInteger path_len),
       (''timestamp'', DInteger timestamp), (''text'', DString msg),
       (''type'', DString (channel_txt_type txt_type))] []) }"

definition dec_battery :: "frame \<Rightarrow> decoded or_panic" where
  "dec_battery p = do {
     mv \<leftarrow> u16_at p 1;
     storage \<leftarrow> (if length p \<ge> 11
       then do { used \<leftarrow> u32_at p 3; total \<leftarrow> u32_at p 7;
                 Some [(''used_kb'', DInteger used), (''total_kb'', DInteger total)] }
       else Some []);
     Some (insert_all ((''level_mv'', DInteger mv) # storage) []) }"

definition dec_device_info :: "frame \<Rightarrow> decoded or_panic" where
  "dec_device_info p = do {
     fw \<leftarrow> byte_at p 1;
     limits \<leftarrow> (if length p > 3
       then do { contacts \<leftarrow> byte_at p 2; channels \<leftarrow> byte_at p 3;
                 Some [(''max_contacts'', DInteger (contacts * 2)),
                       (''max_channels'', DInteger channels)] }
       else Some []);
     pin \<leftarrow> (if length p \<ge> 8 then map_option (\<lambda>v. [(''ble_pin'', DInteger v)]) (u32_at p 4)
            else Some []);
     build \<leftarrow> (if length p \<ge> 20 then map_option (\<lambda>s. [(''fw_build'', DString s)]) (field_at p 8 20)
              else Some []);
     model \<leftarrow> (if length p \<ge> 60 then map_option (\<lambda>s. [(''model'', DString s)]) (field_at p 20 60)
              else Some []);
     version \<leftarrow> (if length p > 80 then map_option (\<lambda>s. [(''version'', DString s)]) (field_at p 60 80)
                else Some []);
     client_repeat \<leftarrow> (if length p > 81 then map_option (\<lambda>v. [(''client_repeat'', DInteger v)]) (byte_at p 80)
                  else Some []);
     hash_mode \<leftarrow> (if length p > 82 then map_option (\<lambda>v. [(''path_hash_mode'', DInteger v)]) (byte_at p 81)
                  else Some []);
     Some (insert_all ((''fw_version'', DInteger fw) # limits @ pin @ build @ model @ version @
       client_repeat @ hash_mode) []) }"

text \<open>\<open>payload[i] as i8 as f64 / 4.0\<close>.\<close>

definition snr_at :: "frame \<Rightarrow> nat \<Rightarrow> f64 or_panic" where
  "snr_at p i = map_option (\<lambda>b. f64_div (sint b) 4) (index p i)"

definition dec_contact_msg_v3 :: "hex_encode \<Rightarrow> frame \<Rightarrow> decoded or_panic" where
  "dec_contact_msg_v3 hx p = do {
     snr \<leftarrow> snr_at p 1;
     sender \<leftarrow> slice p 4 10;
     path_len \<leftarrow> map_option (\<lambda>b. uint (b AND 0x3f)) (index p 10);
     txt_type \<leftarrow> index p 11;
     timestamp \<leftarrow> u32_at p 12;
     let text_offset = (if txt_type = 2 then 20 else 16);
     msg \<leftarrow> (if length p > text_offset then text_from p text_offset else Some []);
     Some (insert_all [(''from'', DString (hx sender)), (''snr'', DFloat snr),
       (''path_len'', DInteger path_len), (''timestamp'', DInteger timestamp),
       (''text'', DString msg), (''type'', DString (contact_txt_type txt_type))] []) }"

definition dec_channel_msg_v3 :: "frame \<Rightarrow> decoded or_panic" where
  "dec_channel_msg_v3 p = do {
     snr \<leftarrow> snr_at p 1;
     channel \<leftarrow> byte_at p 4;
     path_len \<leftarrow> map_option (\<lambda>b. uint (b AND 0x3f)) (index p 5);
     txt_type \<leftarrow> index p 6;
     timestamp \<leftarrow> u32_at p 7;
     msg \<leftarrow> (if length p > 11 then text_from p 11 else Some []);
     Some (insert_all [(''channel'', DInteger channel), (''snr'', DFloat snr),
       (''path_len'', DInteger path_len), (''timestamp'', DInteger timestamp),
       (''text'', DString msg), (''type'', DString (channel_txt_type txt_type))] []) }"

definition dec_channel_info :: "frame \<Rightarrow> decoded or_panic" where
  "dec_channel_info p = do {
     i \<leftarrow> byte_at p 1;
     field \<leftarrow> slice p 2 34;
     let name_end = (case position_nul field of Some n \<Rightarrow> n | None \<Rightarrow> 32);
     name \<leftarrow> slice p 2 (2 + name_end);
     Some (insert_all [(''channel_idx'', DInteger i), (''name'', DString (from_utf8_lossy name))] []) }"

definition dec_ack :: "hex_encode \<Rightarrow> frame \<Rightarrow> decoded or_panic" where
  "dec_ack hx p =
     (if length p \<ge> 5
      then do { ack \<leftarrow> slice p 1 5; Some (insert_all [(''ack_code'', DString (hx ack))] []) }
      else Some (insert_all [(''ack'', DBool True)] []))"

definition decode_response_arms :: "hex_encode \<Rightarrow> u8 \<Rightarrow> frame \<Rightarrow> decoded or_panic" where
  "decode_response_arms hx code p =
     (if code = 0x00 then dec_ok p
      else if code = 0x01 then dec_error p
      else if code = 0x02 \<and> length p \<ge> 5 then dec_u32_field ''contact_count'' p
      else if code = 0x03 \<and> length p \<ge> 148 then dec_contact hx p
      else if code = 0x04 \<and> length p \<ge> 5 then dec_u32_field ''lastmod'' p
      else if code = 0x05 \<and> length p \<ge> 52 then dec_self_info hx p
      else if code = 0x06 \<and> length p \<ge> 9 then dec_msg_sent hx p
      else if code = 0x07 \<and> length p \<ge> 13 then dec_contact_msg hx p
      else if code = 0x08 \<and> length p \<ge> 9 then dec_channel_msg p
      else if code = 0x09 \<and> length p \<ge> 5 then dec_u32_field ''time'' p
      else if code = 0x0A then Some (insert_all [(''messages_available'', DBool False)] [])
      else if code = 0x0C \<and> length p \<ge> 3 then dec_battery p
      else if code = 0x0D \<and> length p > 1 then dec_device_info p
      else if code = 0x10 \<and> length p \<ge> 13 then dec_contact_msg_v3 hx p
      else if code = 0x11 \<and> length p \<ge> 11 then dec_channel_msg_v3 p
      else if code = 0x12 \<and> length p > 2 then dec_channel_info p
      else if code = 0x82 then dec_ack hx p
      else if code = 0x83 then Some (insert_all [(''messages_waiting'', DBool True)] [])
      else if code = 0x85 then Some (insert_all [(''login'', DString ''success'')] [])
      else if code = 0x86 then Some (insert_all [(''login'', DString ''failed'')] [])
      else Some [])"

definition decode_response_payload :: "hex_encode \<Rightarrow> u8 \<Rightarrow> frame \<Rightarrow> decoded option or_panic" where
  "decode_response_payload hx code p =
     (if p = [] then Some None else map_option nonempty_map (decode_response_arms hx code p))"

section \<open>The text of a decoded frame\<close>

definition value_string :: "decoded_value \<Rightarrow> string" where
  "value_string v =
     (case v of
        DString s \<Rightarrow> s
      | DInteger i \<Rightarrow> int_to_string i
      | DFloat f \<Rightarrow> f64_fixed2 f
      | DBool b \<Rightarrow> if b then ''true'' else ''false'')"

definition format_entry :: "string \<Rightarrow> decoded_value \<Rightarrow> string" where
  "format_entry k v = k @ ''='' @ value_string v"

definition should_skip :: "decoded_value \<Rightarrow> bool" where
  "should_skip v = (case v of DFloat f \<Rightarrow> f64_is_zero f | _ \<Rightarrow> False)"

text \<open>\<open>parts.join(" | ")\<close>.\<close>

fun join_parts :: "string list \<Rightarrow> string" where
  "join_parts [] = []"
| "join_parts [s] = s"
| "join_parts (s # ss) = s @ '' | '' @ join_parts ss"

definition format_decoded :: "decoded \<Rightarrow> string" where
  "format_decoded m =
     (let keys = sort (map fst m);
          name_part = (case hm_get m ''name'' of
             Some v \<Rightarrow> if should_skip v then [] else [format_entry ''name'' v]
           | None \<Rightarrow> []);
          others = concat (map (\<lambda>k. if k = ''name'' then []
             else case hm_get m k of
               Some v \<Rightarrow> if should_skip v then [] else [format_entry k v]
             | None \<Rightarrow> []) keys)
      in join_parts (name_part @ others))"

section \<open>When the decoders panic\<close>

lemma bind_None_iff: "Option.bind m f = None \<longleftrightarrow> m = None \<or> (\<exists>x. m = Some x \<and> f x = None)"
  by (cases m) auto

lemmas field_defs = byte_at_def u32_at_def i32_at_def u16_at_def text_from_def field_at_def
  snr_at_def key_prefix_def

lemmas command_arm_defs = dec_app_start_def dec_send_msg_def dec_send_chan_msg_def
  dec_u32_field_def dec_set_name_def dec_set_radio_def dec_set_coords_def dec_send_login_def
  dec_get_channel_def dec_set_channel_def dec_get_telemetry_def dec_path_discovery_def
  dec_path_hash_mode_def dec_get_stats_def

lemmas panic_simps = field_defs bind_None_iff slice_simps

lemma decode_command_panics_iff:
  "decode_command_payload hx code p = None \<longleftrightarrow> code = 0x04 \<and> 2 \<le> length p \<and> length p < 5"
proof (cases "p = []")
  case False
  then have "0 < length p" by simp
  then show ?thesis
    by (auto simp: decode_command_payload_def decode_command_arms_def command_arm_defs panic_simps)
qed (simp add: decode_command_payload_def)

text \<open>The arms of the response decoder, under the guard of their \<open>match\<close> arm.\<close>

lemma dec_ok_returns: "dec_ok p \<noteq> None"
  by (auto simp: dec_ok_def panic_simps)

lemma dec_error_returns: "dec_error p \<noteq> None"
  by (auto simp: dec_error_def panic_simps)

lemma dec_u32_field_None: "dec_u32_field k p = None \<longleftrightarrow> length p < 5"
  by (auto simp: dec_u32_field_def panic_simps)

lemma dec_self_info_returns:
  assumes "\<And>bs. length (hx bs) = 2 * length bs" and "52 \<le> length p"
  shows "dec_self_info hx p \<noteq> None"
  using assms(2) by (auto simp: dec_self_info_def panic_simps assms(1) Let_def)

lemma dec_contact_returns:
  assumes "\<And>bs. length (hx bs) = 2 * length bs" and "148 \<le> length p"
  shows "dec_contact hx p \<noteq> None"
  using assms(2)
  by (auto simp: dec_contact_def panic_simps assms(1) Let_def split: option.splits
      dest!: position_nul_Some)

lemma dec_msg_sent_None: "dec_msg_sent hx p = None \<longleftrightarrow> length p < 10"
  by (auto simp: dec_msg_sent_def panic_simps)

lemma dec_contact_msg_returns: "13 \<le> length p \<Longrightarrow> dec_contact_msg hx p \<noteq> None"
  by (auto simp: dec_contact_msg_def panic_simps)

lemma dec_channel_msg_returns: "9 \<le> length p \<Longrightarrow> dec_channel_msg p \<noteq> None"
  by (auto simp: dec_channel_msg_def panic_simps)

lemma dec_battery_returns: "3 \<le> length p \<Longrightarrow> dec_battery p \<noteq> None"
  by (auto simp: dec_battery_def panic_simps)

lemma dec_device_info_returns: "2 \<le> length p \<Longrightarrow> dec_device_info p \<noteq> None"
  by (auto simp: dec_device_info_def panic_simps)

lemma dec_contact_msg_v3_None: "dec_contact_msg_v3 hx p = None \<longleftrightarrow> length p < 16"
  by (auto simp: dec_contact_msg_v3_def panic_simps Let_def)

lemma dec_channel_msg_v3_returns: "11 \<le> length p \<Longrightarrow> dec_channel_msg_v3 p \<noteq> None"
  by (auto simp: dec_channel_msg_v3_def panic_simps Let_def)

lemma dec_channel_info_None: "dec_channel_info p = None \<longleftrightarrow> length p < 34"
proof (cases "length p < 34")
  case False
  let ?f = "take 32 (drop 2 p)"
  have s: "slice p 2 34 = Some ?f" using False by (simp add: slice_simps)
  have "(case position_nul ?f of Some n \<Rightarrow> n | None \<Rightarrow> 32) \<le> 32"
    by (auto split: option.split dest!: position_nul_Some)
  with False s show ?thesis by (simp add: dec_channel_info_def panic_simps Let_def)
qed (auto simp: dec_channel_info_def panic_simps)

lemma dec_ack_returns: "dec_ack hx p \<noteq> None"
  by (auto simp: dec_ack_def panic_simps)

lemma if_returns:
  "(c \<Longrightarrow> a \<noteq> None) \<Longrightarrow> (\<not> c \<Longrightarrow> b \<noteq> None) \<Longrightarrow> (if c then a else b) \<noteq> None"
  by simp

lemma decode_response_arms_returns:
  assumes hx: "\<And>bs. length (hx bs) = 2 * length bs"
    and "code \<noteq> 0x06" "code \<noteq> 0x10" "code \<noteq> 0x12"
  shows "decode_response_arms hx code p \<noteq> None"
  unfolding decode_response_arms_def
  using assms(2-4)
  by (intro if_returns dec_ok_returns dec_error_returns dec_self_info_returns [OF hx]
      dec_contact_returns [OF hx] dec_contact_msg_returns dec_channel_msg_returns
      dec_battery_returns dec_device_info_returns dec_channel_msg_v3_returns dec_ack_returns)
    (simp_all add: dec_u32_field_None)

lemma decode_response_panics_iff:
  assumes "\<And>bs. length (hx bs) = 2 * length bs"
  shows "decode_response_payload hx code p = None \<longleftrightarrow>
    code = 0x06 \<and> length p = 9 \<or>
    code = 0x10 \<and> 13 \<le> length p \<and> length p < 16 \<or>
    code = 0x12 \<and> 3 \<le> length p \<and> length p < 34"
proof (cases "p = [] \<or> code \<noteq> 0x06 \<and> code \<noteq> 0x10 \<and> code \<noteq> 0x12")
  case True
  then show ?thesis
    using decode_response_arms_returns [OF assms, of code p]
    by (auto simp: decode_response_payload_def)
next
  case False
  then consider "code = 0x06" | "code = 0x10" | "code = 0x12" by blast
  then show ?thesis
    using False
    by cases (auto simp: decode_response_payload_def decode_response_arms_def dec_msg_sent_None
        dec_contact_msg_v3_None dec_channel_info_None)
qed

section \<open>Properties\<close>

text \<open>Decoding a command for the log panics exactly on GET_CONTACTS with a payload of two
  to four bytes; every other command, of any length, is decoded or left alone.\<close>

theorem decode_command_panics:
  "decode_command_payload hx code p = None \<longleftrightarrow> code = 0x04 \<and> 2 \<le> length p \<and> length p < 5"
  by (rule decode_command_panics_iff)

text \<open>Decoding a response panics exactly on a SENT frame of nine bytes, a version 3 contact
  message of 13 to 15 bytes and a CHANNEL_INFO of 3 to 33 bytes.\<close>

theorem decode_response_panics:
  assumes "\<And>bs. length (hx bs) = 2 * length bs"
  shows "decode_response_payload hx code p = None \<longleftrightarrow>
    code = 0x06 \<and> length p = 9 \<or>
    code = 0x10 \<and> 13 \<le> length p \<and> length p < 16 \<or>
    code = 0x12 \<and> 3 \<le> length p \<and> length p < 34"
  by (rule decode_response_panics_iff [OF assms])

text \<open>An encoder with the documented length, for the witness.\<close>

definition two_chars :: hex_encode where
  "two_chars bs = concat (map (\<lambda>b. [CHR ''0'', CHR ''0'']) bs)"

lemma length_two_chars: "length (two_chars bs) = 2 * length bs"
  by (induction bs) (auto simp: two_chars_def)

theorem decode_response_panics_witness:
  "decode_response_payload two_chars 0x06 [6, 0, 1, 2, 3, 4, 5, 6, 7] = None"
  using decode_response_panics [OF length_two_chars, of "0x06" "[6, 0, 1, 2, 3, 4, 5, 6, 7]"] by simp

end
