(* ===== verification/Reply.thy ===== *)
theory Reply
  imports Prelude Types
begin

text \<open>
  The pure protocol rules of \<open>src/core.rs\<close>: which frames are push events, what shape the
  reply to a command has (\<open>Awaiting\<close>), how a message frame is converted to the layout a
  client negotiated, and the text of a channel message on the air.
\<close>

section \<open>Push events and expected replies\<close>

definition is_push_event :: "u8 \<Rightarrow> bool" where
  "is_push_event code \<longleftrightarrow> code \<ge> 0x80"

datatype awaiting = AnyReply | OneOf "u8 list" | Stream "u8 list" u8

text \<open>Whether a frame with this code belongs to the reply, and whether it completes it.\<close>

fun classify :: "awaiting \<Rightarrow> u8 \<Rightarrow> bool \<times> bool" where
  "classify AnyReply code = (\<not> is_push_event code, True)"
| "classify (OneOf codes) code = (code = 0x01 \<or> code \<in> set codes, True)"
| "classify (Stream frame_codes terminator_code) code =
     (let ends = code = terminator_code \<or> code = 0x01
      in (ends \<or> code \<in> set frame_codes, ends))"

text \<open>The \<open>match\<close> of \<open>awaiting_for\<close> on the first byte, for a nonempty payload.\<close>

definition awaiting_of :: "u8 \<Rightarrow> frame \<Rightarrow> awaiting" where
  "awaiting_of code payload =
     (if code = 0x04 then Stream [0x02, 0x03] 0x04
      else if code = 0x01 then OneOf [0x05]
      else if code \<in> {0x02, 0x1A, 0x1B, 0x24, 0x32, 0x34, 0x39} then OneOf [0x06]
      else if code = 0x27 \<and> length payload = 4 then OneOf [0x8B]
      else if code = 0x27 then OneOf [0x06]
      else if code = 0x05 then OneOf [0x09]
      else if code = 0x0A then OneOf [0x07, 0x08, 0x10, 0x11, 0x1B, 0x0A]
      else if code = 0x11 then OneOf [0x0B]
      else if code = 0x14 then OneOf [0x0C]
      else if code = 0x16 then OneOf [0x0D]
      else if code = 0x17 then OneOf [0x0E, 0x0F]
      else if code = 0x18 then OneOf [0x00, 0x0F]
      else if code = 0x1E then OneOf [0x03]
      else if code = 0x1F then OneOf [0x12]
      else if code = 0x21 then OneOf [0x13]
      else if code = 0x23 then OneOf [0x14]
      else if code = 0x28 then OneOf [0x15]
      else if code = 0x2A then OneOf [0x16]
      else if code = 0x2B then OneOf [0x17]
      else if code = 0x38 then OneOf [0x18]
      else if code = 0x3B then OneOf [0x19]
      else if code = 0x3C then OneOf [0x1A]
      else if code = 0x40 then OneOf [0x1C]
      else if code = 0x42 then OneOf [0x1D]
      else if code \<in> {0x03, 0x06, 0x07, 0x08, 0x09, 0x0B, 0x0C, 0x0D, 0x0E, 0x0F, 0x10, 0x12,
                      0x15, 0x19, 0x1C, 0x1D, 0x20, 0x22, 0x25, 0x26, 0x29, 0x33, 0x36, 0x37,
                      0x3A, 0x3D, 0x3E, 0x3F, 0x41} then OneOf [0x00]
      else AnyReply)"

definition awaiting_for :: "frame \<Rightarrow> awaiting or_panic" where
  "awaiting_for payload = map_option (\<lambda>code. awaiting_of code payload) (index payload 0)"

section \<open>Message frames in the layout of a protocol version\<close>

text \<open>
  \<open>frame.first()\<close> selects the arm; a v3 frame of less than four bytes is left alone.
\<close>

definition message_frame_for :: "u8 \<Rightarrow> frame \<Rightarrow> frame" where
  "message_frame_for version frame =
     (case frame of
        [] \<Rightarrow> frame
      | code # rest \<Rightarrow>
          if (code = 0x10 \<or> code = 0x11) \<and> \<not> version \<ge> 3 \<and> length frame \<ge> 4
          then [code - 0x09] @ drop 4 frame
          else if (code = 0x07 \<or> code = 0x08) \<and> version \<ge> 3
          then [code + 0x09, 0, 0, 0] @ rest
          else frame)"

section \<open>Channel text on the air\<close>

definition MAX_TEXT_LEN :: nat where
  "MAX_TEXT_LEN = 160"

text \<open>\<open>"{name}: "\<close>, then as much of the text as \<open>MAX_TEXT_LEN\<close> leaves room for.\<close>

definition channel_text_on_air :: "string option \<Rightarrow> frame \<Rightarrow> frame" where
  "channel_text_on_air node_name txt =
     (let out = (case node_name of None \<Rightarrow> [] | Some name \<Rightarrow> as_bytes (name @ '': ''));
          room = MAX_TEXT_LEN - length out
      in out @ take (min (length txt) room) txt)"

section \<open>Facts about replies\<close>

lemma awaiting_for_Cons [simp]: "awaiting_for (c # p) = Some (awaiting_of c (c # p))"
  by (simp add: awaiting_for_def)

lemma awaiting_for_None: "awaiting_for p = None \<longleftrightarrow> p = []"
  by (cases p) (auto simp: awaiting_for_def index_def)

lemma not_push_numerals [simp]: "\<not> is_push_event 0" "\<not> is_push_event 1"
  by (simp_all add: is_push_event_def word_le_nat_alt)

text \<open>
  The shapes \<open>awaiting_for\<close> can give. \<open>plain_codes\<close> holds the reply codes below the
  push range that commands other than the self telemetry request are pinned to.
\<close>

lemma awaiting_of_stream:
  "awaiting_of c p = Stream fc t \<longleftrightarrow> c = 0x04 \<and> fc = [0x02, 0x03] \<and> t = 0x04"
  by (auto simp: awaiting_of_def)

lemma awaiting_of_push:
  "awaiting_of c p = OneOf codes \<Longrightarrow> k \<in> set codes \<Longrightarrow> is_push_event k \<Longrightarrow>
   c = 0x27 \<and> length p = 4 \<and> k = 0x8B"
  by (auto simp: awaiting_of_def is_push_event_def split: if_splits)

lemma classify_error: "classify (awaiting_of c p) 0x01 = (True, True)"
  by (cases "awaiting_of c p") auto

lemma classify_push:
  assumes "is_push_event k"
  shows "fst (classify (awaiting_of c p) k) \<longleftrightarrow> c = 0x27 \<and> length p = 4 \<and> k = 0x8B"
proof (cases "awaiting_of c p")
  case AnyReply
  with assms show ?thesis by (auto simp: awaiting_of_def)
next
  case (OneOf codes)
  with assms awaiting_of_push [OF this] show ?thesis
    by (auto simp: awaiting_of_def)
next
  case (Stream fc t)
  then have "c = 0x04" "fc = [0x02, 0x03]" "t = 0x04" by (simp_all add: awaiting_of_stream)
  with assms Stream show ?thesis by (auto simp: is_push_event_def word_le_nat_alt)
qed

text \<open>The fallback \<open>AnyReply\<close> is left to codes no command has, and to REBOOT.\<close>

lemma awaiting_any: "awaiting_of c p = AnyReply \<longleftrightarrow> command_from_byte c = None \<or> c = 0x13"
proof -
  have known: "command_from_byte c = None \<longleftrightarrow> c \<notin> fst ` set command_from_byte_table"
    by (simp only: command_from_byte_def map_of_eq_None_iff)
  show ?thesis
    unfolding known command_from_byte_table_def by (auto simp: awaiting_of_def)
qed

section \<open>Facts about frames and texts\<close>

lemma message_frame_for_upgrade_back:
  "c = 0x07 \<or> c = 0x08 \<Longrightarrow> v < 3 \<Longrightarrow> message_frame_for v (message_frame_for 3 (c # p)) = c # p"
  by (auto simp: message_frame_for_def)

lemma message_frame_for_idem: "message_frame_for v (message_frame_for v f) = message_frame_for v f"
  by (auto simp: message_frame_for_def split: list.splits)

lemma message_frame_for_push: "is_push_event c \<Longrightarrow> message_frame_for v (c # p) = c # p"
  by (auto simp: message_frame_for_def is_push_event_def)

lemma message_frame_for_other:
  "c \<notin> {0x07, 0x08, 0x10, 0x11} \<Longrightarrow> message_frame_for v (c # p) = c # p"
  by (auto simp: message_frame_for_def)

lemma message_frame_for_Nil_iff [simp]: "message_frame_for v f = [] \<longleftrightarrow> f = []"
  by (auto simp: message_frame_for_def split: list.splits)

lemma length_channel_text_on_air:
  "length (channel_text_on_air name txt) =
   (let prefix = (case name of None \<Rightarrow> 0 | Some n \<Rightarrow> length n + 2)
    in max prefix (min MAX_TEXT_LEN (prefix + length txt)))"
  by (auto simp: channel_text_on_air_def MAX_TEXT_LEN_def Let_def split: option.splits)

section \<open>Properties\<close>

text \<open>What ends a request: an ERROR ends every request; a frame of the push range never
  belongs to one, except TELEMETRY_RESPONSE to a telemetry request about the node itself; and
  any other frame is taken as the reply only for REBOOT and for commands the protocol does not
  list.\<close>

theorem awaiting_spec:
  "awaiting_for (c # p) = Some aw \<Longrightarrow>
   classify aw 0x01 = (True, True) \<and>
   (\<forall>k. is_push_event k \<longrightarrow>
     (fst (classify aw k) \<longleftrightarrow> c = 0x27 \<and> length (c # p) = 4 \<and> k = 0x8B)) \<and>
   (aw = AnyReply \<longleftrightarrow> command_from_byte c = None \<or> c = 0x13)"
  using classify_error classify_push awaiting_any by auto

theorem awaiting_spec_witness:
  "classify (OneOf [0x12]) 0x01 = (True, True)"
  using awaiting_spec [of "0x1F" "[0]" "OneOf [0x12]"] by (simp add: awaiting_of_def)

text \<open>The layout of message frames: a client below version 3 never gets a version 3 message
  (of four bytes or more), a client from version 3 on never gets a version 1 message, and a
  version 1 message comes back unchanged from the version 3 layout. Converting twice changes
  nothing more, and only the four message codes are ever touched.\<close>

theorem message_frame_layout:
  "(v < 3 \<longrightarrow> length f \<ge> 4 \<longrightarrow> hd (message_frame_for v f) \<notin> {0x10, 0x11}) \<and>
   (v \<ge> 3 \<longrightarrow> f \<noteq> [] \<longrightarrow> hd (message_frame_for v f) \<notin> {0x07, 0x08}) \<and>
   (v < 3 \<longrightarrow> c \<in> {0x07, 0x08} \<longrightarrow> message_frame_for v (message_frame_for 3 (c # p)) = c # p) \<and>
   message_frame_for v (message_frame_for v f) = message_frame_for v f \<and>
   (c \<notin> {0x07, 0x08, 0x10, 0x11} \<longrightarrow> message_frame_for v (c # p) = c # p)"
  using message_frame_for_upgrade_back [of c v p] message_frame_for_idem [of v f]
    message_frame_for_other [of c v p]
  by (auto simp: message_frame_for_def split: list.splits)

theorem message_frame_layout_witness:
  "message_frame_for 0 (message_frame_for 3 [0x08, 1, 2]) = [0x08, 1, 2]"
  using message_frame_layout [of 0 "[]" "0x08" "[1, 2]"] by simp

end
