(* ===== verification/Config.thy ===== *)
theory Config
  imports Store
begin

text \<open>
  The configuration: \<open>CoreConfig\<close> of \<open>src/core.rs\<close>, the parsed command line of
  \<open>src/cli.rs\<close> with its defaults and its translation to a configuration, and the subscriber that
  \<open>src/logging.rs\<close> sets up. Parsing the arguments is left to the crate \<open>clap\<close>, what a subscriber
  does with events to \<open>tracing\<close>.
\<close>

datatype backend_type = Serial | Ble | Tcp

datatype log_level = LogOff | LogSummary | LogVerbose

record core_config =
  backend_type :: backend_type
  serial_port :: "string option"
  serial_baud :: u32
  ble_address :: "string option"
  ble_pin :: string
  tcp_backend_host :: "string option"
  tcp_backend_port :: u16
  tcp_frontend_host :: string
  tcp_frontend_ports :: "u16 list"
  data_dir :: string
  event_log_level :: log_level
  event_log_json :: bool
  record_radio_rx :: bool
  retention :: retention
  new_client_backlog :: backlog

record cli =
  cli_serial :: "string option"
  cli_baud :: u32
  cli_ble :: "string option"
  cli_ble_pin :: string
  cli_tcp_backend_host :: "string option"
  cli_tcp_backend_port :: u16
  cli_tcp_frontend_host :: string
  cli_tcp_frontend_port :: "u16 list"
  cli_data_dir :: string
  cli_log_level :: string
  cli_json :: bool
  cli_record_radio_rx :: bool
  cli_messages_retention_days :: u32
  cli_raw_rx_retention_days :: u32
  cli_contacts_retention_days :: u32
  cli_clients_retention_days :: u32
  cli_new_client_backlog :: backlog

text \<open>What is left of the options when neither the command line nor the environment gives any.\<close>

definition cli_defaults :: cli where
  "cli_defaults = \<lparr>cli_serial = None, cli_baud = 115200, cli_ble = None, cli_ble_pin = ''123456'',
     cli_tcp_backend_host = None, cli_tcp_backend_port = 5000, cli_tcp_frontend_host = ''0.0.0.0'',
     cli_tcp_frontend_port = [5000], cli_data_dir = ''./data'', cli_log_level = ''info'', cli_json = False,
     cli_record_radio_rx = False, cli_messages_retention_days = 0, cli_raw_rx_retention_days = 7,
     cli_contacts_retention_days = 0, cli_clients_retention_days = 180, cli_new_client_backlog = Off\<rparr>"

definition cli_backend_type :: "cli \<Rightarrow> backend_type" where
  "cli_backend_type c =
     (if cli_serial c \<noteq> None then Serial
      else if cli_ble c \<noteq> None then Ble
      else if cli_tcp_backend_host c \<noteq> None then Tcp
      else Serial)"

definition cli_event_log_level :: "string \<Rightarrow> log_level" where
  "cli_event_log_level level =
     (if level = ''off'' then LogOff else if level = ''verbose'' then LogVerbose else LogSummary)"

definition into_config :: "cli \<Rightarrow> core_config" where
  "into_config c =
     \<lparr>backend_type = cli_backend_type c,
      serial_port = cli_serial c,
      serial_baud = cli_baud c,
      ble_address = cli_ble c,
      ble_pin = cli_ble_pin c,
      tcp_backend_host = cli_tcp_backend_host c,
      tcp_backend_port = cli_tcp_backend_port c,
      tcp_frontend_host = cli_tcp_frontend_host c,
      tcp_frontend_ports = cli_tcp_frontend_port c,
      data_dir = cli_data_dir c,
      event_log_level = cli_event_log_level (cli_log_level c),
      event_log_json = cli_json c,
      record_radio_rx = cli_record_radio_rx c,
      retention = \<lparr>messages_days = unat (cli_messages_retention_days c),
        raw_rx_days = unat (cli_raw_rx_retention_days c),
        contacts_days = unat (cli_contacts_retention_days c),
        clients_days = unat (cli_clients_retention_days c)\<rparr>,
      new_client_backlog = cli_new_client_backlog c\<rparr>"

text \<open>The level \<open>logging::init\<close> filters the crate's events at, when the environment sets none.\<close>

definition filter_level :: "string \<Rightarrow> string" where
  "filter_level log_level =
     (if log_level = ''off'' \<or> log_level = ''error'' then ''error''
      else if log_level = ''warn'' then ''warn''
      else if log_level = ''info'' then ''info''
      else if log_level = ''debug'' \<or> log_level = ''verbose'' then ''debug''
      else ''info'')"

text \<open>\<open>logging::init\<close>: the filter is what the environment sets, if it can be parsed, and else the
  crate's own level; the layer that prints the events is one of two.\<close>

record subscriber =
  filter_directives :: string
  json_format :: bool
  compact_format :: bool
  with_target :: bool
  with_level :: bool

definition logging_init :: "string option \<Rightarrow> string \<Rightarrow> bool \<Rightarrow> subscriber" where
  "logging_init env_filter log_level json =
     \<lparr>filter_directives = (case env_filter of Some f \<Rightarrow> f | None \<Rightarrow> ''coresplitter='' @ filter_level log_level),
      json_format = json, compact_format = \<not> json, with_target = json, with_level = True\<rparr>"

end
