(* ===== verification/Core_State.thy ===== *)
theory Core_State
  imports Decode Store Reply Config
begin

text \<open>
  The state of the \<open>Core\<close> actor of \<open>src/core.rs\<close> and the operations its handlers are
  made of: sending to the radio and to clients, the cached answers, the echo of a sent message,
  and the identity bookkeeping. A handler runs to completion before the next event is taken, so
  it is a function of the state; what it sends is appended to the queues in the state. The
  clock, the monotonic instant, the outcome of database statements and \<open>hex::encode\<close> come
  from the environment of the event.
\<close>

section \<open>State\<close>

datatype client_id = ClientId u64

text \<open>The other end of a channel: it may have been dropped, and then sending fails.\<close>

datatype channel_end = Open | Closed

record in_flight_request =
  flight_client :: "client_id option"
  flight_payload :: frame
  last_activity :: nat
  sent_unix :: int
  awaiting_reply :: awaiting
  flight_origin :: "identity option"

record session =
  session_port :: u16
  session_app :: string
  session_pending :: "int list"

record queued =
  queued_client :: "client_id option"
  queued_payload :: frame

record client_command =
  command_client :: client_id
  command_port :: u16
  command_payload :: frame

text \<open>
  \<open>client_channels\<close> holds, for every connected client, the frames put on its direct channel;
  \<open>radio_out\<close> the commands put on the radio's channel and \<open>broadcast_out\<close> the frames
  sent on the broadcast channel.
\<close>

record core =
  conf :: core_config
  db :: node_state
  self_info_raw :: "frame option"
  device_info_raw :: "frame option"
  battery_info_raw :: "frame option"
  radio_pubkey :: "frame option"
  radio_name :: "string option"
  max_channels :: u8
  radio_send_tx :: "channel_end option"
  radio_out :: "frame list"
  client_channels :: "(client_id, frame list) hmap"
  broadcast_out :: "frame list"
  radio_up :: bool
  in_flight :: "in_flight_request option"
  pending_queue :: "queued list"
  pending_acks :: "(frame, client_id \<times> nat) hmap"
  sessions :: "(client_id, session) hmap"
  protocol_versions :: "(client_id, u8) hmap"

record env = db_env +
  instant_now :: nat
  hex :: hex_encode
  warn_enabled :: bool
  ble_compiled :: bool

definition RADIO_PROTOCOL_VERSION :: u8 where
  "RADIO_PROTOCOL_VERSION = 3"

definition CONTACT_FRAME_LEN :: nat where
  "CONTACT_FRAME_LEN = 148"

text \<open>Durations in milliseconds, as differences of \<open>instant_now\<close>.\<close>

definition IN_FLIGHT_TIMEOUT :: nat where
  "IN_FLIGHT_TIMEOUT = 5000"

definition PENDING_ACK_TTL :: nat where
  "PENDING_ACK_TTL = 300000"

definition new_core :: "core_config \<Rightarrow> node_state \<Rightarrow> core" where
  "new_core cfg s =
     \<lparr>conf = cfg, db = migrate s, self_info_raw = None, device_info_raw = None,
      battery_info_raw = None, radio_pubkey = None, radio_name = None, max_channels = 40,
      radio_send_tx = None, radio_out = [], client_channels = [], broadcast_out = [],
      radio_up = False, in_flight = None, pending_queue = [], pending_acks = [], sessions = [],
      protocol_versions = []\<rparr>"

text \<open>A database write whose failure is only logged.\<close>

definition write_db :: "node_state db_result \<Rightarrow> core \<Rightarrow> core" where
  "write_db r s = (case r of Inl e \<Rightarrow> s | Inr d \<Rightarrow> s\<lparr>db := d\<rparr>)"

section \<open>Sending\<close>

definition client_is_alive :: "core \<Rightarrow> client_id \<Rightarrow> bool" where
  "client_is_alive s cid = hm_contains (client_channels s) cid"

definition protocol_version :: "core \<Rightarrow> client_id \<Rightarrow> u8" where
  "protocol_version s cid =
     (case hm_get (protocol_versions s) cid of Some v \<Rightarrow> v | None \<Rightarrow> 0)"

definition send_to_client :: "client_id \<Rightarrow> frame \<Rightarrow> core \<Rightarrow> core" where
  "send_to_client cid payload s =
     (case hm_get (client_channels s) cid of
        None \<Rightarrow> s
      | Some q \<Rightarrow> s\<lparr>client_channels :=
          hm_insert cid (q @ [message_frame_for (protocol_version s cid) payload]) (client_channels s)\<rparr>)"

definition broadcast_to_others :: "client_id option \<Rightarrow> frame \<Rightarrow> core \<Rightarrow> core" where
  "broadcast_to_others exclude payload s =
     s\<lparr>client_channels := map (\<lambda>(cid, q).
         (cid, if exclude = Some cid then q
               else q @ [message_frame_for (protocol_version s cid) payload])) (client_channels s)\<rparr>"

definition send_opt :: "client_id option \<Rightarrow> frame \<Rightarrow> core \<Rightarrow> core" where
  "send_opt c payload s = (case c of None \<Rightarrow> s | Some cid \<Rightarrow> send_to_client cid payload s)"

text \<open>The ERROR frame the proxy answers with itself.\<close>

definition error_frame :: frame where
  "error_frame = [0x01, 0x01]"

datatype radio_error = NotConnected | SendFailed

definition send_to_radio :: "frame \<Rightarrow> core \<Rightarrow> radio_error + core" where
  "send_to_radio payload s =
     (case radio_send_tx s of
        None \<Rightarrow> Inl NotConnected
      | Some Closed \<Rightarrow> Inl SendFailed
      | Some Open \<Rightarrow> Inr (s\<lparr>radio_out := radio_out s @ [payload]\<rparr>))"

section \<open>Client identities and stored messages\<close>

definition identity_of :: "core \<Rightarrow> client_id \<Rightarrow> identity option" where
  "identity_of s cid =
     map_option (\<lambda>x. (session_port x, session_app x)) (hm_get (sessions s) cid)"

definition notify_missed :: "client_id \<Rightarrow> core \<Rightarrow> core" where
  "notify_missed cid s =
     (case hm_get (sessions s) cid of
        None \<Rightarrow> s
      | Some x \<Rightarrow> if session_pending x \<noteq> [] then send_to_client cid [0x83] s else s)"

text \<open>
  \<open>follow_head\<close> forgets the sessions and versions of disconnected clients, then moves the
  cursor of every identity that has a caught-up session, once each, in sorted order.
\<close>

definition caught_up_identities :: "core \<Rightarrow> identity list" where
  "caught_up_identities s =
     remdups_adj (sort (map (\<lambda>x. (session_port x, session_app x))
       (filter (\<lambda>x. session_pending x = []) (map snd (sessions s)))))"

definition drop_disconnected :: "core \<Rightarrow> core" where
  "drop_disconnected s =
     s\<lparr>sessions := hm_retain (\<lambda>cid x. client_is_alive s cid) (sessions s),
       protocol_versions := hm_retain (\<lambda>cid v. client_is_alive s cid) (protocol_versions s)\<rparr>"

definition advance_identity :: "env \<Rightarrow> int \<Rightarrow> identity \<Rightarrow> core \<Rightarrow> core" where
  "advance_identity env i who s = write_db (advance_client_cursor env who i (db s)) s"

definition follow_head :: "env \<Rightarrow> int \<Rightarrow> core \<Rightarrow> core" where
  "follow_head env i s =
     (let s1 = drop_disconnected s in fold (advance_identity env i) (caught_up_identities s1) s1)"

text \<open>A failed insert is only logged by the callers.\<close>

definition store_message :: "env \<Rightarrow> new_message \<Rightarrow> core \<Rightarrow> core" where
  "store_message env m s =
     (case insert_message env m (db s) of
        Inl e \<Rightarrow> s
      | Inr (i, d) \<Rightarrow> follow_head env i (s\<lparr>db := d\<rparr>))"

text \<open>
  \<open>register_session\<close>: the app name is what follows offset 8 of APP_START; a known client
  gets the messages after its cursor, a new one the configured backlog.
\<close>

definition app_name_of :: "frame \<Rightarrow> string" where
  "app_name_of payload =
     (case slice_from payload 8 of None \<Rightarrow> [] | Some b \<Rightarrow> trim_end_nul (from_utf8_lossy b))"

definition missed_ids :: "env \<Rightarrow> identity \<Rightarrow> core \<Rightarrow> int list db_result" where
  "missed_ids env who s =
     (case client_cursor env who (db s) of
        Inl e \<Rightarrow> Inl e
      | Inr (Some c) \<Rightarrow> message_ids_after env c who (db s)
      | Inr None \<Rightarrow> backlog_message_ids env (new_client_backlog (conf s)) who (db s))"

definition start_cursor :: "env \<Rightarrow> int list \<Rightarrow> core \<Rightarrow> int" where
  "start_cursor env pending s =
     (case pending of
        [] \<Rightarrow> (case message_head env (db s) of Inl e \<Rightarrow> 0 | Inr h \<Rightarrow> h)
      | first # _ \<Rightarrow> first - 1)"

definition register_session :: "env \<Rightarrow> client_command \<Rightarrow> core \<Rightarrow> core" where
  "register_session env cmd s =
     (let app = app_name_of (command_payload cmd);
          who = (command_port cmd, app);
          pending = (case missed_ids env who s of Inl e \<Rightarrow> [] | Inr ids \<Rightarrow> ids);
          s1 = write_db (advance_client_cursor env who (start_cursor env pending s) (db s)) s
      in s1\<lparr>sessions := hm_insert (command_client cmd)
              \<lparr>session_port = command_port cmd, session_app = app, session_pending = pending\<rparr>
              (sessions s1)\<rparr>)"

text \<open>
  \<open>replay_next_missed\<close> pops pending ids until one still has a stored frame; a statement
  that fails is treated like a purged message.
\<close>

fun pop_missed :: "env \<Rightarrow> node_state \<Rightarrow> int list \<Rightarrow> (int \<times> frame) option \<times> int list" where
  "pop_missed env d [] = (None, [])"
| "pop_missed env d (i # ids) =
     (case message_frame env i d of
        Inr (Some f) \<Rightarrow> (Some (i, f), ids)
      | _ \<Rightarrow> pop_missed env d ids)"

definition set_pending :: "client_id \<Rightarrow> session \<Rightarrow> int list \<Rightarrow> core \<Rightarrow> core" where
  "set_pending cid x ids s =
     s\<lparr>sessions := hm_insert cid (x\<lparr>session_pending := ids\<rparr>) (sessions s)\<rparr>"

definition replay_next_missed :: "env \<Rightarrow> client_id \<Rightarrow> core \<Rightarrow> bool \<times> core" where
  "replay_next_missed env cid s =
     (case hm_get (sessions s) cid of
        None \<Rightarrow> (False, s)
      | Some x \<Rightarrow>
          (let who = (session_port x, session_app x);
               (hit, rest) = pop_missed env (db s) (session_pending x);
               s1 = set_pending cid x rest s;
               s2 = (case hit of
                 None \<Rightarrow> s1
               | Some (i, f) \<Rightarrow> advance_identity env i who (send_to_client cid f s1));
               s3 = (if rest = []
                 then case message_head env (db s2) of
                     Inl e \<Rightarrow> s2
                   | Inr h \<Rightarrow> advance_identity env h who s2
                 else s2)
           in (hit \<noteq> None, s3)))"

section \<open>Echoes of sent messages\<close>

definition text_message ::
  "string \<Rightarrow> frame option \<Rightarrow> int option \<Rightarrow> string \<Rightarrow> int \<Rightarrow> frame \<Rightarrow> identity option \<Rightarrow> new_message" where
  "text_message ty sender ch txt ts f who =
     \<lparr>msg_type = ty, from_key = sender, channel_idx = ch, msg_text = txt, timestamp = ts,
      msg_frame = f, origin = who\<rparr>"

text \<open>\<open>u32::from_le_bytes(payload[3..7].try_into().unwrap_or([0; 4])) as i64\<close>.\<close>

definition ts_of :: "frame \<Rightarrow> int" where
  "ts_of b = uint (u32_from_le_bytes b)"

definition contact_echo_frame :: "frame \<Rightarrow> frame \<Rightarrow> frame or_panic" where
  "contact_echo_frame sender_key payload = do {
     txt_type \<leftarrow> index payload 1;
     ts \<leftarrow> slice payload 3 7;
     body \<leftarrow> slice_from payload 13;
     Some ([0x07] @ sender_key @ [0, txt_type] @ ts @ as_bytes (from_utf8_lossy body)) }"

definition synthesize_contact_echo ::
  "env \<Rightarrow> client_id \<Rightarrow> identity option \<Rightarrow> frame \<Rightarrow> core \<Rightarrow> core or_panic" where
  "synthesize_contact_echo env sender who payload s =
     (case radio_pubkey s of
        None \<Rightarrow> Some s
      | Some pk \<Rightarrow> do {
          sender_key \<leftarrow> slice pk 0 6;
          ts \<leftarrow> slice payload 3 7;
          body \<leftarrow> slice_from payload 13;
          fake \<leftarrow> contact_echo_frame sender_key payload;
          let s1 = broadcast_to_others (Some sender) fake s;
          Some (store_message env
            (text_message ''contact'' (Some sender_key) None (from_utf8_lossy body) (ts_of ts) fake who) s1) })"

definition channel_echo_frame :: "string option \<Rightarrow> frame \<Rightarrow> frame or_panic" where
  "channel_echo_frame node_name payload = do {
     channel \<leftarrow> index payload 2;
     ts \<leftarrow> slice payload 3 7;
     body \<leftarrow> slice_from payload 7;
     Some ([0x08, channel, 0, 0] @ ts @ channel_text_on_air node_name body) }"

definition synthesize_channel_echo ::
  "env \<Rightarrow> client_id \<Rightarrow> identity option \<Rightarrow> frame \<Rightarrow> core \<Rightarrow> core or_panic" where
  "synthesize_channel_echo env sender who payload s =
     (case radio_pubkey s of
        None \<Rightarrow> Some s
      | Some pk \<Rightarrow> do {
          sender_key \<leftarrow> slice pk 0 6;
          channel \<leftarrow> byte_at payload 2;
          ts \<leftarrow> slice payload 3 7;
          body \<leftarrow> slice_from payload 7;
          let on_air = channel_text_on_air (radio_name s) body;
          fake \<leftarrow> channel_echo_frame (radio_name s) payload;
          let s1 = broadcast_to_others (Some sender) fake s;
          Some (store_message env
            (text_message ''channel'' (Some sender_key) (Some channel) (from_utf8_lossy on_air)
               (ts_of ts) fake who) s1) })"

end
