(* ===== verification/Core_Cache.thy ===== *)
theory Core_Cache
  imports Core_State
begin

text \<open>
  The cached side of the \<open>Core\<close> actor: caching what the radio reports
  (\<open>cache_response\<close>) and answering clients from it (\<open>try_serve_from_cache\<close>,
  \<open>respond_contacts\<close>, \<open>respond_channel_info\<close>).
\<close>

section \<open>Caching the radio's responses\<close>

definition extract_radio_identity :: "env \<Rightarrow> frame \<Rightarrow> core \<Rightarrow> core or_panic" where
  "extract_radio_identity env blob s = do {
     s1 \<leftarrow> (if length blob \<ge> 36
       then map_option (\<lambda>pk. s\<lparr>radio_pubkey := Some pk\<rparr>) (slice blob 4 36) else Some s);
     decoded \<leftarrow> decode_response_payload (hex env) 0x05 blob;
     Some (case decoded of
         Some m \<Rightarrow> (case hm_get m ''name'' of
             Some (DString name) \<Rightarrow> s1\<lparr>radio_name := Some name\<rparr>
           | _ \<Rightarrow> s1)
       | None \<Rightarrow> s1) }"

definition extract_max_channels :: "env \<Rightarrow> frame \<Rightarrow> core \<Rightarrow> core or_panic" where
  "extract_max_channels env blob s = do {
     decoded \<leftarrow> decode_response_payload (hex env) 0x0D blob;
     Some (case decoded of
         Some m \<Rightarrow> (case hm_get m ''max_channels'' of
             Some (DInteger n) \<Rightarrow>
               (let mx = (word_of_int (min n 255) :: u8)
                in if mx > 0 then s\<lparr>max_channels := mx\<rparr> else s)
           | _ \<Rightarrow> s)
       | None \<Rightarrow> s) }"

definition cache_contact :: "env \<Rightarrow> frame \<Rightarrow> core \<Rightarrow> core or_panic" where
  "cache_contact env p s = do {
     pk \<leftarrow> slice p 1 33;
     ctype \<leftarrow> byte_at p 33;
     name_field \<leftarrow> slice p 100 132;
     let name_end = (case position_nul name_field of Some n \<Rightarrow> n | None \<Rightarrow> 32);
     name \<leftarrow> slice name_field 0 name_end;
     advert \<leftarrow> u32_at p 132;
     lat \<leftarrow> map_option (\<lambda>i. f64_div i 1000000) (i32_at p 136);
     lon \<leftarrow> map_option (\<lambda>i. f64_div i 1000000) (i32_at p 140);
     whole \<leftarrow> slice p 0 CONTACT_FRAME_LEN;
     Some (write_db (upsert_contact env
       \<lparr>public_key = pk, contact_name = from_utf8_lossy name, contact_type = ctype,
        last_advert = Some advert,
        contact_lat = (if f64_is_zero lat then None else Some lat),
        contact_lon = (if f64_is_zero lon then None else Some lon),
        raw = Some whole\<rparr> (db s)) s) }"

text \<open>The string or the integer under a key of a decoded frame, with the source's defaults.\<close>

definition get_text :: "decoded \<Rightarrow> string" where
  "get_text m = (case hm_get m ''text'' of Some (DString t) \<Rightarrow> t | _ \<Rightarrow> [])"

definition get_ts :: "env \<Rightarrow> decoded \<Rightarrow> int" where
  "get_ts env m = (case hm_get m ''timestamp'' of Some (DInteger i) \<Rightarrow> i | _ \<Rightarrow> unix_now env)"

definition get_channel_idx :: "decoded \<Rightarrow> int option" where
  "get_channel_idx m =
     map_option (\<lambda>v. case v of DInteger i \<Rightarrow> i | _ \<Rightarrow> 0) (hm_get m ''channel'')"

definition cache_contact_msg :: "env \<Rightarrow> frame \<Rightarrow> core \<Rightarrow> core or_panic" where
  "cache_contact_msg env p s = do {
     decoded \<leftarrow> decode_response_payload (hex env) 0x07 p;
     (case decoded of
        None \<Rightarrow> Some s
      | Some m \<Rightarrow> do {
          sender_key \<leftarrow> (if length p \<ge> 7 then map_option Some (slice p 1 7) else Some None);
          Some (store_message env
            (text_message ''contact'' sender_key None (get_text m) (get_ts env m) p None) s) }) }"

definition cache_channel_msg :: "env \<Rightarrow> frame \<Rightarrow> core \<Rightarrow> core or_panic" where
  "cache_channel_msg env p s = do {
     decoded \<leftarrow> decode_response_payload (hex env) 0x08 p;
     Some (case decoded of
        None \<Rightarrow> s
      | Some m \<Rightarrow> store_message env
          (text_message ''channel'' None (get_channel_idx m) (get_text m) (get_ts env m) p None) s) }"

definition cache_contact_msg_v3 :: "env \<Rightarrow> frame \<Rightarrow> core \<Rightarrow> core or_panic" where
  "cache_contact_msg_v3 env p s = do {
     txt_type \<leftarrow> index p 11;
     sender_key \<leftarrow> slice p 4 10;
     ts \<leftarrow> u32_at p 12;
     let text_offset = (if txt_type = 2 then 20 else 16);
     txt \<leftarrow> (if length p > text_offset then text_from p text_offset else Some []);
     Some (store_message env
       (text_message ''contact'' (Some sender_key) None txt ts p None) s) }"

definition cache_channel_msg_v3 :: "env \<Rightarrow> frame \<Rightarrow> core \<Rightarrow> core or_panic" where
  "cache_channel_msg_v3 env p s = do {
     channel \<leftarrow> byte_at p 4;
     ts \<leftarrow> u32_at p 7;
     txt \<leftarrow> (if length p > 11 then text_from p 11 else Some []);
     Some (store_message env
       (text_message ''channel'' None (Some channel) txt ts p None) s) }"

definition cache_channel_info :: "env \<Rightarrow> frame \<Rightarrow> core \<Rightarrow> core or_panic" where
  "cache_channel_info env p s = do {
     i \<leftarrow> byte_at p 1;
     field \<leftarrow> slice p 2 34;
     let name_end = (case position_nul field of Some n \<Rightarrow> n | None \<Rightarrow> 32);
     name \<leftarrow> slice p 2 (2 + name_end);
     secret \<leftarrow> slice p 34 50;
     Some (write_db (upsert_channel env
       \<lparr>idx = i, channel_name = from_utf8_lossy name, config = Some secret\<rparr> (db s)) s) }"

definition cache_response :: "env \<Rightarrow> u8 \<Rightarrow> frame \<Rightarrow> core \<Rightarrow> core or_panic" where
  "cache_response env code p s =
     (if code = 0x03 \<and> length p \<ge> CONTACT_FRAME_LEN then cache_contact env p s
      else if code = 0x05 then do {
        let s1 = write_db (kv_set env ''self_info_raw'' p (db s)) s;
        s2 \<leftarrow> extract_radio_identity env p s1;
        Some (s2\<lparr>self_info_raw := Some p\<rparr>) }
      else if code = 0x0C then
        (let s1 = write_db (kv_set env ''battery_info_raw'' p (db s)) s
         in Some (s1\<lparr>battery_info_raw := Some p\<rparr>))
      else if code = 0x0D then do {
        let s1 = write_db (kv_set env ''device_info_raw'' p (db s)) s;
        s2 \<leftarrow> extract_max_channels env p s1;
        Some (s2\<lparr>device_info_raw := Some p\<rparr>) }
      else if code = 0x07 then cache_contact_msg env p s
      else if code = 0x08 then cache_channel_msg env p s
      else if code = 0x10 \<and> length p \<ge> 16 then cache_contact_msg_v3 env p s
      else if code = 0x11 \<and> length p \<ge> 11 then cache_channel_msg_v3 env p s
      else if code = 0x12 \<and> length p \<ge> 50 then cache_channel_info env p s
      else Some s)"

section \<open>Answering from the cache\<close>

text \<open>A 32-byte (or 16-byte) field: the source's bytes cut at its length, padded with zeros.\<close>

definition padded :: "nat \<Rightarrow> frame \<Rightarrow> frame" where
  "padded n bs = take n bs @ replicate (n - length bs) 0"

definition coord_i32 :: "f64 option \<Rightarrow> int" where
  "coord_i32 c = f64_as_i32 (f64_mul (case c of Some x \<Rightarrow> x | None \<Rightarrow> F64 0 0) 1000000)"

definition synthesize_contact_frame :: "cached_contact \<Rightarrow> frame" where
  "synthesize_contact_frame c =
     [0x03] @ padded 32 (public_key c) @ [word_of_int (contact_type c)] @ [0] @ [0] @
     replicate 64 0 @ padded 32 (as_bytes (contact_name c)) @
     u32_to_le_bytes (word_of_int (case last_advert c of Some t \<Rightarrow> t | None \<Rightarrow> 0)) @
     u32_to_le_bytes (word_of_int (coord_i32 (contact_lat c))) @
     u32_to_le_bytes (word_of_int (coord_i32 (contact_lon c))) @ replicate 4 0"

text \<open>The frame a cached contact is served as, and its lastmod field.\<close>

definition contact_frame :: "cached_contact \<Rightarrow> frame" where
  "contact_frame c =
     (case raw c of
        Some r \<Rightarrow> if length r \<ge> CONTACT_FRAME_LEN then (take CONTACT_FRAME_LEN r)[0 := 0x03]
                  else synthesize_contact_frame c
      | None \<Rightarrow> synthesize_contact_frame c)"

definition frame_lastmod :: "frame \<Rightarrow> u32 or_panic" where
  "frame_lastmod f = map_option u32_from_le_bytes (slice f 144 148)"

text \<open>The loop over the contacts; it returns the most recent lastmod of those sent.\<close>

fun send_contacts ::
  "client_id \<Rightarrow> u32 option \<Rightarrow> cached_contact list \<Rightarrow> u32 \<Rightarrow> core \<Rightarrow> (u32 \<times> core) or_panic" where
  "send_contacts cid since [] most_recent s = Some (most_recent, s)"
| "send_contacts cid since (c # cs) most_recent s = do {
     let f = contact_frame c;
     lastmod \<leftarrow> frame_lastmod f;
     (if (case since of Some t \<Rightarrow> lastmod \<le> t | None \<Rightarrow> False)
      then send_contacts cid since cs most_recent s
      else send_contacts cid since cs (max most_recent lastmod) (send_to_client cid f s)) }"

definition respond_contacts ::
  "client_id \<Rightarrow> cached_contact list \<Rightarrow> u32 option \<Rightarrow> core \<Rightarrow> core or_panic" where
  "respond_contacts cid cs since s = do {
     let s1 = send_to_client cid ([0x02] @ u32_to_le_bytes (word_of_nat (length cs))) s;
     (most_recent, s2) \<leftarrow> send_contacts cid since cs 0 s1;
     Some (send_to_client cid ([0x04] @ u32_to_le_bytes most_recent) s2) }"

definition channel_info_frame :: "cached_channel \<Rightarrow> frame" where
  "channel_info_frame ch =
     [0x12] @ [word_of_int (idx ch)] @ padded 32 (as_bytes (channel_name ch)) @
     padded 16 (case config ch of Some secret \<Rightarrow> secret | None \<Rightarrow> [])"

definition respond_channel_info :: "client_id \<Rightarrow> cached_channel \<Rightarrow> core \<Rightarrow> core" where
  "respond_channel_info cid ch s = send_to_client cid (channel_info_frame ch) s"

definition serve_blob :: "client_id \<Rightarrow> frame option \<Rightarrow> core \<Rightarrow> (bool \<times> core) or_panic" where
  "serve_blob cid blob s =
     (case blob of Some b \<Rightarrow> Some (True, send_to_client cid b s) | None \<Rightarrow> Some (False, s))"

definition serve_contacts ::
  "env \<Rightarrow> client_id \<Rightarrow> frame \<Rightarrow> core \<Rightarrow> (bool \<times> core) or_panic" where
  "serve_contacts env cid payload s =
     (case get_contacts env (db s) of
        Inl e \<Rightarrow> Some (False, s)
      | Inr cs \<Rightarrow>
          if cs = [] then Some (False, s)
          else map_option (Pair True)
            (respond_contacts cid cs (map_option u32_from_le_bytes (slice payload 1 5)) s))"

definition serve_channel ::
  "env \<Rightarrow> client_id \<Rightarrow> frame \<Rightarrow> core \<Rightarrow> (bool \<times> core) or_panic" where
  "serve_channel env cid payload s = do {
     requested \<leftarrow> (if length payload > 1 then byte_at payload 1 else Some (-1));
     Some (case get_channels env (db s) of
         Inl e \<Rightarrow> (False, s)
       | Inr chs \<Rightarrow> (case find (\<lambda>c. idx c = requested) chs of
             None \<Rightarrow> (False, s)
           | Some ch \<Rightarrow> (True, respond_channel_info cid ch s))) }"

definition try_serve_from_cache ::
  "env \<Rightarrow> u8 \<Rightarrow> client_command \<Rightarrow> core \<Rightarrow> (bool \<times> core) or_panic" where
  "try_serve_from_cache env cmd_code cmd s =
     (let cid = command_client cmd
      in if cmd_code = 0x01 then serve_blob cid (self_info_raw s) s
         else if cmd_code = 0x16 then serve_blob cid (device_info_raw s) s
         else if cmd_code = 0x14 then serve_blob cid (battery_info_raw s) s
         else if cmd_code = 0x04 then serve_contacts env cid (command_payload cmd) s
         else if cmd_code = 0x1F then serve_channel env cid (command_payload cmd) s
         else Some (False, s))"

end
