(* ===== verification/Core_Queue.thy ===== *)
theory Core_Queue
  imports Core_Cache
begin

text \<open>
  The serialized radio queue of the \<open>Core\<close> actor: dispatching a command, what an accepted
  command does, routing a reply to the request in flight, late ACKs and the timeout.
\<close>

section \<open>Dispatching\<close>

definition push_queue :: "queued \<Rightarrow> core \<Rightarrow> core" where
  "push_queue q s = s\<lparr>pending_queue := pending_queue s @ [q]\<rparr>"

text \<open>The cache invalidation of a command that was handed to the radio.\<close>

definition forward_effects :: "env \<Rightarrow> u8 \<Rightarrow> frame \<Rightarrow> core \<Rightarrow> core or_panic" where
  "forward_effects env cmd_code payload s =
     (if cmd_code = 0x0F \<and> length payload \<ge> 33 then do {
        pk \<leftarrow> slice payload 1 33;
        Some (write_db (delete_contact env pk (db s)) s) }
      else if cmd_code = 0x20 \<and> length payload > 1 then do {
        i \<leftarrow> byte_at payload 1;
        Some (write_db (delete_channel env i (db s)) s) }
      else if cmd_code \<in> {0x08, 0x0B, 0x0C, 0x0E, 0x15, 0x25, 0x26, 0x33} then
        Some (s\<lparr>self_info_raw := None, device_info_raw := None, battery_info_raw := None\<rparr>)
      else Some s)"

definition new_flight ::
  "env \<Rightarrow> client_id option \<Rightarrow> frame \<Rightarrow> core \<Rightarrow> in_flight_request or_panic" where
  "new_flight env c payload s = do {
     aw \<leftarrow> awaiting_for payload;
     Some \<lparr>flight_client = c, flight_payload = payload, last_activity = instant_now env,
           sent_unix = unix_now env, awaiting_reply = aw,
           flight_origin = Option.bind c (identity_of s)\<rparr> }"

definition dispatch_to_radio ::
  "env \<Rightarrow> client_id option \<Rightarrow> frame \<Rightarrow> core \<Rightarrow> core or_panic" where
  "dispatch_to_radio env c payload s = do {
     cmd_code \<leftarrow> index payload 0;
     (case send_to_radio payload s of
        Inl e \<Rightarrow> Some (send_opt c error_frame s)
      | Inr s1 \<Rightarrow> do {
          s2 \<leftarrow> forward_effects env cmd_code payload s1;
          f \<leftarrow> new_flight env c payload s2;
          Some (s2\<lparr>in_flight := Some f\<rparr>) }) }"

definition enqueue_or_dispatch ::
  "env \<Rightarrow> client_id option \<Rightarrow> frame \<Rightarrow> core \<Rightarrow> core or_panic" where
  "enqueue_or_dispatch env c payload s =
     (if in_flight s = None then dispatch_to_radio env c payload s
      else Some (push_queue \<lparr>queued_client = c, queued_payload = payload\<rparr> s))"

text \<open>Whether a queued entry's client is gone; internal entries have none.\<close>

definition client_gone :: "core \<Rightarrow> queued \<Rightarrow> bool" where
  "client_gone s q =
     (case queued_client q of None \<Rightarrow> False | Some cid \<Rightarrow> \<not> client_is_alive s cid)"

lemma send_to_client_queue [simp]: "pending_queue (send_to_client cid p s) = pending_queue s"
  by (simp add: send_to_client_def split: option.splits)

lemma write_db_queue [simp]: "pending_queue (write_db r s) = pending_queue s"
  by (simp add: write_db_def split: sum.splits)

lemma forward_effects_queue:
  "forward_effects env c p s = Some t \<Longrightarrow> pending_queue t = pending_queue s"
  by (auto simp: forward_effects_def bind_eq_Some_conv split: if_splits)

lemma dispatch_to_radio_queue:
  "dispatch_to_radio env c p s = Some t \<Longrightarrow> pending_queue t = pending_queue s"
  by (auto simp: dispatch_to_radio_def send_to_radio_def send_opt_def bind_eq_Some_conv
      split: option.splits sum.splits channel_end.splits dest!: forward_effects_queue)

text \<open>
  The loop of \<open>advance_queue\<close>: every pass takes an entry off the queue, and dispatching
  adds none, so it ends.
\<close>

function advance_queue :: "env \<Rightarrow> core \<Rightarrow> core or_panic" where
  "advance_queue env s =
     (case pending_queue s of
        [] \<Rightarrow> Some s
      | next # rest \<Rightarrow>
          let s1 = s\<lparr>pending_queue := rest\<rparr>
          in if client_gone s1 next then advance_queue env s1
             else Option.bind (dispatch_to_radio env (queued_client next) (queued_payload next) s1)
               (\<lambda>s2. if in_flight s2 \<noteq> None then Some s2 else advance_queue env s2))"
  by pat_completeness auto
termination
  by (relation "measure (\<lambda>(env, s). length (pending_queue s))") (auto dest!: dispatch_to_radio_queue)

declare advance_queue.simps [simp del]

text \<open>
  \<open>advance_queue_sync\<close>, used by the startup sync: it sends at most one entry, without the
  cache invalidation of \<open>dispatch_to_radio\<close>, and gives up when the radio's channel is gone.
\<close>

function advance_queue_sync :: "env \<Rightarrow> core \<Rightarrow> core or_panic" where
  "advance_queue_sync env s =
     (case pending_queue s of
        [] \<Rightarrow> Some s
      | next # rest \<Rightarrow>
          let s1 = s\<lparr>pending_queue := rest\<rparr>
          in if client_gone s1 next then advance_queue_sync env s1
             else case send_to_radio (queued_payload next) s1 of
                 Inl NotConnected \<Rightarrow> Some s1
               | Inl SendFailed \<Rightarrow> Some (send_opt (queued_client next) error_frame s1)
               | Inr s2 \<Rightarrow> do {
                   f \<leftarrow> new_flight env (queued_client next) (queued_payload next) s2;
                   Some (s2\<lparr>in_flight := Some f\<rparr>) })"
  by pat_completeness auto
termination
  by (relation "measure (\<lambda>(env, s). length (pending_queue s))") auto

declare advance_queue_sync.simps [simp del]

section \<open>Accepted commands\<close>

definition internal :: "frame \<Rightarrow> queued" where
  "internal payload = \<lparr>queued_client = None, queued_payload = payload\<rparr>"

definition queue_contact_refresh :: "frame \<Rightarrow> core \<Rightarrow> core" where
  "queue_contact_refresh pubkey s = push_queue (internal ([0x1E] @ pubkey)) s"

definition accepted_contacts :: "env \<Rightarrow> in_flight_request \<Rightarrow> u8 \<Rightarrow> core \<Rightarrow> core or_panic" where
  "accepted_contacts env done cmd s =
     (let payload = flight_payload done
      in if cmd = 0x04 \<and> length payload = 1 then
           Some (write_db (set_contacts_synced_at env (sent_unix done) (db s)) s)
         else if (cmd = 0x09 \<or> cmd = 0x0D) \<and> length payload \<ge> 33 then
           map_option (\<lambda>pk. queue_contact_refresh pk s) (slice payload 1 33)
         else if cmd = 0x12 then Some (push_queue (internal [0x04]) s)
         else if cmd = 0x08 then
           map_option (\<lambda>name. s\<lparr>radio_name := Some (trim_end_nul (from_utf8_lossy name))\<rparr>)
             (slice payload 1 (min (length payload) 32))
         else Some s)"

definition accepted_echo :: "env \<Rightarrow> in_flight_request \<Rightarrow> u8 \<Rightarrow> core \<Rightarrow> core or_panic" where
  "accepted_echo env done cmd s =
     (let payload = flight_payload done
      in case flight_client done of
           None \<Rightarrow> Some s
         | Some cid \<Rightarrow>
             if cmd = 0x02 \<and> length payload \<ge> 14 then
               synthesize_contact_echo env cid (flight_origin done) payload s
             else if cmd = 0x03 \<and> length payload \<ge> 8 then
               synthesize_channel_echo env cid (flight_origin done) payload s
             else Some s)"

definition on_command_accepted :: "env \<Rightarrow> in_flight_request \<Rightarrow> core \<Rightarrow> core or_panic" where
  "on_command_accepted env done s = do {
     cmd \<leftarrow> index (flight_payload done) 0;
     let s1 = (if cmd = 0x01 then (case flight_client done of
                 Some cid \<Rightarrow> notify_missed cid s | None \<Rightarrow> s) else s);
     s2 \<leftarrow> accepted_contacts env done cmd s1;
     accepted_echo env done cmd s2 }"

section \<open>Routing replies\<close>

text \<open>MSG_SENT carries the ACK code that a later 0x82 will repeat; old entries go first.\<close>

definition record_ack :: "env \<Rightarrow> client_id \<Rightarrow> u8 \<Rightarrow> frame \<Rightarrow> core \<Rightarrow> core" where
  "record_ack env cid code payload s =
     (if code = 0x06 \<and> length payload \<ge> 6
      then case slice payload 2 6 of
          Some ack \<Rightarrow> s\<lparr>pending_acks := hm_insert ack (cid, instant_now env)
            (hm_retain (\<lambda>k (c, inserted). instant_now env - inserted < PENDING_ACK_TTL)
              (pending_acks s))\<rparr>
        | None \<Rightarrow> s
      else s)"

definition is_incoming_message :: "u8 \<Rightarrow> bool" where
  "is_incoming_message code \<longleftrightarrow> code \<in> {0x07, 0x08, 0x10, 0x11}"

definition deliver_reply ::
  "env \<Rightarrow> client_id option \<Rightarrow> u8 \<Rightarrow> u8 \<Rightarrow> frame \<Rightarrow> core \<Rightarrow> core" where
  "deliver_reply env c cmd_code code payload s =
     (let s1 = (case c of
                  None \<Rightarrow> s
                | Some cid \<Rightarrow> send_to_client cid payload (record_ack env cid code payload s))
      in if cmd_code = 0x0A \<and> is_incoming_message code then broadcast_to_others c payload s1
         else s1)"

definition try_route_to_in_flight ::
  "env \<Rightarrow> u8 \<Rightarrow> frame \<Rightarrow> core \<Rightarrow> (bool \<times> core) or_panic" where
  "try_route_to_in_flight env code payload s =
     (case in_flight s of
        None \<Rightarrow> Some (False, s)
      | Some f \<Rightarrow>
          (let (matched, is_terminator) = classify (awaiting_reply f) code
           in if \<not> matched then Some (False, s)
              else do {
                cmd_code \<leftarrow> index (flight_payload f) 0;
                let s1 = deliver_reply env (flight_client f) cmd_code code payload s;
                s3 \<leftarrow> (if is_terminator
                  then do {
                    let t = s1\<lparr>in_flight := None\<rparr>;
                    s2 \<leftarrow> (if code \<noteq> 0x01 then on_command_accepted env f t else Some t);
                    advance_queue env s2 }
                  else Some (s1\<lparr>in_flight := Some (f\<lparr>last_activity := instant_now env\<rparr>)\<rparr>));
                Some (True, s3) }))"

definition try_route_ack :: "u8 \<Rightarrow> frame \<Rightarrow> core \<Rightarrow> bool \<times> core" where
  "try_route_ack code payload s =
     (if code \<noteq> 0x82 \<or> length payload < 5 then (False, s)
      else case slice payload 1 5 of
          None \<Rightarrow> (False, s)
        | Some ack \<Rightarrow>
            (case hm_get (pending_acks s) ack of
               None \<Rightarrow> (False, s)
             | Some (cid, inserted) \<Rightarrow>
                 (True, send_to_client cid payload (s\<lparr>pending_acks := hm_remove ack (pending_acks s)\<rparr>))))"

section \<open>The timeout\<close>

definition check_in_flight_timeout :: "env \<Rightarrow> core \<Rightarrow> core or_panic" where
  "check_in_flight_timeout env s =
     (case in_flight s of
        None \<Rightarrow> Some s
      | Some f \<Rightarrow>
          if instant_now env - last_activity f \<ge> IN_FLIGHT_TIMEOUT
          then advance_queue env (send_opt (flight_client f) error_frame (s\<lparr>in_flight := None\<rparr>))
          else Some s)"

end
