(* ===== verification/Core_Handlers.thy ===== *)
theory Core_Handlers
  imports Types Core_Queue
begin

text \<open>
  The handlers of the \<open>Core\<close> actor and its event loop: the event log, client commands,
  frames from the radio, the periodic maintenance, connecting, initializing and reconnecting
  the radio, the startup and the shutdown. Each handler is the whole function of
  \<open>src/core.rs\<close>, with its early returns.
\<close>

section \<open>The event log\<close>

definition hex_digit :: "nat \<Rightarrow> char" where
  "hex_digit n = (if n < 10 then char_of (48 + n) else char_of (87 + n))"

text \<open>\<open>{code:02x}\<close>.\<close>

definition hex2 :: "u8 \<Rightarrow> string" where
  "hex2 b = [hex_digit (unat b div 16), hex_digit (unat b mod 16)]"

datatype log_line =
    LogText string
  | LogJson string string "(string \<times> string) list option" "string option" "nat option"

definition is_printable :: "char \<Rightarrow> bool" where
  "is_printable c \<longleftrightarrow> 33 \<le> (of_char c :: nat) \<and> (of_char c :: nat) \<le> 126 \<or> c = CHR '' ''"

definition sanitize :: "string \<Rightarrow> string" where
  "sanitize msg = filter is_printable msg"

definition build_event_msg ::
  "hex_encode \<Rightarrow> string \<Rightarrow> string \<Rightarrow> decoded option \<Rightarrow> frame \<Rightarrow> log_level \<Rightarrow> string" where
  "build_event_msg hx arrow type_name dec payload level =
     (let head = arrow @ '' '' @ type_name;
          body = (case dec of
             Some d \<Rightarrow> (let formatted = format_decoded d
                        in if formatted \<noteq> [] then '': '' @ formatted else [])
           | None \<Rightarrow> []);
          dump = (if level = LogVerbose
             then '' ['' @ int_to_string (int (length payload)) @ '' bytes]: '' @ hx payload else [])
      in sanitize (head @ body @ dump))"

definition type_name_of :: "string \<Rightarrow> u8 \<Rightarrow> string" where
  "type_name_of arrow code =
     (if arrow = ''->''
      then (case command_from_byte code of Some c \<Rightarrow> command_name c
            | None \<Rightarrow> ''CMD_UNKNOWN(0x'' @ hex2 code @ '')'')
      else (case response_from_byte code of Some r \<Rightarrow> response_name r
            | None \<Rightarrow> ''RESP_UNKNOWN(0x'' @ hex2 code @ '')''))"

definition log_event ::
  "hex_encode \<Rightarrow> core_config \<Rightarrow> string \<Rightarrow> u8 \<Rightarrow> frame \<Rightarrow> log_line option or_panic" where
  "log_event hx cfg arrow code payload =
     (if event_log_level cfg = LogOff then Some None
      else do {
        dec \<leftarrow> (if arrow = ''->'' then decode_command_payload hx code payload
                else decode_response_payload hx code payload);
        let verbose = (event_log_level cfg = LogVerbose);
        Some (Some (if event_log_json cfg
          then LogJson (if arrow = ''->'' then ''TO_RADIO'' else ''FROM_RADIO'')
                 (type_name_of arrow code)
                 (map_option (map (\<lambda>(k, v). (k, value_string v))) dec)
                 (if verbose then Some (hx payload) else None)
                 (if verbose then Some (length payload) else None)
          else LogText (build_event_msg hx arrow (type_name_of arrow code) dec payload
                 (event_log_level cfg)))) })"

section \<open>Client commands\<close>

definition note_version :: "client_id \<Rightarrow> u8 \<Rightarrow> frame \<Rightarrow> core \<Rightarrow> core" where
  "note_version cid cmd_code payload s =
     (if cmd_code = 0x16 \<and> length payload > 1
      then s\<lparr>protocol_versions := hm_insert cid (payload ! 1) (protocol_versions s)\<rparr> else s)"

text \<open>What a client's command is sent to the radio as.\<close>

definition forwarded_payload :: "u8 \<Rightarrow> frame \<Rightarrow> frame" where
  "forwarded_payload cmd_code payload =
     (if cmd_code = 0x16 then [0x16, RADIO_PROTOCOL_VERSION] else payload)"

definition handle_client_command :: "env \<Rightarrow> client_command \<Rightarrow> core \<Rightarrow> core or_panic" where
  "handle_client_command env cmd s =
     (case command_payload cmd of
        [] \<Rightarrow> Some s
      | cmd_code # _ \<Rightarrow>
          (let cid = command_client cmd; payload = command_payload cmd
           in if \<not> client_is_alive s cid then Some s
              else do {
                _ \<leftarrow> log_event (hex env) (conf s) ''->'' cmd_code payload;
                let s1 = (if cmd_code = 0x01 then register_session env cmd s else s);
                let s2 = note_version cid cmd_code payload s1;
                let (replayed, s3) =
                  (if cmd_code = 0x0A then replay_next_missed env cid s2 else (False, s2));
                (if replayed then Some s3
                 else do {
                   (served, s4) \<leftarrow> try_serve_from_cache env cmd_code cmd s3;
                   (if served then Some (if cmd_code = 0x01 then notify_missed cid s4 else s4)
                    else enqueue_or_dispatch env (Some cid)
                           (forwarded_payload cmd_code payload) s4) }) }))"

section \<open>Frames from the radio\<close>

definition broadcast :: "frame \<Rightarrow> core \<Rightarrow> core" where
  "broadcast payload s = s\<lparr>broadcast_out := broadcast_out s @ [payload]\<rparr>"

definition refresh_advertised :: "env \<Rightarrow> u8 \<Rightarrow> frame \<Rightarrow> core \<Rightarrow> core or_panic" where
  "refresh_advertised env code payload s =
     (if (code = 0x80 \<or> code = 0x81) \<and> length payload \<ge> 33
      then do {
        pk \<leftarrow> slice payload 1 33;
        let s1 = queue_contact_refresh pk s;
        (if in_flight s1 = None then advance_queue env s1 else Some s1) }
      else Some s)"

definition record_raw :: "env \<Rightarrow> u8 \<Rightarrow> frame \<Rightarrow> core \<Rightarrow> core" where
  "record_raw env code payload s =
     (if record_radio_rx (conf s) then write_db (insert_raw_rx env code payload (db s)) s else s)"

definition handle_radio_rx :: "env \<Rightarrow> frame \<Rightarrow> core \<Rightarrow> core or_panic" where
  "handle_radio_rx env payload s =
     (case payload of
        [] \<Rightarrow> Some s
      | resp_code # _ \<Rightarrow> do {
          _ \<leftarrow> log_event (hex env) (conf s) ''<-'' resp_code payload;
          s1 \<leftarrow> cache_response env resp_code payload s;
          let s2 = record_raw env resp_code payload s1;
          (routed, s3) \<leftarrow> try_route_to_in_flight env resp_code payload s2;
          (if routed then Some s3
           else let (acked, s4) = try_route_ack resp_code payload s3
             in if acked then Some s4
                else if is_push_event resp_code
                then map_option (broadcast payload) (refresh_advertised env resp_code payload s4)
                else Some s4) })"

section \<open>Maintenance and shutdown\<close>

definition full_sync_pending :: "core \<Rightarrow> bool" where
  "full_sync_pending s \<longleftrightarrow>
     (case in_flight s of None \<Rightarrow> False | Some f \<Rightarrow> flight_payload f = [0x04]) \<or>
     (\<exists>q \<in> set (pending_queue s). queued_payload q = [0x04])"

definition request_full_sync :: "env \<Rightarrow> core \<Rightarrow> core or_panic" where
  "request_full_sync env s =
     (if contacts_days (retention (conf s)) > 0 \<and> \<not> full_sync_pending s
      then let s1 = push_queue (internal [0x04]) s
        in if in_flight s1 = None then advance_queue env s1 else Some s1
      else Some s)"

definition run_maintenance :: "env \<Rightarrow> core \<Rightarrow> core or_panic" where
  "run_maintenance env s = do {
     s1 \<leftarrow> request_full_sync env s;
     Some (s1\<lparr>db := fst (maintain env (retention (conf s1)) (db s1))\<rparr>) }"

definition shutdown :: "core \<Rightarrow> core" where
  "shutdown s = s\<lparr>radio_send_tx := None\<rparr>"

end
