(* ===== verification/Core_Run.thy ===== *)
theory Core_Run
  imports Core_Handlers
begin

text \<open>
  The life cycle of the \<open>Core\<close> actor (\<open>src/core.rs\<close>): connecting to the radio,
  initializing it, the reconnection loop, the startup of \<open>run\<close> and its event loop. What
  the outside does while the actor waits is an argument: the events of the radio's channel with
  their instants, the outcome of each connection attempt, the shutdown signal. A list of such
  events that runs out means that the actor is still waiting.
\<close>

section \<open>Connecting\<close>

datatype connect_target =
    SerialTarget string u32
  | BleTarget string string
  | TcpTarget string u16

datatype connect_error = NotSpecified backend_type | BleNotCompiled | BackendFailed

definition backend_target :: "env \<Rightarrow> core_config \<Rightarrow> connect_error + connect_target" where
  "backend_target env cfg =
     (case backend_type cfg of
        Serial \<Rightarrow> (case serial_port cfg of
            None \<Rightarrow> Inl (NotSpecified Serial)
          | Some port \<Rightarrow> Inr (SerialTarget port (serial_baud cfg)))
      | Ble \<Rightarrow> (case ble_address cfg of
            None \<Rightarrow> Inl (NotSpecified Ble)
          | Some addr \<Rightarrow> if ble_compiled env then Inr (BleTarget addr (ble_pin cfg))
                          else Inl BleNotCompiled)
      | Tcp \<Rightarrow> (case tcp_backend_host cfg of
            None \<Rightarrow> Inl (NotSpecified Tcp)
          | Some host \<Rightarrow> Inr (TcpTarget host (tcp_backend_port cfg))))"

text \<open>\<open>dial\<close> tells whether the backend reaches the target; a new connection has a new,
  empty channel.\<close>

definition connect_backend ::
  "env \<Rightarrow> (connect_target \<Rightarrow> bool) \<Rightarrow> core \<Rightarrow> connect_error + core" where
  "connect_backend env dial s =
     (case backend_target env (conf s) of
        Inl e \<Rightarrow> Inl e
      | Inr t \<Rightarrow> if dial t then Inr (s\<lparr>radio_send_tx := Some Open, radio_out := []\<rparr>)
                  else Inl BackendFailed)"

section \<open>Initializing the radio\<close>

datatype wait_event = Received frame | RadioGone | ShutdownSeen

type_synonym timed_events = "(nat \<times> wait_event) list"

datatype init_error =
    SelfInfoTimeout | SelfInfoNotCached | ShutdownDuringInit | RadioDisconnected
  | InitSendFailed radio_error

text \<open>A wait is over, failed, or goes on because the channel is silent.\<close>

datatype wait_outcome = Ready | Failed init_error | Waiting

definition SELF_INFO_TIMEOUT :: nat where
  "SELF_INFO_TIMEOUT = 5000"

definition DEVICE_INFO_TIMEOUT :: nat where
  "DEVICE_INFO_TIMEOUT = 3000"

definition build_appstart :: frame where
  "build_appstart = [0x01, 1] @ replicate 6 0 @ as_bytes ''coresplitter''"

text \<open>\<open>tracing::warn!(code = payload[0], ...)\<close>: the index is evaluated only when warnings
  are enabled.\<close>

definition warn_code :: "env \<Rightarrow> frame \<Rightarrow> unit or_panic" where
  "warn_code env payload = (if warn_enabled env then map_option (\<lambda>c. ()) (index payload 0) else Some ())"

text \<open>
  The deadline is looked at before each wait, and the wait itself has no timer: \<open>now\<close> is
  the instant of the last event.
\<close>

fun wait_for_self_info ::
  "env \<Rightarrow> nat \<Rightarrow> nat \<Rightarrow> timed_events \<Rightarrow> core \<Rightarrow> (wait_outcome \<times> nat \<times> timed_events \<times> core) or_panic" where
  "wait_for_self_info env deadline now [] s =
     Some (if deadline \<le> now then (Failed SelfInfoTimeout, now, [], s) else (Waiting, now, [], s))"
| "wait_for_self_info env deadline now ((t, ev) # evs) s =
     (if deadline \<le> now then Some (Failed SelfInfoTimeout, now, (t, ev) # evs, s)
      else case ev of
          ShutdownSeen \<Rightarrow> Some (Failed ShutdownDuringInit, t, evs, s)
        | RadioGone \<Rightarrow> Some (Failed RadioDisconnected, t, evs, s)
        | Received payload \<Rightarrow>
            if payload \<noteq> [] \<and> hd payload = 0x05 then do {
              s1 \<leftarrow> cache_response env 0x05 payload s;
              Some (if self_info_raw s1 \<noteq> None then Ready else Failed SelfInfoNotCached, t, evs, s1) }
            else do {
              _ \<leftarrow> warn_code env payload;
              wait_for_self_info env deadline t evs s })"

fun wait_for_device_info ::
  "env \<Rightarrow> nat \<Rightarrow> nat \<Rightarrow> timed_events \<Rightarrow> core \<Rightarrow> (wait_outcome \<times> nat \<times> timed_events \<times> core) or_panic" where
  "wait_for_device_info env deadline now [] s =
     Some (if deadline \<le> now then (Ready, now, [], s) else (Waiting, now, [], s))"
| "wait_for_device_info env deadline now ((t, ev) # evs) s =
     (if deadline \<le> now then Some (Ready, now, (t, ev) # evs, s)
      else case ev of
          ShutdownSeen \<Rightarrow> Some (Failed ShutdownDuringInit, t, evs, s)
        | RadioGone \<Rightarrow> Some (Failed RadioDisconnected, t, evs, s)
        | Received payload \<Rightarrow>
            if payload \<noteq> [] \<and> hd payload = 0x0D then do {
              s1 \<leftarrow> cache_response env 0x0D payload s;
              Some (Ready, t, evs, s1) }
            else if payload \<noteq> [] \<and> hd payload = 0x01 then Some (Ready, t, evs, s)
            else do {
              _ \<leftarrow> warn_code env payload;
              wait_for_device_info env deadline t evs s })"

definition initialize_radio ::
  "env \<Rightarrow> timed_events \<Rightarrow> core \<Rightarrow> (wait_outcome \<times> core) or_panic" where
  "initialize_radio env evs s =
     (case send_to_radio build_appstart s of
        Inl e \<Rightarrow> Some (Failed (InitSendFailed e), s)
      | Inr s1 \<Rightarrow> do {
          (r, now, rest, s2) \<leftarrow>
            wait_for_self_info env (instant_now env + SELF_INFO_TIMEOUT) (instant_now env) evs s1;
          (case r of
             Ready \<Rightarrow>
               (case send_to_radio [0x16, RADIO_PROTOCOL_VERSION] s2 of
                  Inl e \<Rightarrow> Some (Failed (InitSendFailed e), s2)
                | Inr s3 \<Rightarrow> do {
                    (r', now', rest', s4) \<leftarrow>
                      wait_for_device_info env (now + DEVICE_INFO_TIMEOUT) now rest s3;
                    Some (r', s4) })
           | _ \<Rightarrow> Some (r, s2)) })"

section \<open>The initial synchronization\<close>

definition queue_sync :: "core \<Rightarrow> core" where
  "queue_sync s =
     s\<lparr>pending_queue := pending_queue s @ internal [0x04] #
        map (\<lambda>i. internal [0x1F, word_of_nat i]) [0..<unat (max_channels s)]\<rparr>"

definition sync_from_radio :: "env \<Rightarrow> core \<Rightarrow> core or_panic" where
  "sync_from_radio env s =
     (let s1 = queue_sync s
      in if in_flight s1 = None then advance_queue_sync env s1 else Some s1)"

section \<open>Reconnecting\<close>

text \<open>Everything that was asked of the radio is answered with ERROR.\<close>

definition fail_all :: "core \<Rightarrow> core" where
  "fail_all s =
     (let s1 = (case in_flight s of None \<Rightarrow> s
                | Some f \<Rightarrow> send_opt (flight_client f) error_frame (s\<lparr>in_flight := None\<rparr>))
      in (fold (\<lambda>q. send_opt (queued_client q) error_frame) (pending_queue s1) s1)
           \<lparr>pending_queue := []\<rparr>)"

text \<open>An attempt to connect has an environment of its own: the loop may go on for days.\<close>

datatype attempt = ShutdownFirst | Dial env "connect_target \<Rightarrow> bool" timed_events

datatype reconnect_outcome = Reconnected | Aborted | StillTrying

definition max_delay :: nat where
  "max_delay = 60"

text \<open>The synchronization starts when the last event of the handshake has come.\<close>

definition at_end :: "env \<Rightarrow> timed_events \<Rightarrow> env" where
  "at_end env evs = env\<lparr>instant_now := (if evs = [] then instant_now env else fst (last evs))\<rparr>"

text \<open>The outcome carries the delays that were slept, in seconds.\<close>

fun reconnect_loop ::
  "nat \<Rightarrow> attempt list \<Rightarrow> core \<Rightarrow> (reconnect_outcome \<times> nat list \<times> core) or_panic" where
  "reconnect_loop delay [] s = Some (StillTrying, [], s)"
| "reconnect_loop delay (ShutdownFirst # later) s = Some (Aborted, [], s)"
| "reconnect_loop delay (Dial env dial evs # later) s = do {
     let again = (\<lambda>s. map_option (\<lambda>(r, ds, t). (r, delay # ds, t))
                        (reconnect_loop (min (delay * 2) max_delay) later s));
     (case connect_backend env dial s of
        Inl e \<Rightarrow> again s
      | Inr s1 \<Rightarrow> do {
          (r, s2) \<leftarrow> initialize_radio env evs s1;
          (case r of
             Ready \<Rightarrow> do {
               s3 \<leftarrow> sync_from_radio (at_end env evs) s2;
               Some (Reconnected, [delay], s3\<lparr>radio_up := True\<rparr>) }
           | Failed e \<Rightarrow> again (s2\<lparr>radio_send_tx := None\<rparr>)
           | Waiting \<Rightarrow> Some (StillTrying, [delay], s2)) }) }"

definition reconnect_radio ::
  "attempt list \<Rightarrow> core \<Rightarrow> (reconnect_outcome \<times> nat list \<times> core) or_panic" where
  "reconnect_radio attempts s =
     reconnect_loop 1 attempts (fail_all (s\<lparr>radio_send_tx := None, radio_up := False\<rparr>))"

section \<open>Startup\<close>

definition kv_blob :: "env \<Rightarrow> string \<Rightarrow> core \<Rightarrow> frame option" where
  "kv_blob env k s = (case kv_get env k (db s) of Inl e \<Rightarrow> None | Inr b \<Rightarrow> b)"

definition restore_blobs :: "env \<Rightarrow> core \<Rightarrow> core or_panic" where
  "restore_blobs env s = do {
     s1 \<leftarrow> (case (self_info_raw s, kv_blob env ''self_info_raw'' s) of
         (None, Some b) \<Rightarrow>
           map_option (\<lambda>t. t\<lparr>self_info_raw := Some b\<rparr>) (extract_radio_identity env b s)
       | _ \<Rightarrow> Some s);
     s2 \<leftarrow> (case (device_info_raw s1, kv_blob env ''device_info_raw'' s1) of
         (None, Some b) \<Rightarrow>
           map_option (\<lambda>t. t\<lparr>device_info_raw := Some b\<rparr>) (extract_max_channels env b s1)
       | _ \<Rightarrow> Some s1);
     Some (case (battery_info_raw s2, kv_blob env ''battery_info_raw'' s2) of
         (None, Some b) \<Rightarrow> s2\<lparr>battery_info_raw := Some b\<rparr>
       | _ \<Rightarrow> s2) }"

text \<open>
  \<open>first_dial\<close> and \<open>first_events\<close> are the initial connection, \<open>attempts\<close> what
  follows when it fails. The result tells whether the loop is reached: a wait that does not end
  keeps \<open>run\<close> from opening the frontend.
\<close>

definition start_radio ::
  "env \<Rightarrow> (connect_target \<Rightarrow> bool) \<Rightarrow> timed_events \<Rightarrow> attempt list \<Rightarrow> core \<Rightarrow>
     (reconnect_outcome \<times> core) or_panic" where
  "start_radio env first_dial first_events attempts s =
     (let retry = (\<lambda>s. map_option (\<lambda>(r, ds, t). (r, t)) (reconnect_radio attempts s))
      in case connect_backend env first_dial s of
           Inl e \<Rightarrow> retry s
         | Inr s1 \<Rightarrow> do {
             (r, s2) \<leftarrow> initialize_radio env first_events s1;
             (case r of
                Ready \<Rightarrow> do {
                  s3 \<leftarrow> sync_from_radio (at_end env first_events) s2;
                  Some (Reconnected, s3\<lparr>radio_up := True\<rparr>) }
              | Failed e \<Rightarrow> retry (s2\<lparr>radio_send_tx := None\<rparr>)
              | Waiting \<Rightarrow> Some (StillTrying, s2)) })"

definition startup ::
  "env \<Rightarrow> (connect_target \<Rightarrow> bool) \<Rightarrow> timed_events \<Rightarrow> attempt list \<Rightarrow> core \<Rightarrow>
     (reconnect_outcome \<times> core) or_panic" where
  "startup env first_dial first_events attempts s = do {
     (r, s1) \<leftarrow> start_radio env first_dial first_events attempts s;
     (if r = StillTrying then Some (r, s1) else map_option (Pair r) (restore_blobs env s1)) }"

section \<open>The event loop\<close>

text \<open>
  The five arms of the loop's \<open>select!\<close>, and the two ways the other tasks change the state
  between them: the frontend adds and removes the channel of a client, and the backend drops
  the receiving end of the radio's channel.
\<close>

datatype core_event =
    ShutdownSignal
  | ClientCommandEvent client_command
  | RadioFrame frame
  | RadioLost "attempt list"
  | TimeoutTick
  | MaintenanceTick
  | ClientConnected client_id
  | ClientDisconnected client_id
  | RadioChannelClosed

definition client_connected :: "client_id \<Rightarrow> core \<Rightarrow> core" where
  "client_connected cid s = s\<lparr>client_channels := hm_insert cid [] (client_channels s)\<rparr>"

definition client_disconnected :: "client_id \<Rightarrow> core \<Rightarrow> core" where
  "client_disconnected cid s = s\<lparr>client_channels := hm_remove cid (client_channels s)\<rparr>"

definition radio_channel_closed :: "core \<Rightarrow> core" where
  "radio_channel_closed s = s\<lparr>radio_send_tx := map_option (\<lambda>c. Closed) (radio_send_tx s)\<rparr>"

fun handle_event :: "env \<Rightarrow> core_event \<Rightarrow> core \<Rightarrow> core or_panic" where
  "handle_event env ShutdownSignal s = Some (shutdown s)"
| "handle_event env (ClientCommandEvent cmd) s = handle_client_command env cmd s"
| "handle_event env (RadioFrame payload) s = handle_radio_rx env payload s"
| "handle_event env (RadioLost attempts) s =
     map_option (\<lambda>(r, ds, t). t) (reconnect_radio attempts s)"
| "handle_event env TimeoutTick s = check_in_flight_timeout env s"
| "handle_event env MaintenanceTick s = run_maintenance env s"
| "handle_event env (ClientConnected cid) s = Some (client_connected cid s)"
| "handle_event env (ClientDisconnected cid) s = Some (client_disconnected cid s)"
| "handle_event env RadioChannelClosed s = Some (radio_channel_closed s)"

text \<open>The loop ends at the shutdown signal.\<close>

fun run_loop :: "(env \<times> core_event) list \<Rightarrow> core \<Rightarrow> core or_panic" where
  "run_loop [] s = Some s"
| "run_loop ((env, ev) # evs) s =
     (case ev of
        ShutdownSignal \<Rightarrow> handle_event env ev s
      | _ \<Rightarrow> Option.bind (handle_event env ev s) (run_loop evs))"

end
