(* ===== verification/Core_Inv.thy ===== *)
theory Core_Inv
  imports Core_Run Store_Laws
begin

text \<open>
  The invariant of the \<open>Core\<close> actor and its preservation by every operation of a handler,
  together with the absence of panics: each operation, started in a state that satisfies the
  invariant, returns, in a state that satisfies it, with cursors that have not moved back and a
  message log that has only grown. The two are one statement per operation, in the small effect
  logic below, so that handlers are composed of their parts.
\<close>

section \<open>Composing effects\<close>

locale effect_logic =
  fixes inv :: "'s \<Rightarrow> bool" and rel :: "'s \<Rightarrow> 's \<Rightarrow> bool"
  assumes rel_refl: "rel s s"
    and rel_trans: "rel s t \<Longrightarrow> rel t u \<Longrightarrow> rel s u"
begin

definition keeps :: "'s \<Rightarrow> 's \<Rightarrow> bool" where
  "keeps s t \<longleftrightarrow> (inv s \<longrightarrow> inv t \<and> rel s t)"

definition goes :: "'s \<Rightarrow> 's option \<Rightarrow> bool" where
  "goes s r \<longleftrightarrow> (inv s \<longrightarrow> (\<exists>t. r = Some t \<and> inv t \<and> rel s t))"

lemma keeps_refl [intro, simp]: "keeps s s"
  by (simp add: keeps_def rel_refl)

lemma keeps_trans [trans]: "keeps s t \<Longrightarrow> keeps t u \<Longrightarrow> keeps s u"
  by (meson keeps_def rel_trans)

lemma keeps_fold: "(\<And>x t. x \<in> set xs \<Longrightarrow> keeps t (f x t)) \<Longrightarrow> keeps s (fold f xs s)"
proof (induction xs arbitrary: s)
  case (Cons x xs)
  have "keeps s (f x s)" by (rule Cons.prems) simp
  also have "keeps (f x s) (fold f xs (f x s))" by (rule Cons.IH) (rule Cons.prems, simp)
  finally show ?case by simp
qed simp

lemma goes_Some: "keeps s t \<Longrightarrow> goes s (Some t)"
  by (simp add: keeps_def goes_def)

lemma goes_Some_iff: "goes s (Some t) \<longleftrightarrow> keeps s t"
  by (simp add: keeps_def goes_def)

lemma goes_after: "keeps s t \<Longrightarrow> goes t r \<Longrightarrow> goes s r"
  unfolding keeps_def goes_def using rel_trans by blast

lemma goes_bind:
  "goes s r \<Longrightarrow> (\<And>t. r = Some t \<Longrightarrow> keeps s t \<Longrightarrow> inv t \<Longrightarrow> goes t (f t)) \<Longrightarrow> goes s (Option.bind r f)"
  unfolding goes_def keeps_def by (metis bind.bind_lunit rel_trans)

lemma goes_map: "goes s r \<Longrightarrow> (\<And>t. keeps t (f t)) \<Longrightarrow> goes s (map_option f r)"
  unfolding goes_def keeps_def by (metis option.simps(9) rel_trans)

text \<open>Operations that also return a value.\<close>

lemma goes_bind_value:
  "goes s (map_option snd r) \<Longrightarrow> (\<And>b t. r = Some (b, t) \<Longrightarrow> keeps s t \<Longrightarrow> inv t \<Longrightarrow> goes t (f (b, t))) \<Longrightarrow>
   goes s (Option.bind r f)"
  unfolding goes_def keeps_def
  using rel_trans by (cases r) fastforce+

lemma goes_bind_proj:
  "goes s (map_option g r) \<Longrightarrow> (\<And>x. r = Some x \<Longrightarrow> keeps s (g x) \<Longrightarrow> inv (g x) \<Longrightarrow> goes (g x) (f x)) \<Longrightarrow>
   goes s (Option.bind r f)"
  unfolding goes_def keeps_def
  using rel_trans by (cases r) fastforce+

lemma goes_returns: "goes s r \<Longrightarrow> inv s \<Longrightarrow> r \<noteq> None"
  by (auto simp: goes_def)

lemma goes_keeps: "goes s r \<Longrightarrow> r = Some t \<Longrightarrow> keeps s t"
  by (auto simp: goes_def keeps_def)

lemma goesI: "(inv s \<Longrightarrow> goes s r) \<Longrightarrow> goes s r"
  by (simp add: goes_def)

lemma keepsI: "(inv s \<Longrightarrow> keeps s t) \<Longrightarrow> keeps s t"
  by (simp add: keeps_def)

end

section \<open>The invariant\<close>

text \<open>
  The ids a session has pending were given out, and a message that still has one of them may be
  replayed to the session's identity.
\<close>

definition pending_ok :: "node_state \<Rightarrow> session \<Rightarrow> bool" where
  "pending_ok d x \<longleftrightarrow> (\<forall>i \<in> set (session_pending x). i \<le> message_seq d \<and>
     (\<forall>m \<in> set (messages d). msg_id m = i \<longrightarrow> replayable_to (session_port x, session_app x) m))"

lemma pending_ok_extends: "pending_ok d x \<Longrightarrow> log_extends d d' \<Longrightarrow> pending_ok d' x"
  unfolding pending_ok_def log_extends_def
  by (intro ballI conjI impI) (force, metis order.strict_trans1 less_irrefl)

definition sessions_ok :: "core \<Rightarrow> bool" where
  "sessions_ok s \<longleftrightarrow> (\<forall>cid x. hm_get (sessions s) cid = Some x \<longrightarrow> pending_ok (db s) x)"

definition requests_ok :: "core \<Rightarrow> bool" where
  "requests_ok s \<longleftrightarrow> (\<forall>q \<in> set (pending_queue s). queued_payload q \<noteq> []) \<and>
     (\<forall>f. in_flight s = Some f \<longrightarrow> flight_payload f \<noteq> [])"

definition maps_ok :: "core \<Rightarrow> bool" where
  "maps_ok s \<longleftrightarrow> hm_invar (client_channels s) \<and> hm_invar (sessions s) \<and>
     hm_invar (protocol_versions s) \<and> hm_invar (pending_acks s)"

definition radio_ok :: "core \<Rightarrow> bool" where
  "radio_ok s \<longleftrightarrow> (\<forall>pk. radio_pubkey s = Some pk \<longrightarrow> length pk = 32) \<and> 0 < max_channels s"

definition core_inv :: "core \<Rightarrow> bool" where
  "core_inv s \<longleftrightarrow> requests_ok s \<and> maps_ok s \<and> radio_ok s \<and> sessions_ok s \<and> store_inv (db s)"

definition grows :: "core \<Rightarrow> core \<Rightarrow> bool" where
  "grows s t \<longleftrightarrow> log_extends (db s) (db t) \<and> cursors.not_behind (db s) (db t) \<and> conf t = conf s"

interpretation fx: effect_logic core_inv grows
  by unfold_locales
    (auto simp: grows_def log_extends_refl cursors.not_behind_refl
      intro: log_extends_trans cursors.not_behind_trans)

lemmas core_inv_defs = core_inv_def requests_ok_def maps_ok_def radio_ok_def sessions_ok_def

text \<open>An operation that leaves the tables and the configuration alone.\<close>

lemma keeps_same_db:
  assumes "db t = db s" "conf t = conf s"
    and "requests_ok s \<Longrightarrow> requests_ok t" "maps_ok s \<Longrightarrow> maps_ok t" "radio_ok s \<Longrightarrow> radio_ok t"
    and "core_inv s \<Longrightarrow> sessions_ok t"
  shows "fx.keeps s t"
  using assms
  by (simp add: fx.keeps_def core_inv_def grows_def log_extends_refl cursors.not_behind_refl)

text \<open>An operation that only writes the tables.\<close>

lemma keeps_write_db:
  assumes "\<And>d. r = Inr d \<Longrightarrow> db_step (db s) d"
  shows "fx.keeps s (write_db r s)"
proof (cases r)
  case (Inr d)
  from assms [OF this] show ?thesis
    by (auto simp: Inr write_db_def fx.keeps_def core_inv_defs grows_def db_step_def
        intro: pending_ok_extends [of "db s"])
qed (simp add: write_db_def)

section \<open>Sending\<close>

lemma map_fst_same: "map fst (map (\<lambda>(k, v). (k, f k v)) m) = map fst m"
  by (induction m) auto

lemma keeps_send_to_client: "fx.keeps s (send_to_client cid p s)"
  by (rule keeps_same_db)
    (auto simp: send_to_client_def core_inv_defs hm_simps split: option.splits)

lemma keeps_broadcast_to_others: "fx.keeps s (broadcast_to_others c p s)"
proof (rule keeps_same_db)
  have "hm_invar (client_channels s) \<Longrightarrow> hm_invar (client_channels (broadcast_to_others c p s))"
    by (simp add: broadcast_to_others_def hm_invar_def map_fst_same del: map_map)
  then show "maps_ok s \<Longrightarrow> maps_ok (broadcast_to_others c p s)"
    by (simp add: maps_ok_def broadcast_to_others_def)
qed (simp_all add: broadcast_to_others_def core_inv_defs)

lemma keeps_send_opt: "fx.keeps s (send_opt c p s)"
  by (simp add: send_opt_def keeps_send_to_client split: option.split)

lemma keeps_notify_missed: "fx.keeps s (notify_missed cid s)"
  by (simp add: notify_missed_def keeps_send_to_client split: option.split)

lemma send_to_radio_Inr:
  "send_to_radio p s = Inr t \<longleftrightarrow> radio_send_tx s = Some Open \<and> t = s\<lparr>radio_out := radio_out s @ [p]\<rparr>"
  by (auto simp: send_to_radio_def split: option.splits channel_end.splits)

lemma keeps_send_to_radio: "send_to_radio p s = Inr t \<Longrightarrow> fx.keeps s t"
  by (rule keeps_same_db) (auto simp: send_to_radio_Inr core_inv_defs)

section \<open>Identities and stored messages\<close>

lemma keeps_advance_identity:
  "(core_inv s \<Longrightarrow> i \<le> message_seq (db s)) \<Longrightarrow> fx.keeps s (advance_identity env i who s)"
  unfolding advance_identity_def
  by (rule fx.keepsI, rule keeps_write_db)
    (auto intro: db_step_advance)

lemma message_head_Inr: "message_head env d = Inr h \<Longrightarrow> h = max_message_id (messages d)"
  by (simp add: message_head_def run_query_def split: if_splits)

lemma message_head_le: "message_head env d = Inr h \<Longrightarrow> store_inv d \<Longrightarrow> h \<le> message_seq d"
  using message_head_Inr max_message_id_bounds by blast

lemma core_inv_store: "core_inv s \<Longrightarrow> store_inv (db s)"
  by (simp add: core_inv_def)

lemma keeps_drop_disconnected: "fx.keeps s (drop_disconnected s)"
  by (rule keeps_same_db)
    (auto simp: drop_disconnected_def core_inv_defs hm_simps split: if_splits)

lemma advance_identity_seq [simp]: "message_seq (db (advance_identity env i who s)) = message_seq (db s)"
  by (simp add: advance_identity_def write_db_def advance_client_cursor_def advance_cursor_def
      run_query_def split: sum.splits)

lemma keeps_advances:
  assumes "i \<le> message_seq (db s)"
  shows "fx.keeps s (fold (advance_identity env i) whos s)"
  using assms
proof (induction whos arbitrary: s)
  case (Cons who whos)
  have "fx.keeps s (advance_identity env i who s)"
    by (rule keeps_advance_identity) (rule Cons.prems)
  also have "fx.keeps (advance_identity env i who s)
      (fold (advance_identity env i) whos (advance_identity env i who s))"
    by (rule Cons.IH) (simp add: Cons.prems)
  finally show ?case by simp
qed simp

lemma keeps_follow_head:
  assumes "i \<le> message_seq (db s)"
  shows "fx.keeps s (follow_head env i s)"
proof -
  have "fx.keeps s (drop_disconnected s)" by (rule keeps_drop_disconnected)
  also have "fx.keeps (drop_disconnected s) (follow_head env i s)"
    unfolding follow_head_def Let_def
    by (rule keeps_advances) (use assms in \<open>simp add: drop_disconnected_def\<close>)
  finally show ?thesis .
qed

lemma keeps_store_message: "fx.keeps s (store_message env m s)"
proof (cases "insert_message env m (db s)")
  case (Inr r)
  obtain i d where r: "r = (i, d)" by fastforce
  have "fx.keeps s (write_db (Inr d) s)"
    by (rule keeps_write_db) (use Inr r in \<open>auto intro: db_step_insert_message\<close>)
  also have "fx.keeps (write_db (Inr d) s) (follow_head env i (write_db (Inr d) s))"
    by (rule keeps_follow_head) (use Inr r in \<open>auto simp: insert_message_Inr write_db_def\<close>)
  finally show ?thesis using Inr r by (simp add: store_message_def write_db_def)
qed (simp add: store_message_def)

text \<open>The ids a session starts with are those of stored messages it may be sent.\<close>

lemma missed_ids_replayable:
  assumes "missed_ids env who s = Inr ids"
  shows "set ids \<subseteq> msg_id ` {m \<in> set (messages (db s)). replayable_to who m}"
  using assms
  by (auto simp: missed_ids_def message_ids_after_def backlog_message_ids_def run_query_def
      replayable_ids_set split: sum.splits option.splits if_splits backlog.splits
      dest!: in_set_takeD)

lemma msg_id_unique:
  assumes "store_inv d" "m \<in> set (messages d)" "m' \<in> set (messages d)" "msg_id m = msg_id m'"
  shows "m = m'"
proof -
  have "distinct (map msg_id (messages d))"
    using assms(1) by (simp add: store_inv_def strict_sorted_iff)
  then show ?thesis using assms by (simp add: distinct_map inj_on_def)
qed

lemma pending_ok_replayable:
  assumes "store_inv d" and "set (session_pending x) \<subseteq>
    msg_id ` {m \<in> set (messages d). replayable_to (session_port x, session_app x) m}"
  shows "pending_ok d x"
  unfolding pending_ok_def
proof (intro ballI conjI impI)
  fix i assume "i \<in> set (session_pending x)"
  with assms(2) obtain m where m: "m \<in> set (messages d)" "i = msg_id m"
    "replayable_to (session_port x, session_app x) m" by auto
  with assms(1) show "i \<le> message_seq d" by (simp add: store_inv_def)
  fix m' assume "m' \<in> set (messages d)" "msg_id m' = i"
  with msg_id_unique [OF assms(1), of m m'] m show "replayable_to (session_port x, session_app x) m'" by simp
qed

lemma start_cursor_le:
  assumes "store_inv (db s)" and "missed_ids env who s = Inr ids \<or> ids = []"
  shows "start_cursor env ids s \<le> message_seq (db s)"
proof (cases ids)
  case Nil
  then show ?thesis
    using assms(1) message_head_le
    by (auto simp: start_cursor_def store_inv_def split: sum.splits)
next
  case (Cons i more)
  then have "set (i # more) \<subseteq> msg_id ` {m \<in> set (messages (db s)). replayable_to who m}"
    using assms(2) missed_ids_replayable [of env who s ids] by auto
  then show ?thesis using assms(1) Cons by (auto simp: start_cursor_def store_inv_def)
qed

lemma keeps_set_session:
  assumes "core_inv s \<Longrightarrow> pending_ok (db s) x"
  shows "fx.keeps s (s\<lparr>sessions := hm_insert cid x (sessions s)\<rparr>)"
  by (rule keeps_same_db) (use assms in \<open>auto simp: core_inv_defs hm_simps split: if_splits\<close>)

lemma write_db_extends:
  "fx.keeps s (write_db r s) \<Longrightarrow> core_inv s \<Longrightarrow> log_extends (db s) (db (write_db r s))"
  by (simp add: fx.keeps_def grows_def)

lemma keeps_register_session: "fx.keeps s (register_session env cmd s)"
proof (rule fx.keepsI)
  assume inv: "core_inv s"
  define app where "app = app_name_of (command_payload cmd)"
  define who where "who = (command_port cmd, app)"
  define ids where "ids = (case missed_ids env who s of Inl e \<Rightarrow> [] | Inr ids \<Rightarrow> ids)"
  define x where "x = \<lparr>session_port = command_port cmd, session_app = app, session_pending = ids\<rparr>"
  define s1 where
    "s1 = write_db (advance_client_cursor env who (start_cursor env ids s) (db s)) s"
  have d: "store_inv (db s)" using inv by (rule core_inv_store)
  have ids: "missed_ids env who s = Inr ids \<or> ids = []" by (auto simp: ids_def split: sum.splits)
  have s1: "fx.keeps s s1"
    unfolding s1_def by (rule keeps_write_db) (auto intro: db_step_advance start_cursor_le [OF _ ids])
  have "pending_ok (db s) x"
    by (rule pending_ok_replayable [OF d]) (use ids missed_ids_replayable [of env who s ids] in \<open>auto simp: x_def who_def\<close>)
  then have "pending_ok (db s1) x"
    by (rule pending_ok_extends) (use s1 inv in \<open>simp add: fx.keeps_def grows_def\<close>)
  then have "fx.keeps s1 (s1\<lparr>sessions := hm_insert (command_client cmd) x (sessions s1)\<rparr>)"
    by (rule keeps_set_session)
  with s1 have "fx.keeps s (s1\<lparr>sessions := hm_insert (command_client cmd) x (sessions s1)\<rparr>)"
    by (rule fx.keeps_trans)
  then show "fx.keeps s (register_session env cmd s)"
    by (simp add: register_session_def Let_def x_def s1_def ids_def who_def app_def)
qed

lemma pop_missed_parts:
  assumes "pop_missed env d ids = (hit, rest)"
  shows "set rest \<subseteq> set ids"
    and "hit = Some (i, f) \<Longrightarrow> i \<in> set ids \<and> message_frame env i d = Inr (Some f)"
  using assms
  by (induction env d ids rule: pop_missed.induct)
    (auto split: sum.splits option.splits)

lemma message_frame_le:
  "message_frame env i d = Inr (Some f) \<Longrightarrow> store_inv d \<Longrightarrow> i \<le> message_seq d"
  using message_frame_Some by (fastforce simp: store_inv_def)

lemma keeps_replay_next_missed: "fx.keeps s (snd (replay_next_missed env cid s))"
proof (cases "hm_get (sessions s) cid")
  case (Some x)
  define who where "who = (session_port x, session_app x)"
  obtain hit rest where p: "pop_missed env (db s) (session_pending x) = (hit, rest)" by fastforce
  define s1 where "s1 = set_pending cid x rest s"
  define s2 where "s2 = (case hit of None \<Rightarrow> s1
    | Some (i, f) \<Rightarrow> advance_identity env i who (send_to_client cid f s1))"
  define s3 where "s3 = (if rest = [] then case message_head env (db s2) of
      Inl e \<Rightarrow> s2 | Inr h \<Rightarrow> advance_identity env h who s2 else s2)"
  have "fx.keeps s s1"
    unfolding s1_def set_pending_def
    by (rule keeps_set_session)
      (use Some pop_missed_parts(1) [OF p] in \<open>auto simp: core_inv_defs pending_ok_def\<close>)
  also have "fx.keeps s1 s2"
  proof (cases hit)
    case hit: (Some h)
    obtain i f where h: "h = (i, f)" by fastforce
    have m: "message_frame env i (db s) = Inr (Some f)"
      using pop_missed_parts(2) [OF p, of i f] hit h by simp
    have "fx.keeps s1 (send_to_client cid f s1)" by (rule keeps_send_to_client)
    also have "fx.keeps (send_to_client cid f s1) (advance_identity env i who (send_to_client cid f s1))"
      by (rule keeps_advance_identity)
        (use message_frame_le [OF m] core_inv_store in
          \<open>force simp: s1_def set_pending_def send_to_client_def split: option.splits\<close>)
    finally show ?thesis using hit h by (simp add: s2_def)
  qed (simp add: s2_def)
  also have "fx.keeps s2 s3"
    unfolding s3_def
    by (auto split: sum.split intro: keeps_advance_identity message_head_le core_inv_store)
  also have "s3 = snd (replay_next_missed env cid s)"
    unfolding s3_def s2_def s1_def who_def replay_next_missed_def Let_def
    by (simp add: Some p)
  finally show ?thesis .
qed (simp add: replay_next_missed_def)

section \<open>Echoes\<close>

lemma goes_contact_echo:
  assumes "14 \<le> length payload"
  shows "fx.goes s (synthesize_contact_echo env sender who payload s)"
proof (cases "radio_pubkey s")
  case None
  then show ?thesis by (simp add: synthesize_contact_echo_def fx.goes_Some)
next
  case (Some pk)
  show ?thesis
  proof (rule fx.goesI)
    assume "core_inv s"
    with Some have "length pk = 32" by (simp add: core_inv_defs)
    then show "fx.goes s (synthesize_contact_echo env sender who payload s)"
      using assms Some
      by (auto simp: synthesize_contact_echo_def contact_echo_frame_def slice_simps
          intro!: fx.goes_Some intro: fx.keeps_trans [OF keeps_broadcast_to_others keeps_store_message])
  qed
qed

lemma goes_channel_echo:
  assumes "8 \<le> length payload"
  shows "fx.goes s (synthesize_channel_echo env sender who payload s)"
proof (cases "radio_pubkey s")
  case None
  then show ?thesis by (simp add: synthesize_channel_echo_def fx.goes_Some)
next
  case (Some pk)
  show ?thesis
  proof (rule fx.goesI)
    assume "core_inv s"
    with Some have "length pk = 32" by (simp add: core_inv_defs)
    then show "fx.goes s (synthesize_channel_echo env sender who payload s)"
      using assms Some
      by (auto simp: synthesize_channel_echo_def channel_echo_frame_def slice_simps byte_at_def
          intro!: fx.goes_Some intro: fx.keeps_trans [OF keeps_broadcast_to_others keeps_store_message])
  qed
qed

section \<open>The cache\<close>

lemma keeps_cache_write: "(\<And>d. r = Inr d \<Longrightarrow> db_step (db s) d) \<Longrightarrow> fx.goes s (Some (write_db r s))"
  by (rule fx.goes_Some) (rule keeps_write_db)

text \<open>What is relied on of \<open>hex::encode\<close>: two characters per byte.\<close>

definition hex_ok :: "env \<Rightarrow> bool" where
  "hex_ok env \<longleftrightarrow> (\<forall>bs. length (hex env bs) = 2 * length bs)"

lemma decode_returns:
  assumes "hex_ok env" and "code \<noteq> 0x06" "code \<noteq> 0x10" "code \<noteq> 0x12"
  shows "\<exists>m. decode_response_payload (hex env) code p = Some m"
  using decode_response_panics_iff [of "hex env" code p] assms
  by (cases "decode_response_payload (hex env) code p") (auto simp: hex_ok_def)

lemma keeps_radio_name: "fx.keeps s (s\<lparr>radio_name := n\<rparr>)"
  by (rule keeps_same_db) (auto simp: core_inv_defs)

lemma keeps_radio_pubkey: "length pk = 32 \<Longrightarrow> fx.keeps s (s\<lparr>radio_pubkey := Some pk\<rparr>)"
  by (rule keeps_same_db) (auto simp: core_inv_defs)

lemma keeps_max_channels: "0 < n \<Longrightarrow> fx.keeps s (s\<lparr>max_channels := n\<rparr>)"
  by (rule keeps_same_db) (auto simp: core_inv_defs)

lemma keeps_blobs:
  "fx.keeps s (s\<lparr>self_info_raw := b\<rparr>)" "fx.keeps s (s\<lparr>device_info_raw := b\<rparr>)"
  "fx.keeps s (s\<lparr>battery_info_raw := b\<rparr>)"
  by (rule keeps_same_db; auto simp: core_inv_defs)+

lemma goes_extract_radio_identity:
  assumes "hex_ok env"
  shows "fx.goes s (extract_radio_identity env blob s)"
proof -
  obtain m where m: "decode_response_payload (hex env) 0x05 blob = Some m"
    using decode_returns [OF assms, of "0x05" blob] by auto
  show ?thesis
    unfolding extract_radio_identity_def
    by (rule fx.goes_bind)
      (auto simp: m slice_simps fx.goes_Some_iff keeps_radio_pubkey
        intro!: keeps_radio_name split: option.split decoded_value.split)
qed

lemma goes_extract_max_channels:
  assumes "hex_ok env"
  shows "fx.goes s (extract_max_channels env blob s)"
proof -
  obtain m where m: "decode_response_payload (hex env) 0x0D blob = Some m"
    using decode_returns [OF assms, of "0x0D" blob] by auto
  show ?thesis
    by (auto simp: extract_max_channels_def m Let_def fx.goes_Some_iff
        intro!: keeps_max_channels split: option.split decoded_value.split)
qed

lemma goes_cache_contact:
  assumes "148 \<le> length p"
  shows "fx.goes s (cache_contact env p s)"
proof -
  let ?f = "take 32 (drop 100 p)"
  have s: "slice p 100 132 = Some ?f" using assms by (simp add: slice_simps)
  have "(case position_nul ?f of Some n \<Rightarrow> n | None \<Rightarrow> 32) \<le> 32"
    by (auto split: option.split dest!: position_nul_Some)
  then obtain name where
    "slice ?f 0 (case position_nul ?f of Some n \<Rightarrow> n | None \<Rightarrow> 32) = Some name"
    using assms by (simp add: slice_simps)
  then show ?thesis
    using assms
    by (simp add: cache_contact_def s byte_at_def u32_at_def i32_at_def slice_simps Let_def
        CONTACT_FRAME_LEN_def fx.goes_Some_iff keeps_write_db db_step_upsert_contact)
qed

lemma goes_cache_contact_msg:
  assumes "hex_ok env"
  shows "fx.goes s (cache_contact_msg env p s)"
proof -
  obtain m where m: "decode_response_payload (hex env) 0x07 p = Some m"
    using decode_returns [OF assms, of "0x07" p] by auto
  show ?thesis
    by (auto simp: cache_contact_msg_def m slice_simps fx.goes_Some_iff keeps_store_message
        split: option.split)
qed

lemma goes_cache_channel_msg:
  assumes "hex_ok env"
  shows "fx.goes s (cache_channel_msg env p s)"
proof -
  obtain m where m: "decode_response_payload (hex env) 0x08 p = Some m"
    using decode_returns [OF assms, of "0x08" p] by auto
  show ?thesis
    by (auto simp: cache_channel_msg_def m fx.goes_Some_iff keeps_store_message split: option.split)
qed

lemma goes_cache_contact_msg_v3: "16 \<le> length p \<Longrightarrow> fx.goes s (cache_contact_msg_v3 env p s)"
  by (auto simp: cache_contact_msg_v3_def u32_at_def text_from_def slice_simps Let_def
      fx.goes_Some_iff keeps_store_message)

lemma goes_cache_channel_msg_v3: "11 \<le> length p \<Longrightarrow> fx.goes s (cache_channel_msg_v3 env p s)"
  by (auto simp: cache_channel_msg_v3_def byte_at_def u32_at_def text_from_def slice_simps
      fx.goes_Some_iff keeps_store_message)

lemma goes_cache_channel_info:
  assumes "50 \<le> length p"
  shows "fx.goes s (cache_channel_info env p s)"
proof -
  let ?f = "take 32 (drop 2 p)"
  have s: "slice p 2 34 = Some ?f" using assms by (simp add: slice_simps)
  have "(case position_nul ?f of Some n \<Rightarrow> n | None \<Rightarrow> 32) \<le> 32"
    by (auto split: option.split dest!: position_nul_Some)
  then obtain name where
    "slice p 2 (2 + (case position_nul ?f of Some n \<Rightarrow> n | None \<Rightarrow> 32)) = Some name"
    using assms by (simp add: slice_simps)
  then show ?thesis
    using assms
    by (simp add: cache_channel_info_def s byte_at_def slice_simps Let_def
        fx.goes_Some_iff keeps_write_db db_step_upsert_channel)
qed

lemma keeps_kv_set: "fx.keeps s (write_db (kv_set env k v (db s)) s)"
  by (rule keeps_write_db) (rule db_step_kv_set)

lemma goes_cache_response:
  assumes "hex_ok env"
  shows "fx.goes s (cache_response env code p s)"
proof -
  have e: "fx.goes s (Option.bind (f (write_db (kv_set env k p (db s)) s)) (\<lambda>t. Some (g t)))"
    if "\<And>s. fx.goes s (f s)" and "\<And>s. fx.keeps s (g s)" for f g k
    by (rule fx.goes_after [OF keeps_kv_set [of s env k p]], rule fx.goes_bind [OF that(1)])
      (simp add: fx.goes_Some_iff that(2))
  have "fx.keeps s ((write_db (kv_set env k p (db s)) s)\<lparr>battery_info_raw := b\<rparr>)" for k b
    by (rule fx.keeps_trans [OF keeps_kv_set keeps_blobs(3)])
  then show ?thesis
    unfolding cache_response_def Let_def CONTACT_FRAME_LEN_def
    by (simp add: goes_cache_contact goes_cache_contact_msg goes_cache_channel_msg assms
        goes_cache_contact_msg_v3 goes_cache_channel_msg_v3 goes_cache_channel_info
        fx.goes_Some_iff e goes_extract_radio_identity goes_extract_max_channels keeps_blobs)
qed

section \<open>Answers from the cache\<close>

lemma length_padded [simp]: "length (padded n bs) = n"
  by (simp add: padded_def)

lemma length_contact_frame [simp]: "length (contact_frame c) = 148"
  by (auto simp: contact_frame_def synthesize_contact_frame_def CONTACT_FRAME_LEN_def
      split: option.split)

lemma frame_lastmod_contact: "\<exists>t. frame_lastmod (contact_frame c) = Some t"
  by (simp add: frame_lastmod_def slice_simps)

lemma goes_send_contacts: "fx.goes s (map_option snd (send_contacts cid since cs recent s))"
proof (induction cs arbitrary: recent s)
  case (Cons c cs)
  obtain t where t: "frame_lastmod (contact_frame c) = Some t" using frame_lastmod_contact by auto
  have "fx.goes s (map_option snd (send_contacts cid since cs r (send_to_client cid (contact_frame c) s)))"
    for r by (rule fx.goes_after [OF keeps_send_to_client Cons.IH])
  then show ?case by (simp add: t Let_def Cons.IH)
qed (simp add: fx.goes_Some_iff)

lemma goes_respond_contacts: "fx.goes s (respond_contacts cid cs since s)"
  unfolding respond_contacts_def Let_def
  by (rule fx.goes_after [OF keeps_send_to_client], rule fx.goes_bind_value [OF goes_send_contacts])
    (simp add: fx.goes_Some_iff keeps_send_to_client)

lemma goes_serve_contacts: "fx.goes s (map_option snd (serve_contacts env cid payload s))"
  using goes_respond_contacts
  by (auto simp: serve_contacts_def fx.goes_Some_iff option.map_comp comp_def option.map_ident
      split: sum.split)

lemma goes_serve_channel: "fx.goes s (map_option snd (serve_channel env cid payload s))"
  by (auto simp: serve_channel_def byte_at_def slice_simps fx.goes_Some_iff respond_channel_info_def
      keeps_send_to_client split: sum.split option.split)

lemma goes_try_serve: "fx.goes s (map_option snd (try_serve_from_cache env code cmd s))"
  by (auto simp: try_serve_from_cache_def Let_def serve_blob_def goes_serve_contacts
      goes_serve_channel fx.goes_Some_iff keeps_send_to_client split: option.split)

section \<open>The queue\<close>

lemma keeps_push_queue: "queued_payload q \<noteq> [] \<Longrightarrow> fx.keeps s (push_queue q s)"
  by (rule keeps_same_db) (auto simp: push_queue_def core_inv_defs)

lemma keeps_pop_queue: "pending_queue s = q # rest \<Longrightarrow> fx.keeps s (s\<lparr>pending_queue := rest\<rparr>)"
  by (rule keeps_same_db) (auto simp: core_inv_defs)

lemma keeps_in_flight:
  "fx.keeps s (s\<lparr>in_flight := None\<rparr>)"
  "flight_payload f \<noteq> [] \<Longrightarrow> fx.keeps s (s\<lparr>in_flight := Some f\<rparr>)"
  by (rule keeps_same_db; auto simp: core_inv_defs)+

lemma keeps_forget_blobs:
  "fx.keeps s (s\<lparr>self_info_raw := None, device_info_raw := None, battery_info_raw := None\<rparr>)"
  by (rule keeps_same_db) (auto simp: core_inv_defs)

lemma goes_forward_effects: "fx.goes s (forward_effects env code p s)"
  by (auto simp: forward_effects_def slice_simps byte_at_def fx.goes_Some_iff keeps_forget_blobs
      keeps_write_db db_step_delete_contact db_step_delete_channel)

lemma new_flight_Some:
  "p \<noteq> [] \<Longrightarrow> \<exists>f. new_flight env c p s = Some f \<and> flight_payload f = p \<and> flight_client f = c"
  by (cases p) (auto simp: new_flight_def awaiting_for_def)

lemma goes_new_flight:
  assumes "p \<noteq> []"
  shows "fx.goes s (Option.bind (new_flight env c p s) (\<lambda>f. Some (s\<lparr>in_flight := Some f\<rparr>)))"
proof -
  obtain f where "new_flight env c p s = Some f" "flight_payload f = p"
    using new_flight_Some [OF assms, of env c s] by blast
  with assms show ?thesis by (simp add: fx.goes_Some_iff keeps_in_flight)
qed

lemma goes_dispatch:
  assumes "p \<noteq> []"
  shows "fx.goes s (dispatch_to_radio env c p s)"
proof -
  obtain code where code: "index p 0 = Some code" using assms by (cases p) auto
  show ?thesis
  proof (cases "send_to_radio p s")
    case (Inl e)
    then show ?thesis by (simp add: dispatch_to_radio_def code fx.goes_Some_iff keeps_send_opt)
  next
    case (Inr s1)
    have "fx.goes s1 (Option.bind (forward_effects env code p s1)
        (\<lambda>s2. Option.bind (new_flight env c p s2) (\<lambda>f. Some (s2\<lparr>in_flight := Some f\<rparr>))))"
      by (rule fx.goes_bind [OF goes_forward_effects goes_new_flight [OF assms]])
    with keeps_send_to_radio [OF Inr] show ?thesis
      by (simp add: dispatch_to_radio_def code Inr fx.goes_after)
  qed
qed

lemma goes_enqueue: "p \<noteq> [] \<Longrightarrow> fx.goes s (enqueue_or_dispatch env c p s)"
  by (simp add: enqueue_or_dispatch_def goes_dispatch fx.goes_Some_iff keeps_push_queue)

lemma goes_advance_queue: "fx.goes s (advance_queue env s)"
proof (induction env s rule: advance_queue.induct)
  case (1 env s)
  show ?case
  proof (cases "pending_queue s")
    case Nil
    then show ?thesis by (simp add: advance_queue.simps [of env s] fx.goes_Some_iff)
  next
    case (Cons q rest)
    let ?s1 = "s\<lparr>pending_queue := rest\<rparr>"
    have k: "fx.keeps s ?s1" by (rule keeps_pop_queue [OF Cons])
    show ?thesis
    proof (rule fx.goesI)
      assume "core_inv s"
      with Cons have q: "queued_payload q \<noteq> []" by (simp add: core_inv_defs)
      have "fx.goes ?s1 (if client_gone ?s1 q then advance_queue env ?s1
          else Option.bind (dispatch_to_radio env (queued_client q) (queued_payload q) ?s1)
            (\<lambda>s2. if in_flight s2 \<noteq> None then Some s2 else advance_queue env s2))"
        using "1.IH" [OF Cons refl]
        by (auto intro!: fx.goes_bind [OF goes_dispatch [OF q]] fx.goes_Some)
      with k show "fx.goes s (advance_queue env s)"
        by (simp add: advance_queue.simps [of env s] Cons Let_def fx.goes_after)
    qed
  qed
qed

lemma goes_advance_queue_sync: "fx.goes s (advance_queue_sync env s)"
proof (induction env s rule: advance_queue_sync.induct)
  case (1 env s)
  show ?case
  proof (cases "pending_queue s")
    case Nil
    then show ?thesis by (simp add: advance_queue_sync.simps [of env s] fx.goes_Some_iff)
  next
    case (Cons q rest)
    let ?s1 = "s\<lparr>pending_queue := rest\<rparr>"
    have k: "fx.keeps s ?s1" by (rule keeps_pop_queue [OF Cons])
    show ?thesis
    proof (rule fx.goesI)
      assume "core_inv s"
      with Cons have q: "queued_payload q \<noteq> []" by (simp add: core_inv_defs)
      have "fx.goes ?s1 (if client_gone ?s1 q then advance_queue_sync env ?s1
          else case send_to_radio (queued_payload q) ?s1 of
                 Inl NotConnected \<Rightarrow> Some ?s1
               | Inl SendFailed \<Rightarrow> Some (send_opt (queued_client q) error_frame ?s1)
               | Inr s2 \<Rightarrow> Option.bind (new_flight env (queued_client q) (queued_payload q) s2)
                   (\<lambda>f. Some (s2\<lparr>in_flight := Some f\<rparr>)))"
        using "1.IH" [OF Cons refl]
        by (auto split: sum.split radio_error.split intro: fx.goes_after keeps_send_to_radio
            goes_new_flight [OF q] simp: fx.goes_Some_iff keeps_send_opt)
      with k show "fx.goes s (advance_queue_sync env s)"
        by (simp add: advance_queue_sync.simps [of env s] Cons Let_def fx.goes_after)
    qed
  qed
qed

section \<open>Accepted commands and replies\<close>

lemma keeps_queue_contact_refresh: "fx.keeps s (queue_contact_refresh pk s)"
  by (simp add: queue_contact_refresh_def keeps_push_queue internal_def)

lemma goes_accepted_contacts:
  "flight_payload f \<noteq> [] \<Longrightarrow> fx.goes s (accepted_contacts env f cmd s)"
  by (cases "flight_payload f")
    (auto simp: accepted_contacts_def Let_def slice_simps fx.goes_Some_iff keeps_write_db
      db_step_set_contacts_synced_at keeps_queue_contact_refresh keeps_push_queue internal_def
      keeps_radio_name)

lemma goes_accepted_echo: "fx.goes s (accepted_echo env f cmd s)"
  by (auto simp: accepted_echo_def Let_def fx.goes_Some_iff goes_contact_echo goes_channel_echo
      split: option.split)

lemma goes_on_command_accepted:
  assumes "flight_payload f \<noteq> []"
  shows "fx.goes s (on_command_accepted env f s)"
proof -
  obtain cmd where cmd: "index (flight_payload f) 0 = Some cmd"
    using assms by (cases "flight_payload f") auto
  let ?s1 = "if cmd = 1 then case flight_client f of Some cid \<Rightarrow> notify_missed cid s | None \<Rightarrow> s else s"
  have "fx.keeps s ?s1" by (auto simp: keeps_notify_missed split: option.split)
  moreover have "fx.goes ?s1 (Option.bind (accepted_contacts env f cmd ?s1) (accepted_echo env f cmd))"
    by (rule fx.goes_bind [OF goes_accepted_contacts [OF assms] goes_accepted_echo])
  ultimately have "fx.goes s (Option.bind (accepted_contacts env f cmd ?s1) (accepted_echo env f cmd))"
    by (rule fx.goes_after)
  then show ?thesis by (simp add: on_command_accepted_def cmd Let_def)
qed

lemma keeps_record_ack: "fx.keeps s (record_ack env cid code p s)"
  by (rule keeps_same_db)
    (auto simp: record_ack_def core_inv_defs hm_simps split: option.splits)

lemma keeps_deliver_reply: "fx.keeps s (deliver_reply env c cmd code p s)"
  by (auto simp: deliver_reply_def Let_def keeps_broadcast_to_others
      intro: fx.keeps_trans [OF keeps_record_ack keeps_send_to_client]
        fx.keeps_trans [OF _ keeps_broadcast_to_others] split: option.split)

lemma map_snd_bind: "map_option snd (Option.bind m (\<lambda>x. Some (b, x))) = m"
  by (cases m) auto

lemma goes_try_route_to_in_flight:
  "fx.goes s (map_option snd (try_route_to_in_flight env code p s))"
proof (cases "in_flight s")
  case None
  then show ?thesis by (simp add: try_route_to_in_flight_def fx.goes_Some_iff)
next
  case (Some f)
  obtain matched ends where cl: "classify (awaiting_reply f) code = (matched, ends)" by fastforce
  show ?thesis
  proof (rule fx.goesI)
    assume "core_inv s"
    with Some have f: "flight_payload f \<noteq> []" by (simp add: core_inv_defs)
    then obtain cmd where cmd: "index (flight_payload f) 0 = Some cmd" by (cases "flight_payload f") auto
    let ?s1 = "deliver_reply env (flight_client f) cmd code p s"
    let ?t = "?s1\<lparr>in_flight := None\<rparr>"
    let ?tail = "if ends then Option.bind (if code \<noteq> 1 then on_command_accepted env f ?t else Some ?t)
          (advance_queue env) else Some (?s1\<lparr>in_flight := Some (f\<lparr>last_activity := instant_now env\<rparr>)\<rparr>)"
    have "fx.goes ?t (Option.bind (if code \<noteq> 1 then on_command_accepted env f ?t else Some ?t)
          (advance_queue env))"
      by (rule fx.goes_bind [OF _ goes_advance_queue])
        (simp add: goes_on_command_accepted [OF f] fx.goes_Some_iff)
    then have "fx.goes ?s1 ?tail"
      using f by (auto intro: fx.goes_after [OF keeps_in_flight(1)] simp: fx.goes_Some_iff keeps_in_flight)
    then have "fx.goes s ?tail" by (rule fx.goes_after [OF keeps_deliver_reply])
    then show "fx.goes s (map_option snd (try_route_to_in_flight env code p s))"
      by (auto simp: try_route_to_in_flight_def Some cl cmd Let_def fx.goes_Some_iff map_snd_bind
          simp del: Option.bind_assoc split: if_splits)
  qed
qed

lemma keeps_try_route_ack: "fx.keeps s (snd (try_route_ack code p s))"
proof -
  have "fx.keeps s (s\<lparr>pending_acks := hm_remove k (pending_acks s)\<rparr>)" for k
    by (rule keeps_same_db) (auto simp: core_inv_defs hm_simps)
  then show ?thesis
    by (auto simp: try_route_ack_def intro: fx.keeps_trans [OF _ keeps_send_to_client]
        split: option.split)
qed

lemma goes_check_timeout: "fx.goes s (check_in_flight_timeout env s)"
  by (auto simp: check_in_flight_timeout_def fx.goes_Some_iff split: option.split
      intro!: fx.goes_after [OF fx.keeps_trans [OF keeps_in_flight(1) keeps_send_opt] goes_advance_queue])

end
