(* ===== verification/Core_Safety.thy ===== *)
theory Core_Safety
  imports Core_Inv
begin

text \<open>
  The handlers of the \<open>Core\<close> actor: the invariant is preserved by every event, the queue
  never stalls, and a handler panics exactly when the event log decodes a frame whose decoder
  panics.
\<close>

section \<open>The event log\<close>

text \<open>The frames whose logging panics.\<close>

definition log_panics :: "core_config \<Rightarrow> string \<Rightarrow> u8 \<Rightarrow> frame \<Rightarrow> bool" where
  "log_panics cfg arrow code p \<longleftrightarrow> event_log_level cfg \<noteq> LogOff \<and>
     (if arrow = ''->'' then code = 0x04 \<and> 2 \<le> length p \<and> length p < 5
      else code = 0x06 \<and> length p = 9 \<or> code = 0x10 \<and> 13 \<le> length p \<and> length p < 16 \<or>
           code = 0x12 \<and> 3 \<le> length p \<and> length p < 34)"

lemma log_event_None_iff:
  assumes "hex_ok env"
  shows "log_event (hex env) cfg arrow code p = None \<longleftrightarrow> log_panics cfg arrow code p"
proof -
  have hx: "length (hex env bs) = 2 * length bs" for bs using assms by (simp add: hex_ok_def)
  show ?thesis
    using decode_command_panics_iff [of "hex env" code p] decode_response_panics_iff [of "hex env" code p]
    by (auto simp: log_event_def log_panics_def bind_None_iff Let_def hx)
qed

section \<open>Client commands\<close>

lemma keeps_note_version: "fx.keeps s (note_version cid code p s)"
  by (rule keeps_same_db) (auto simp: note_version_def core_inv_defs hm_simps)

text \<open>What \<open>handle_client_command\<close> does once the command is logged.\<close>

definition serve_command :: "env \<Rightarrow> client_command \<Rightarrow> u8 \<Rightarrow> core \<Rightarrow> core or_panic" where
  "serve_command env cmd code s =
     (let cid = command_client cmd; payload = command_payload cmd;
          s1 = (if code = 0x01 then register_session env cmd s else s);
          s2 = note_version cid code payload s1;
          (replayed, s3) = (if code = 0x0A then replay_next_missed env cid s2 else (False, s2))
      in if replayed then Some s3
         else do {
           (served, s4) \<leftarrow> try_serve_from_cache env code cmd s3;
           (if served then Some (if code = 0x01 then notify_missed cid s4 else s4)
            else enqueue_or_dispatch env (Some cid) (forwarded_payload code payload) s4) })"

lemma handle_client_command_eq:
  "handle_client_command env cmd s =
     (case command_payload cmd of
        [] \<Rightarrow> Some s
      | code # _ \<Rightarrow>
          if \<not> client_is_alive s (command_client cmd) then Some s
          else if log_event (hex env) (conf s) ''->'' code (command_payload cmd) = None then None
          else serve_command env cmd code s)"
  by (cases "command_payload cmd")
    (auto simp: handle_client_command_def serve_command_def Let_def split: prod.splits)

lemma goes_serve_command:
  assumes "command_payload cmd \<noteq> []"
  shows "fx.goes s (serve_command env cmd code s)"
proof -
  define s1 where "s1 = (if code = 0x01 then register_session env cmd s else s)"
  define s2 where "s2 = note_version (command_client cmd) code (command_payload cmd) s1"
  obtain replayed s3 where r:
    "(if code = 0x0A then replay_next_missed env (command_client cmd) s2 else (False, s2)) = (replayed, s3)"
    by fastforce
  have "fx.keeps s s1" by (simp add: s1_def keeps_register_session)
  also have "fx.keeps s1 s2" by (simp add: s2_def keeps_note_version)
  also have "fx.keeps s2 s3"
    using keeps_replay_next_missed [of s2 env "command_client cmd"] r by (auto split: if_splits)
  finally have k: "fx.keeps s s3" .
  have "fx.goes s3 (Option.bind (try_serve_from_cache env code cmd s3) (\<lambda>(served, s4).
      if served then Some (if code = 0x01 then notify_missed (command_client cmd) s4 else s4)
      else enqueue_or_dispatch env (Some (command_client cmd))
             (forwarded_payload code (command_payload cmd)) s4))"
    by (rule fx.goes_bind_value [OF goes_try_serve])
      (use assms in \<open>auto simp: fx.goes_Some_iff keeps_notify_missed forwarded_payload_def
        intro: goes_enqueue\<close>)
  from fx.goes_after [OF k this] k show ?thesis
    unfolding serve_command_def Let_def s1_def [symmetric] s2_def [symmetric] r
    by (simp add: fx.goes_Some)
qed

lemma goes_handle_client_command:
  assumes "hex_ok env" and "\<not> (\<exists>code rest. command_payload cmd = code # rest \<and>
    client_is_alive s (command_client cmd) \<and> log_panics (conf s) ''->'' code (command_payload cmd))"
  shows "fx.goes s (handle_client_command env cmd s)"
  using assms(2)
  by (cases "command_payload cmd")
    (auto simp: handle_client_command_eq fx.goes_Some_iff log_event_None_iff [OF assms(1)]
      intro: goes_serve_command)

section \<open>Frames from the radio\<close>

lemma keeps_broadcast: "fx.keeps s (broadcast p s)"
  by (rule keeps_same_db) (auto simp: broadcast_def core_inv_defs)

lemma goes_refresh_advertised: "fx.goes s (refresh_advertised env code p s)"
  by (auto simp: refresh_advertised_def slice_simps Let_def fx.goes_Some_iff
      keeps_queue_contact_refresh intro: fx.goes_after [OF keeps_queue_contact_refresh goes_advance_queue])

lemma keeps_record_raw: "fx.keeps s (record_raw env code p s)"
  by (simp add: record_raw_def keeps_write_db db_step_insert_raw_rx)

definition route_frame :: "env \<Rightarrow> u8 \<Rightarrow> frame \<Rightarrow> core \<Rightarrow> core or_panic" where
  "route_frame env code p s = do {
     (routed, s1) \<leftarrow> try_route_to_in_flight env code p s;
     (if routed then Some s1
      else let (acked, s2) = try_route_ack code p s1
        in if acked then Some s2
           else if is_push_event code then map_option (broadcast p) (refresh_advertised env code p s2)
           else Some s2) }"

lemma handle_radio_rx_eq:
  "handle_radio_rx env p s =
     (case p of
        [] \<Rightarrow> Some s
      | code # _ \<Rightarrow>
          if log_event (hex env) (conf s) ''<-'' code p = None then None
          else Option.bind (cache_response env code p s)
            (\<lambda>t. route_frame env code p (record_raw env code p t)))"
  by (cases p) (auto simp: handle_radio_rx_def route_frame_def Let_def)

lemma goes_route_frame: "fx.goes s (route_frame env code p s)"
  unfolding route_frame_def
proof (rule fx.goes_bind_value [OF goes_try_route_to_in_flight])
  fix routed t
  have k: "fx.keeps t (snd (try_route_ack code p t))" by (rule keeps_try_route_ack)
  have "fx.goes (snd (try_route_ack code p t))
      (map_option (broadcast p) (refresh_advertised env code p (snd (try_route_ack code p t))))"
    by (rule fx.goes_map [OF goes_refresh_advertised keeps_broadcast])
  from fx.goes_after [OF k this] k
  show "fx.goes t (case (routed, t) of (routed, s1) \<Rightarrow> if routed then Some s1
      else let (acked, s2) = try_route_ack code p s1 in if acked then Some s2
        else if is_push_event code then map_option (broadcast p) (refresh_advertised env code p s2)
        else Some s2)"
    by (simp add: split_def Let_def fx.goes_Some)
qed

lemma goes_handle_radio_rx:
  assumes "hex_ok env" and "\<not> (\<exists>code rest. p = code # rest \<and> log_panics (conf s) ''<-'' code p)"
  shows "fx.goes s (handle_radio_rx env p s)"
proof (cases p)
  case Nil
  then show ?thesis by (simp add: handle_radio_rx_def fx.goes_Some)
next
  case (Cons code rest)
  have "fx.goes s (Option.bind (cache_response env code p s)
      (\<lambda>t. route_frame env code p (record_raw env code p t)))"
    by (rule fx.goes_bind [OF goes_cache_response [OF assms(1)]])
      (rule fx.goes_after [OF keeps_record_raw goes_route_frame])
  moreover have "\<not> log_panics (conf s) ''<-'' code p" using assms(2) Cons by blast
  ultimately show ?thesis
    by (simp add: handle_radio_rx_eq Cons log_event_None_iff [OF assms(1)])
qed

section \<open>Maintenance\<close>

lemma goes_request_full_sync: "fx.goes s (request_full_sync env s)"
  by (auto simp: request_full_sync_def Let_def fx.goes_Some_iff keeps_push_queue internal_def
      intro: fx.goes_after [OF keeps_push_queue goes_advance_queue])

lemma core_inv_new_db:
  assumes "core_inv s" "store_inv d" "log_extends (db s) d"
  shows "core_inv (s\<lparr>db := d\<rparr>)"
  using assms by (auto simp: core_inv_defs intro: pending_ok_extends [of "db s"])

lemma run_maintenance_inv:
  assumes "core_inv s"
  shows "\<exists>t. run_maintenance env s = Some t \<and> core_inv t \<and> log_extends (db s) (db t) \<and> conf t = conf s"
proof -
  obtain s1 where s1: "request_full_sync env s = Some s1" "core_inv s1" "grows s s1"
    using goes_request_full_sync [of s env] assms by (auto simp: fx.goes_def)
  let ?d = "fst (maintain env (retention (conf s1)) (db s1))"
  have d: "store_inv ?d" "log_extends (db s1) ?d"
    using maintain_inv core_inv_store [OF s1(2)] by blast+
  have "core_inv (s1\<lparr>db := ?d\<rparr>)" by (rule core_inv_new_db [OF s1(2) d])
  moreover have "log_extends (db s) ?d"
    using log_extends_trans d(2) s1(3) by (auto simp: grows_def)
  ultimately show ?thesis
    using s1 by (simp add: run_maintenance_def grows_def)
qed

section \<open>The life cycle\<close>

text \<open>The warning about an unexpected frame panics on an empty one.\<close>

definition quiet :: "env \<Rightarrow> timed_events \<Rightarrow> bool" where
  "quiet env evs \<longleftrightarrow> (warn_enabled env \<longrightarrow> (\<forall>(t, ev) \<in> set evs. ev \<noteq> Received []))"

lemma warn_code_Some: "warn_code env p = Some () \<longleftrightarrow> (warn_enabled env \<longrightarrow> p \<noteq> [])"
  by (cases p) (auto simp: warn_code_def index_None_iff)

lemma quiet_Cons: "quiet env ((t, ev) # evs) \<longleftrightarrow> (warn_enabled env \<longrightarrow> ev \<noteq> Received []) \<and> quiet env evs"
  by (auto simp: quiet_def)

abbreviation core_after :: "'a \<times> 'b \<times> 'c \<times> core \<Rightarrow> core" where
  "core_after r \<equiv> snd (snd (snd r))"

lemma map_after_bind:
  "map_option core_after (Option.bind m (\<lambda>s1. Some (f s1, a, b, s1))) = m"
  by (cases m) auto

lemma goes_wait_for_self_info:
  "hex_ok env \<Longrightarrow> quiet env evs \<Longrightarrow>
   fx.goes s (map_option core_after (wait_for_self_info env deadline now evs s))"
proof (induction env deadline now evs s rule: wait_for_self_info.induct [case_names Nil Cons])
  case (Cons env deadline now t ev evs s)
  have c: "fx.goes s (cache_response env 0x05 p s)" for p
    by (rule goes_cache_response [OF Cons.prems(1)])
  show ?case
  proof (cases "deadline \<le> now")
    case False
    show ?thesis
    proof (cases ev)
      case (Received p)
      then have w: "warn_code env p = Some ()" using Cons.prems(2) by (simp add: quiet_Cons warn_code_Some)
      have "fx.goes s (map_option core_after (wait_for_self_info env deadline t evs s))"
        if "\<not> (p \<noteq> [] \<and> hd p = 0x05)"
        using Cons.IH [OF False Received that w] Cons.prems by (simp add: quiet_Cons)
      then show ?thesis
        using False Received c [of p] w
        by (cases "p = []") (simp_all add: map_after_bind fx.goes_Some_iff)
    qed (simp_all add: fx.goes_Some_iff)
  qed (simp add: fx.goes_Some_iff)
qed (simp add: fx.goes_Some_iff)

lemma goes_wait_for_device_info:
  "hex_ok env \<Longrightarrow> quiet env evs \<Longrightarrow>
   fx.goes s (map_option core_after (wait_for_device_info env deadline now evs s))"
proof (induction env deadline now evs s rule: wait_for_device_info.induct [case_names Nil Cons])
  case (Cons env deadline now t ev evs s)
  have c: "fx.goes s (cache_response env 0x0D p s)" for p
    by (rule goes_cache_response [OF Cons.prems(1)])
  show ?case
  proof (cases "deadline \<le> now")
    case False
    show ?thesis
    proof (cases ev)
      case (Received p)
      then have w: "warn_code env p = Some ()" using Cons.prems(2) by (simp add: quiet_Cons warn_code_Some)
      have "fx.goes s (map_option core_after (wait_for_device_info env deadline t evs s))"
        if "\<not> (p \<noteq> [] \<and> hd p = 0x0D)" "\<not> (p \<noteq> [] \<and> hd p = 0x01)"
        using Cons.IH [OF False Received that w] Cons.prems by (simp add: quiet_Cons)
      then show ?thesis
        using False Received c [of p] w
        by (cases "p = []") (simp_all add: map_after_bind fx.goes_Some_iff)
    qed (simp_all add: fx.goes_Some_iff)
  qed (simp add: fx.goes_Some_iff)
qed (simp add: fx.goes_Some_iff)

lemma wait_for_self_info_rest:
  "wait_for_self_info env deadline now evs s = Some (r, n, rest, t) \<Longrightarrow> set rest \<subseteq> set evs"
  by (induction env deadline now evs s rule: wait_for_self_info.induct)
    (auto simp: bind_eq_Some_conv split: if_splits wait_event.splits)

lemma quiet_subset: "quiet env evs \<Longrightarrow> set rest \<subseteq> set evs \<Longrightarrow> quiet env rest"
  by (auto simp: quiet_def)

lemma goes_initialize_radio:
  assumes "hex_ok env" and "quiet env evs"
  shows "fx.goes s (map_option snd (initialize_radio env evs s))"
proof (cases "send_to_radio build_appstart s")
  case (Inl e)
  then show ?thesis by (simp add: initialize_radio_def fx.goes_Some_iff)
next
  case (Inr s1)
  let ?w = "wait_for_self_info env (instant_now env + SELF_INFO_TIMEOUT) (instant_now env) evs s1"
  have d: "fx.goes t (map_option snd (Option.bind (wait_for_device_info env dl n rest t)
      (\<lambda>(r, n, rest, u). Some (r, u))))" if "quiet env rest" for dl n rest t
    using goes_wait_for_device_info [OF assms(1) that, of t dl n]
    by (cases "wait_for_device_info env dl n rest t") auto
  have "fx.goes s1 (map_option snd (initialize_radio env evs s))"
  proof (cases ?w)
    case None
    then show ?thesis
      using goes_wait_for_self_info [OF assms, of s1 "instant_now env + SELF_INFO_TIMEOUT" "instant_now env"]
      by (simp add: initialize_radio_def Inr)
  next
    case (Some w)
    obtain r n rest s2 where w: "w = (r, n, rest, s2)" by (cases w) auto
    have k: "fx.keeps s1 s2"
      using goes_wait_for_self_info [OF assms, of s1 "instant_now env + SELF_INFO_TIMEOUT" "instant_now env"]
      by (simp add: Some w fx.goes_Some_iff)
    have q: "quiet env rest" using quiet_subset [OF assms(2) wait_for_self_info_rest] Some w by blast
    have "fx.goes s2 (map_option snd (case send_to_radio [0x16, RADIO_PROTOCOL_VERSION] s2 of
        Inl e \<Rightarrow> Some (Failed (InitSendFailed e), s2)
      | Inr s3 \<Rightarrow> Option.bind (wait_for_device_info env (n + DEVICE_INFO_TIMEOUT) n rest s3)
          (\<lambda>(r, n, rest, u). Some (r, u))))"
      using d [OF q] by (auto simp: fx.goes_Some_iff split: sum.split
          intro: fx.goes_after [OF keeps_send_to_radio])
    from fx.goes_after [OF k this] k show ?thesis
      by (auto simp: initialize_radio_def Inr Some w fx.goes_Some_iff split: wait_outcome.split)
  qed
  with keeps_send_to_radio [OF Inr] show ?thesis by (rule fx.goes_after)
qed

lemma keeps_queue_sync: "fx.keeps s (queue_sync s)"
  by (rule keeps_same_db) (auto simp: queue_sync_def core_inv_defs internal_def)

lemma goes_sync_from_radio: "fx.goes s (sync_from_radio env s)"
  unfolding sync_from_radio_def Let_def
  by (simp add: fx.goes_after [OF keeps_queue_sync] goes_advance_queue_sync fx.goes_Some_iff)

lemma keeps_fail_all: "fx.keeps s (fail_all s)"
proof -
  define s1 where "s1 = (case in_flight s of None \<Rightarrow> s
    | Some f \<Rightarrow> send_opt (flight_client f) error_frame (s\<lparr>in_flight := None\<rparr>))"
  have "fx.keeps s s1"
    by (auto simp: s1_def intro: fx.keeps_trans [OF keeps_in_flight(1) keeps_send_opt] split: option.split)
  also have "fx.keeps s1 (fold (\<lambda>q. send_opt (queued_client q) error_frame) qs s1)" for qs
    by (rule fx.keeps_fold) (rule keeps_send_opt)
  also have "fx.keeps t (t\<lparr>pending_queue := []\<rparr>)" for t
    by (rule keeps_same_db) (auto simp: core_inv_defs)
  finally show ?thesis by (simp add: fail_all_def s1_def [symmetric])
qed

lemma keeps_link: "fx.keeps s (s\<lparr>radio_send_tx := x, radio_out := y\<rparr>)"
  "fx.keeps s (s\<lparr>radio_send_tx := x\<rparr>)" "fx.keeps s (s\<lparr>radio_up := u\<rparr>)"
  "fx.keeps s (s\<lparr>radio_send_tx := x, radio_up := u\<rparr>)"
  by (rule keeps_same_db; auto simp: core_inv_defs)+

lemma keeps_connect_backend: "connect_backend env dial s = Inr t \<Longrightarrow> fx.keeps s t"
  by (auto simp: connect_backend_def keeps_link split: sum.splits if_splits)

text \<open>The frames of every connection attempt are quiet.\<close>

definition quiet_attempts :: "attempt list \<Rightarrow> bool" where
  "quiet_attempts as \<longleftrightarrow>
     (\<forall>a \<in> set as. case a of ShutdownFirst \<Rightarrow> True | Dial env d evs \<Rightarrow> hex_ok env \<and> quiet env evs)"

lemma map_option_bind: "map_option g (Option.bind m f) = Option.bind m (\<lambda>x. map_option g (f x))"
  by (cases m) auto

lemma map_snd_delay:
  "map_option (snd \<circ> snd) (map_option (\<lambda>(r, ds, t). (r, f ds, t)) m) = map_option (snd \<circ> snd) m"
  by (cases m) auto

lemma goes_up:
  "fx.goes s (map_option (snd \<circ> snd) (Option.bind (sync_from_radio env s)
     (\<lambda>t. Some (r, d, t\<lparr>radio_up := True\<rparr>))))"
  using fx.goes_map [OF goes_sync_from_radio [of s env] keeps_link(3) [where u = True]]
  by (cases "sync_from_radio env s") auto

lemma goes_reconnect_loop:
  "quiet_attempts as \<Longrightarrow>
   fx.goes s (map_option (snd \<circ> snd) (reconnect_loop delay as s))"
proof (induction delay as s rule: reconnect_loop.induct [case_names Nil Stop Dial])
  case (Dial delay env dial evs later s)
  have q: "hex_ok env" "quiet env evs" and later: "quiet_attempts later"
    using Dial.prems by (auto simp: quiet_attempts_def)
  let ?again = "\<lambda>s. map_option (\<lambda>(r, ds, t). (r, delay # ds, t))
    (reconnect_loop (min (delay * 2) max_delay) later s)"
  show ?case
  proof (cases "connect_backend env dial s")
    case (Inl e)
    then show ?thesis
      using Dial.IH [OF later] by (simp add: map_snd_delay [unfolded comp_def] comp_def)
  next
    case (Inr s1)
    have "fx.goes s1 (Option.bind (initialize_radio env evs s1) (\<lambda>x. map_option (snd \<circ> snd) (case x of (r, s2) \<Rightarrow>
        case r of Ready \<Rightarrow> Option.bind (sync_from_radio (at_end env evs) s2)
                    (\<lambda>s3. Some (Reconnected, [delay], s3\<lparr>radio_up := True\<rparr>))
        | Failed e \<Rightarrow> ?again (s2\<lparr>radio_send_tx := None\<rparr>)
        | Waiting \<Rightarrow> Some (StillTrying, [delay], s2))))"
    proof (rule fx.goes_bind_value [OF goes_initialize_radio [OF q]])
      fix r s2
      have "fx.goes s2 (map_option (snd \<circ> snd) (?again (s2\<lparr>radio_send_tx := None\<rparr>)))"
        unfolding map_snd_delay by (rule fx.goes_after [OF keeps_link(2) Dial.IH [OF later]])
      then show "fx.goes s2 (map_option (snd \<circ> snd) (case (r, s2) of (r, s2) \<Rightarrow>
        case r of Ready \<Rightarrow> Option.bind (sync_from_radio (at_end env evs) s2)
                    (\<lambda>s3. Some (Reconnected, [delay], s3\<lparr>radio_up := True\<rparr>))
        | Failed e \<Rightarrow> ?again (s2\<lparr>radio_send_tx := None\<rparr>)
        | Waiting \<Rightarrow> Some (StillTrying, [delay], s2)))"
        using goes_up [of s2 "at_end env evs" Reconnected "[delay]"]
        by (auto simp: fx.goes_Some_iff split: wait_outcome.split)
    qed
    from fx.goes_after [OF keeps_connect_backend [OF Inr] this] show ?thesis
      by (simp add: Inr Let_def map_option_bind comp_def)
  qed
qed (simp_all add: fx.goes_Some_iff)

lemma goes_reconnect_radio:
  assumes "quiet_attempts as"
  shows "fx.goes s (map_option (snd \<circ> snd) (reconnect_radio as s))"
  unfolding reconnect_radio_def
  by (rule fx.goes_after [OF fx.keeps_trans [OF keeps_link(4) keeps_fail_all] goes_reconnect_loop])
    (rule assms)+

lemma goes_restore_blobs:
  assumes "hex_ok env"
  shows "fx.goes s (restore_blobs env s)"
  unfolding restore_blobs_def
proof (rule fx.goes_bind)
  show "fx.goes s (case (self_info_raw s, kv_blob env ''self_info_raw'' s) of
      (None, Some b) \<Rightarrow> map_option (\<lambda>t. t\<lparr>self_info_raw := Some b\<rparr>) (extract_radio_identity env b s)
    | _ \<Rightarrow> Some s)"
    by (auto simp: fx.goes_Some_iff split: option.split
        intro: fx.goes_map [OF goes_extract_radio_identity [OF assms] keeps_blobs(1)])
  fix s1
  show "fx.goes s1 (Option.bind (case (device_info_raw s1, kv_blob env ''device_info_raw'' s1) of
      (None, Some b) \<Rightarrow> map_option (\<lambda>t. t\<lparr>device_info_raw := Some b\<rparr>) (extract_max_channels env b s1)
    | _ \<Rightarrow> Some s1)
    (\<lambda>s2. Some (case (battery_info_raw s2, kv_blob env ''battery_info_raw'' s2) of
         (None, Some b) \<Rightarrow> s2\<lparr>battery_info_raw := Some b\<rparr> | _ \<Rightarrow> s2)))"
  proof (rule fx.goes_bind)
    show "fx.goes s1 (case (device_info_raw s1, kv_blob env ''device_info_raw'' s1) of
        (None, Some b) \<Rightarrow> map_option (\<lambda>t. t\<lparr>device_info_raw := Some b\<rparr>) (extract_max_channels env b s1)
      | _ \<Rightarrow> Some s1)"
      by (auto simp: fx.goes_Some_iff split: option.split
          intro: fx.goes_map [OF goes_extract_max_channels [OF assms] keeps_blobs(2)])
  qed (auto simp: fx.goes_Some_iff keeps_blobs split: option.split)
qed

lemma keeps_clients:
  "fx.keeps s (client_connected cid s)" "fx.keeps s (client_disconnected cid s)"
  "fx.keeps s (radio_channel_closed s)" "fx.keeps s (shutdown s)"
  by (rule keeps_same_db;
      auto simp: client_connected_def client_disconnected_def radio_channel_closed_def shutdown_def
        core_inv_defs hm_simps)+

lemma core_inv_new:
  assumes "store_inv d"
  shows "core_inv (new_core cfg d)"
  using assms db_step_migrate [of d]
  by (simp add: new_core_def core_inv_defs db_step_def hm_simps)

section \<open>The events\<close>

text \<open>The inputs on which an event panics.\<close>

fun event_panics :: "env \<Rightarrow> core_event \<Rightarrow> core \<Rightarrow> bool" where
  "event_panics env (ClientCommandEvent cmd) s \<longleftrightarrow>
     (case command_payload cmd of [] \<Rightarrow> False
      | code # _ \<Rightarrow> client_is_alive s (command_client cmd) \<and>
          log_panics (conf s) ''->'' code (command_payload cmd))"
| "event_panics env (RadioFrame p) s \<longleftrightarrow>
     (case p of [] \<Rightarrow> False | code # _ \<Rightarrow> log_panics (conf s) ''<-'' code p)"
| "event_panics env (RadioLost as) s \<longleftrightarrow> \<not> quiet_attempts as"
| "event_panics env ev s \<longleftrightarrow> False"

lemma handle_event_inv:
  assumes "hex_ok env" and "core_inv s" and "\<not> event_panics env ev s"
  shows "\<exists>t. handle_event env ev s = Some t \<and> core_inv t \<and> log_extends (db s) (db t) \<and> conf t = conf s \<and>
    (ev \<noteq> MaintenanceTick \<longrightarrow> cursors.not_behind (db s) (db t))"
proof (cases "ev = MaintenanceTick")
  case True
  then show ?thesis using run_maintenance_inv [OF assms(2)] by simp
next
  case False
  have "fx.goes s (handle_event env ev s)"
  proof (cases ev)
    case (ClientCommandEvent cmd)
    then show ?thesis
      using assms(3) by (auto intro!: goes_handle_client_command [OF assms(1)])
  next
    case (RadioFrame p)
    then show ?thesis using assms(3) by (auto intro!: goes_handle_radio_rx [OF assms(1)])
  next
    case (RadioLost as)
    then have "quiet_attempts as" using assms(3) by simp
    from goes_reconnect_radio [OF this, of s]
    have "fx.goes s (map_option (\<lambda>(r, ds, t). t) (reconnect_radio as s))"
      by (simp add: comp_def split_def)
    then show ?thesis by (simp add: RadioLost)
  qed (use False in \<open>simp_all add: fx.goes_Some_iff keeps_clients goes_check_timeout\<close>)
  with assms(2) show ?thesis by (auto simp: fx.goes_def grows_def)
qed

section \<open>The startup\<close>

lemma goes_retry:
  assumes "quiet_attempts as"
  shows "fx.goes s (map_option snd (map_option (\<lambda>(r, ds, t). (r, t)) (reconnect_radio as s)))"
  using goes_reconnect_radio [OF assms, of s] by (simp add: option.map_comp comp_def split_def)

lemma goes_start_radio:
  assumes "hex_ok env" and "quiet env evs" and "quiet_attempts as"
  shows "fx.goes s (map_option snd (start_radio env dial evs as s))"
proof (cases "connect_backend env dial s")
  case (Inl e)
  then show ?thesis using goes_retry [OF assms(3), of s] by (simp add: start_radio_def Let_def)
next
  case (Inr s1)
  have "fx.goes s1 (Option.bind (initialize_radio env evs s1) (\<lambda>x. map_option snd (case x of (r, s2) \<Rightarrow>
      case r of Ready \<Rightarrow> Option.bind (sync_from_radio (at_end env evs) s2)
                  (\<lambda>s3. Some (Reconnected, s3\<lparr>radio_up := True\<rparr>))
      | Failed e \<Rightarrow> map_option (\<lambda>(r, ds, t). (r, t)) (reconnect_radio as (s2\<lparr>radio_send_tx := None\<rparr>))
      | Waiting \<Rightarrow> Some (StillTrying, s2))))"
  proof (rule fx.goes_bind_value [OF goes_initialize_radio [OF assms(1,2)]])
    fix r s2
    have "fx.goes s2 (map_option snd (map_option (\<lambda>(r, ds, t). (r, t))
        (reconnect_radio as (s2\<lparr>radio_send_tx := None\<rparr>))))"
      by (rule fx.goes_after [OF keeps_link(2) goes_retry [OF assms(3)]])
    moreover have "fx.goes s2 (map_option snd (Option.bind (sync_from_radio (at_end env evs) s2)
        (\<lambda>s3. Some (Reconnected, s3\<lparr>radio_up := True\<rparr>))))"
      using fx.goes_map [OF goes_sync_from_radio [of s2 "at_end env evs"] keeps_link(3) [where u = True]]
      by (cases "sync_from_radio (at_end env evs) s2") auto
    ultimately show "fx.goes s2 (map_option snd (case (r, s2) of (r, s2) \<Rightarrow>
      case r of Ready \<Rightarrow> Option.bind (sync_from_radio (at_end env evs) s2)
                  (\<lambda>s3. Some (Reconnected, s3\<lparr>radio_up := True\<rparr>))
      | Failed e \<Rightarrow> map_option (\<lambda>(r, ds, t). (r, t)) (reconnect_radio as (s2\<lparr>radio_send_tx := None\<rparr>))
      | Waiting \<Rightarrow> Some (StillTrying, s2)))"
      by (cases r) (simp_all add: fx.goes_Some_iff)
  qed
  from fx.goes_after [OF keeps_connect_backend [OF Inr] this] show ?thesis
    by (simp add: start_radio_def Inr Let_def map_option_bind)
qed

lemma goes_startup:
  assumes "hex_ok env" and "quiet env evs" and "quiet_attempts as"
  shows "fx.goes s (map_option snd (startup env dial evs as s))"
proof -
  have "fx.goes s (Option.bind (start_radio env dial evs as s) (\<lambda>x. map_option snd (case x of (r, s1) \<Rightarrow>
      if r = StillTrying then Some (r, s1) else map_option (Pair r) (restore_blobs env s1))))"
  proof (rule fx.goes_bind_value [OF goes_start_radio [OF assms]])
    fix r s1
    show "fx.goes s1 (map_option snd (case (r, s1) of (r, s1) \<Rightarrow>
      if r = StillTrying then Some (r, s1) else map_option (Pair r) (restore_blobs env s1)))"
      using goes_restore_blobs [OF assms(1), of s1]
      by (simp add: fx.goes_Some_iff option.map_comp comp_def option.map_ident)
  qed
  then show ?thesis by (simp add: startup_def map_option_bind)
qed

end
