(* ===== verification/Core_Serial.thy ===== *)
theory Core_Serial
  imports Core_Safety
begin

text \<open>
  The serialized radio queue: one request in flight, the others waiting in order. An operation
  either leaves the link (the radio's channel, the request in flight, the queue) alone or moves
  the queue on, so a request waits only while another one is in flight.
\<close>

section \<open>What leaves the link alone\<close>

text \<open>The link together with the commands sent so far.\<close>

definition wire :: "core \<Rightarrow> (channel_end option \<times> in_flight_request option \<times> queued list) \<times> frame list" where
  "wire s = ((radio_send_tx s, in_flight s, pending_queue s), radio_out s)"

definition link :: "core \<Rightarrow> channel_end option \<times> in_flight_request option \<times> queued list" where
  "link s = (radio_send_tx s, in_flight s, pending_queue s)"

lemma wire_link: "wire t = wire s \<Longrightarrow> link t = link s"
  by (simp add: wire_def link_def)

lemma wire_simps [simp]:
  "wire (send_to_client cid p s) = wire s"
  "wire (broadcast_to_others c p s) = wire s"
  "wire (write_db r s) = wire s"
  "wire (send_opt c p s) = wire s"
  "wire (notify_missed cid s) = wire s"
  "wire (record_ack env cid code p s) = wire s"
  "wire (broadcast p s) = wire s"
  by (auto simp: wire_def send_to_client_def broadcast_to_others_def write_db_def send_opt_def
      notify_missed_def record_ack_def broadcast_def split: option.split sum.split)

lemma wire_updates [simp]:
  "wire (s\<lparr>db := d\<rparr>) = wire s" "wire (s\<lparr>sessions := x1\<rparr>) = wire s"
  "wire (s\<lparr>protocol_versions := x2\<rparr>) = wire s" "wire (s\<lparr>pending_acks := x3\<rparr>) = wire s"
  "wire (s\<lparr>self_info_raw := b1\<rparr>) = wire s" "wire (s\<lparr>device_info_raw := b2\<rparr>) = wire s"
  "wire (s\<lparr>battery_info_raw := b3\<rparr>) = wire s" "wire (s\<lparr>radio_pubkey := b4\<rparr>) = wire s"
  "wire (s\<lparr>radio_name := b5\<rparr>) = wire s" "wire (s\<lparr>max_channels := b6\<rparr>) = wire s"
  "wire (s\<lparr>client_channels := b7\<rparr>) = wire s" "wire (s\<lparr>radio_up := b8\<rparr>) = wire s"
  by (simp_all add: wire_def)

lemma wire_identities [simp]:
  "wire (advance_identity env i who s) = wire s"
  "wire (drop_disconnected s) = wire s"
  "wire (note_version cid code p s) = wire s"
  "wire (record_raw env code p s) = wire s"
  by (simp_all add: advance_identity_def drop_disconnected_def note_version_def record_raw_def)

lemma fold_same: "(\<And>x t. g (f x t) = g t) \<Longrightarrow> g (fold f xs s) = g s"
  by (induction xs arbitrary: s) auto

lemma wire_store_message [simp]: "wire (store_message env m s) = wire s"
  by (auto simp: store_message_def follow_head_def Let_def fold_same split: sum.split prod.split)

lemma wire_register_session [simp]: "wire (register_session env cmd s) = wire s"
  by (simp add: register_session_def Let_def)

lemma wire_replay [simp]: "wire (snd (replay_next_missed env cid s)) = wire s"
  by (auto simp: replay_next_missed_def Let_def set_pending_def split: option.split sum.split prod.split)

lemma wire_echo:
  "synthesize_contact_echo env sender who p s = Some t \<Longrightarrow> wire t = wire s"
  "synthesize_channel_echo env sender who p s = Some t \<Longrightarrow> wire t = wire s"
  by (auto simp: synthesize_contact_echo_def synthesize_channel_echo_def bind_eq_Some_conv
      split: option.splits)

text \<open>Caching changes only the cache: \<open>face\<close> is what the other parts see of the actor.\<close>

definition face ::
  "core \<Rightarrow> ((channel_end option \<times> in_flight_request option \<times> queued list) \<times> frame list) \<times>
     (client_id, frame list) hmap \<times> frame list \<times> bool" where
  "face s = (wire s, client_channels s, broadcast_out s, radio_up s)"

lemma face_wire: "face t = face s \<Longrightarrow> wire t = wire s"
  by (simp add: face_def)

lemma face_simps [simp]:
  "face (write_db r s) = face s" "face (s\<lparr>db := d\<rparr>) = face s"
  "face (s\<lparr>self_info_raw := b1\<rparr>) = face s" "face (s\<lparr>device_info_raw := b2\<rparr>) = face s"
  "face (s\<lparr>battery_info_raw := b3\<rparr>) = face s" "face (s\<lparr>radio_pubkey := b4\<rparr>) = face s"
  "face (s\<lparr>radio_name := b5\<rparr>) = face s" "face (s\<lparr>max_channels := b6\<rparr>) = face s"
  "face (advance_identity env i who s) = face s" "face (drop_disconnected s) = face s"
  "face (record_raw env code p s) = face s"
  by (auto simp: face_def write_db_def advance_identity_def drop_disconnected_def record_raw_def
      split: sum.split)

lemma face_store_message [simp]: "face (store_message env m s) = face s"
  by (auto simp: store_message_def follow_head_def Let_def fold_same split: sum.split prod.split)

lemma face_extract:
  "extract_radio_identity env b s = Some t \<Longrightarrow> face t = face s"
  "extract_max_channels env b s = Some t \<Longrightarrow> face t = face s"
  by (auto simp: extract_radio_identity_def extract_max_channels_def bind_eq_Some_conv Let_def
      split: option.split decoded_value.split if_splits)

lemma face_cache_parts:
  "cache_contact env p s = Some t \<Longrightarrow> face t = face s"
  "cache_contact_msg env p s = Some t \<Longrightarrow> face t = face s"
  "cache_channel_msg env p s = Some t \<Longrightarrow> face t = face s"
  "cache_contact_msg_v3 env p s = Some t \<Longrightarrow> face t = face s"
  "cache_channel_msg_v3 env p s = Some t \<Longrightarrow> face t = face s"
  "cache_channel_info env p s = Some t \<Longrightarrow> face t = face s"
  by (auto simp: cache_contact_def cache_contact_msg_def cache_channel_msg_def
      cache_contact_msg_v3_def cache_channel_msg_v3_def cache_channel_info_def Let_def
      bind_eq_Some_conv split: option.splits if_splits)

lemma face_cache_response: "cache_response env code p s = Some t \<Longrightarrow> face t = face s"
  by (auto simp: cache_response_def Let_def bind_eq_Some_conv split: if_splits
      dest: face_cache_parts face_extract)

lemmas wire_cache_response = face_cache_response [THEN face_wire]
lemmas wire_extract = face_extract [THEN face_wire]

lemma wire_send_contacts: "send_contacts cid since cs r s = Some (n, t) \<Longrightarrow> wire t = wire s"
  by (induction cid since cs r s rule: send_contacts.induct)
    (auto simp: Let_def bind_eq_Some_conv split: if_splits)

lemma wire_respond_contacts: "respond_contacts cid cs since s = Some t \<Longrightarrow> wire t = wire s"
  by (auto simp: respond_contacts_def Let_def bind_eq_Some_conv dest!: wire_send_contacts)

lemma wire_serve_contacts: "serve_contacts env cid p s = Some r \<Longrightarrow> wire (snd r) = wire s"
  by (auto simp: serve_contacts_def wire_respond_contacts split: sum.splits if_splits)

lemma wire_serve_channel: "serve_channel env cid p s = Some r \<Longrightarrow> wire (snd r) = wire s"
  by (auto simp: serve_channel_def respond_channel_info_def bind_eq_Some_conv
      split: sum.split option.split)

lemma wire_try_serve: "try_serve_from_cache env code cmd s = Some r \<Longrightarrow> wire (snd r) = wire s"
  by (auto simp: try_serve_from_cache_def Let_def serve_blob_def wire_serve_contacts
      wire_serve_channel split: option.splits if_splits)

lemma wire_forward_effects: "forward_effects env code p s = Some t \<Longrightarrow> wire t = wire s"
  by (auto simp: forward_effects_def bind_eq_Some_conv split: if_splits)

lemma wire_deliver_reply [simp]: "wire (deliver_reply env c cmd code p s) = wire s"
  by (simp add: deliver_reply_def Let_def split: option.split)

lemma wire_try_route_ack [simp]: "wire (snd (try_route_ack code p s)) = wire s"
  by (simp add: try_route_ack_def split: option.split)

lemma link_simps [simp]:
  "link (send_opt c p s) = link s" "link (notify_missed cid s) = link s"
  "link (snd (replay_next_missed env cid s)) = link s"
  "link (note_version cid code p s) = link s" "link (register_session env cmd s) = link s"
  "link (record_raw env code p s) = link s" "link (deliver_reply env c k code p s) = link s"
  "link (snd (try_route_ack code p s)) = link s"
  by (rule wire_link, simp)+

lemma link_updates [simp]:
  "link (s\<lparr>db := d\<rparr>) = link s" "link (s\<lparr>radio_out := x\<rparr>) = link s" "link (s\<lparr>radio_up := u\<rparr>) = link s"
  "link (s\<lparr>self_info_raw := b\<rparr>) = link s" "link (s\<lparr>device_info_raw := b\<rparr>) = link s"
  "link (s\<lparr>battery_info_raw := b\<rparr>) = link s"
  by (simp_all add: link_def)

lemmas link_try_serve = wire_try_serve [THEN wire_link]
lemmas link_cache_response = wire_cache_response [THEN wire_link]
lemmas link_extract = wire_extract [THEN wire_link]

section \<open>Dispatching and advancing\<close>

text \<open>The radio is idle only when nothing is queued.\<close>

definition never_stalls :: "core \<Rightarrow> bool" where
  "never_stalls s \<longleftrightarrow> (in_flight s = None \<longrightarrow> pending_queue s = [])"

lemma never_stalls_link: "link t = link s \<Longrightarrow> never_stalls t \<longleftrightarrow> never_stalls s"
  by (simp add: link_def never_stalls_def)

lemma advance_queue_Nil: "pending_queue s = [] \<Longrightarrow> advance_queue env s = Some s"
  by (simp add: advance_queue.simps [of env s])

lemma advance_queue_Cons:
  "pending_queue s = q # rest \<Longrightarrow> advance_queue env s =
    (let s1 = s\<lparr>pending_queue := rest\<rparr>
     in if client_gone s1 q then advance_queue env s1
        else Option.bind (dispatch_to_radio env (queued_client q) (queued_payload q) s1)
          (\<lambda>s2. if in_flight s2 \<noteq> None then Some s2 else advance_queue env s2))"
  by (simp add: advance_queue.simps [of env s])

text \<open>Induction along the run of \<open>advance_queue\<close>: what holds of the states it stops in.\<close>

lemma advance_queue_induct [consumes 1, case_names Nil Gone Sent Failed]:
  assumes "advance_queue env s = Some t"
    and "\<And>s. pending_queue s = [] \<Longrightarrow> P s s"
    and "\<And>s q rest t. pending_queue s = q # rest \<Longrightarrow> client_gone (s\<lparr>pending_queue := rest\<rparr>) q \<Longrightarrow>
      P (s\<lparr>pending_queue := rest\<rparr>) t \<Longrightarrow> P s t"
    and "\<And>s q rest t. pending_queue s = q # rest \<Longrightarrow> \<not> client_gone (s\<lparr>pending_queue := rest\<rparr>) q \<Longrightarrow>
      dispatch_to_radio env (queued_client q) (queued_payload q) (s\<lparr>pending_queue := rest\<rparr>) = Some t \<Longrightarrow>
      in_flight t \<noteq> None \<Longrightarrow> P s t"
    and "\<And>s q rest s2 t. pending_queue s = q # rest \<Longrightarrow> \<not> client_gone (s\<lparr>pending_queue := rest\<rparr>) q \<Longrightarrow>
      dispatch_to_radio env (queued_client q) (queued_payload q) (s\<lparr>pending_queue := rest\<rparr>) = Some s2 \<Longrightarrow>
      in_flight s2 = None \<Longrightarrow> P s2 t \<Longrightarrow> P s t"
  shows "P s t"
  using assms(1)
proof (induction "length (pending_queue s)" arbitrary: s rule: less_induct)
  case less
  show ?case
  proof (cases "pending_queue s")
    case Nil
    then show ?thesis using less.prems assms(2) by (simp add: advance_queue_Nil)
  next
    case (Cons q rest)
    let ?s1 = "s\<lparr>pending_queue := rest\<rparr>"
    show ?thesis
    proof (cases "client_gone ?s1 q")
      case True
      then show ?thesis
        using less.prems less.hyps [of ?s1] assms(3) Cons
        by (simp add: advance_queue_Cons [OF Cons] Let_def)
    next
      case False
      then obtain s2 where s2:
        "dispatch_to_radio env (queued_client q) (queued_payload q) ?s1 = Some s2"
        and t: "(if in_flight s2 \<noteq> None then Some s2 else advance_queue env s2) = Some t"
        using less.prems by (auto simp: advance_queue_Cons [OF Cons] Let_def bind_eq_Some_conv)
      have "pending_queue s2 = rest" using dispatch_to_radio_queue [OF s2] by simp
      with t less.hyps [of s2] Cons False s2 assms(4,5) show ?thesis
        by (cases "in_flight s2 = None") auto
    qed
  qed
qed

text \<open>The induction the synchronization's queue advance follows: an entry is skipped, or it is the last
  one looked at.\<close>

lemma advance_sync_induct [consumes 1, case_names Nil Gone Unsent Sent]:
  assumes "advance_queue_sync env s = Some t"
    and "\<And>s. pending_queue s = [] \<Longrightarrow> P s s"
    and "\<And>s q rest t. pending_queue s = q # rest \<Longrightarrow> P (s\<lparr>pending_queue := rest\<rparr>) t \<Longrightarrow> P s t"
    and "\<And>s q rest c. pending_queue s = q # rest \<Longrightarrow>
      P s (send_opt c error_frame (s\<lparr>pending_queue := rest\<rparr>))"
    and "\<And>s q rest f. pending_queue s = q # rest \<Longrightarrow> radio_send_tx s = Some Open \<Longrightarrow>
      flight_client f = queued_client q \<Longrightarrow> flight_payload f = queued_payload q \<Longrightarrow>
      awaiting_for (queued_payload q) = Some (awaiting_reply f) \<Longrightarrow>
      P s (s\<lparr>pending_queue := rest, radio_out := radio_out s @ [queued_payload q], in_flight := Some f\<rparr>)"
  shows "P s t"
  using assms(1)
proof (induction env s arbitrary: t rule: advance_queue_sync.induct)
  case (1 env s)
  show ?case
  proof (cases "pending_queue s")
    case Nil
    then show ?thesis using 1(2) assms(2) by (simp add: advance_queue_sync.simps [of env s])
  next
    case (Cons q rest)
    let ?s1 = "s\<lparr>pending_queue := rest\<rparr>"
    show ?thesis
    proof (cases "client_gone ?s1 q")
      case True
      then have "advance_queue_sync env ?s1 = Some t"
        using 1(2) Cons by (simp add: advance_queue_sync.simps [of env s] Let_def)
      then show ?thesis using 1(1) [OF Cons refl True] assms(3) [OF Cons] by blast
    next
      case False
      then have r: "(case send_to_radio (queued_payload q) ?s1 of
            Inl NotConnected \<Rightarrow> Some ?s1
          | Inl SendFailed \<Rightarrow> Some (send_opt (queued_client q) error_frame ?s1)
          | Inr s2 \<Rightarrow> Option.bind (new_flight env (queued_client q) (queued_payload q) s2)
              (\<lambda>f. Some (s2\<lparr>in_flight := Some f\<rparr>))) = Some t"
        using 1(2) Cons by (simp add: advance_queue_sync.simps [of env s] Let_def)
      have "P s ?s1" using assms(4) [OF Cons, of None] by (simp add: send_opt_def)
      then show ?thesis
        using r assms(4,5) [OF Cons]
        by (auto simp: send_to_radio_def new_flight_def bind_eq_Some_conv
            split: option.splits channel_end.splits)
    qed
  qed
qed

lemma advance_queue_never_stalls: "advance_queue env s = Some t \<Longrightarrow> never_stalls t"
  by (induction s t rule: advance_queue_induct) (auto simp: never_stalls_def)

lemma enqueue_never_stalls:
  assumes "never_stalls s" and "enqueue_or_dispatch env c p s = Some t"
  shows "never_stalls t"
  using assms dispatch_to_radio_queue [of env c p s t]
  by (auto simp: enqueue_or_dispatch_def never_stalls_def push_queue_def split: if_splits)

lemma client_command_never_stalls:
  assumes "never_stalls s" and "handle_client_command env cmd s = Some t"
  shows "never_stalls t"
proof -
  have "never_stalls t" if s: "serve_command env cmd code s = Some t" for code
  proof -
    let ?s2 = "note_version (command_client cmd) code (command_payload cmd)
      (if code = 0x01 then register_session env cmd s else s)"
    obtain b s3 where r: "(if code = 0x0A then replay_next_missed env (command_client cmd) ?s2
        else (False, ?s2)) = (b, s3)" by fastforce
    have l: "link s3 = link s"
      using r link_simps(3) [of env "command_client cmd" ?s2] by (cases "code = 0x0A") auto
    show ?thesis
    proof (cases b)
      case True
      then show ?thesis using s r l assms(1)
        never_stalls_link [OF l] by (simp add: serve_command_def Let_def)
    next
      case False
      then obtain served s4 where s4: "try_serve_from_cache env code cmd s3 = Some (served, s4)"
        and t: "(if served then Some (if code = 0x01 then notify_missed (command_client cmd) s4 else s4)
          else enqueue_or_dispatch env (Some (command_client cmd))
            (forwarded_payload code (command_payload cmd)) s4) = Some t"
        using s r by (auto simp: serve_command_def Let_def bind_eq_Some_conv)
      have l4: "link s4 = link s" using link_try_serve [OF s4] l by simp
      have n: "never_stalls s4" using assms(1) never_stalls_link [OF l4] by simp
      then have "never_stalls (notify_missed cid s4)" for cid
        by (simp add: never_stalls_link [of "notify_missed cid s4" s4])
      with n t enqueue_never_stalls show ?thesis by (auto split: if_splits)
    qed
  qed
  then show ?thesis
    using assms by (auto simp: handle_client_command_eq split: list.splits if_splits)
qed

lemma never_stalls_busy: "never_stalls (s\<lparr>in_flight := Some f\<rparr>)"
  by (simp add: never_stalls_def)

lemma route_in_flight_never_stalls:
  assumes "never_stalls s" and "try_route_to_in_flight env code p s = Some (b, t)"
  shows "never_stalls t"
  using assms
  by (auto simp: try_route_to_in_flight_def Let_def bind_eq_Some_conv never_stalls_busy
      split: option.splits if_splits prod.splits dest: advance_queue_never_stalls)

lemma refresh_never_stalls:
  assumes "never_stalls s" and "refresh_advertised env code p s = Some t"
  shows "never_stalls t"
  using assms
  by (auto simp: refresh_advertised_def Let_def bind_eq_Some_conv queue_contact_refresh_def push_queue_def
      split: if_splits dest: advance_queue_never_stalls) (simp_all add: never_stalls_def)

lemma route_frame_never_stalls:
  assumes "never_stalls s" and "route_frame env code p s = Some t"
  shows "never_stalls t"
proof -
  obtain b s1 where s1: "try_route_to_in_flight env code p s = Some (b, s1)"
    and t: "(if b then Some s1 else let (acked, s2) = try_route_ack code p s1 in if acked then Some s2
        else if is_push_event code then map_option (broadcast p) (refresh_advertised env code p s2)
        else Some s2) = Some t"
    using assms(2) by (auto simp: route_frame_def bind_eq_Some_conv)
  have n1: "never_stalls s1" by (rule route_in_flight_never_stalls [OF assms(1) s1])
  obtain acked s2 where a: "try_route_ack code p s1 = (acked, s2)" by fastforce
  then have "link s2 = link s1" using link_simps(8) [of code p s1] by simp
  then have n2: "never_stalls s2" using n1 never_stalls_link by blast
  have "never_stalls (broadcast p u)" if "refresh_advertised env code p s2 = Some u" for u
    using refresh_never_stalls [OF n2 that] by (simp add: broadcast_def never_stalls_def)
  with n1 n2 t a show ?thesis by (auto split: if_splits)
qed

lemma radio_rx_never_stalls:
  assumes "never_stalls s" and "handle_radio_rx env p s = Some t"
  shows "never_stalls t"
proof (cases p)
  case (Cons code rest)
  then obtain u where u: "cache_response env code p s = Some u"
    and t: "route_frame env code p (record_raw env code p u) = Some t"
    using assms(2) by (auto simp: handle_radio_rx_eq bind_eq_Some_conv split: if_splits)
  have "link (record_raw env code p u) = link s" using link_cache_response [OF u] by simp
  then have "never_stalls (record_raw env code p u)" using assms(1) never_stalls_link by blast
  then show ?thesis using route_frame_never_stalls t by blast
qed (use assms in \<open>simp add: handle_radio_rx_def\<close>)

lemma timeout_never_stalls:
  assumes "never_stalls s" and "check_in_flight_timeout env s = Some t"
  shows "never_stalls t"
  using assms
  by (auto simp: check_in_flight_timeout_def split: option.splits if_splits
      dest: advance_queue_never_stalls)

lemma maintenance_never_stalls:
  assumes "never_stalls s" and "run_maintenance env s = Some t"
  shows "never_stalls t"
proof -
  obtain u where u: "request_full_sync env s = Some u" and t: "link t = link u"
    using assms(2) by (auto simp: run_maintenance_def bind_eq_Some_conv)
  have "never_stalls u"
    using u assms(1)
    by (auto simp: request_full_sync_def Let_def push_queue_def split: if_splits
        dest: advance_queue_never_stalls) (simp_all add: never_stalls_def)
  with t show ?thesis using never_stalls_link by blast
qed

section \<open>The life cycle\<close>

text \<open>Initializing the radio changes only what caching a response or sending a command changes.\<close>

lemma wait_for_self_info_same:
  assumes "\<And>env code p s t. cache_response env code p s = Some t \<Longrightarrow> g t = g s"
  shows "wait_for_self_info env dl now evs s = Some r \<Longrightarrow> g (core_after r) = g s"
proof (induction env dl now evs s rule: wait_for_self_info.induct [case_names Nil Cons])
  case (Cons env dl now t ev evs s)
  then show ?case
    by (auto simp: bind_eq_Some_conv assms split: if_splits wait_event.splits)
qed (auto split: if_splits)

lemma wait_for_device_info_same:
  assumes "\<And>env code p s t. cache_response env code p s = Some t \<Longrightarrow> g t = g s"
  shows "wait_for_device_info env dl now evs s = Some r \<Longrightarrow> g (core_after r) = g s"
proof (induction env dl now evs s rule: wait_for_device_info.induct [case_names Nil Cons])
  case (Cons env dl now t ev evs s)
  then show ?case
    by (auto simp: bind_eq_Some_conv assms split: if_splits wait_event.splits)
qed (auto split: if_splits)

lemma initialize_radio_same:
  assumes cache: "\<And>env code p s t. cache_response env code p s = Some t \<Longrightarrow> g t = g s"
    and send: "\<And>p s t. p \<in> {build_appstart, [0x16, RADIO_PROTOCOL_VERSION]} \<Longrightarrow>
      send_to_radio p s = Inr t \<Longrightarrow> g t = g s"
    and init: "initialize_radio env evs s = Some r"
  shows "g (snd r) = g s"
proof (cases "send_to_radio build_appstart s")
  case (Inl e)
  then show ?thesis using init by (auto simp: initialize_radio_def)
next
  case (Inr s1)
  then obtain w where w: "wait_for_self_info env (instant_now env + SELF_INFO_TIMEOUT) (instant_now env)
      evs s1 = Some w"
    using init by (auto simp: initialize_radio_def bind_eq_Some_conv)
  obtain o1 n rest s2 where w': "w = (o1, n, rest, s2)" by (cases w) auto
  have "g (core_after w) = g s1"
    by (rule wait_for_self_info_same [where g = g, OF _ w]) (rule cache)
  then have l: "g s2 = g s" using send [OF _ Inr] w' by simp
  show ?thesis
  proof (cases "o1 = Ready \<and> (\<exists>s3. send_to_radio [0x16, RADIO_PROTOCOL_VERSION] s2 = Inr s3)")
    case True
    then obtain s3 where s3: "send_to_radio [0x16, RADIO_PROTOCOL_VERSION] s2 = Inr s3" "o1 = Ready" by auto
    then obtain v where v: "wait_for_device_info env (n + DEVICE_INFO_TIMEOUT) n rest s3 = Some v"
        and r: "snd r = core_after v"
      using init Inr w w' by (auto simp: initialize_radio_def bind_eq_Some_conv)
    have "g (core_after v) = g s3"
      by (rule wait_for_device_info_same [where g = g, OF _ v]) (rule cache)
    then show ?thesis using send [OF _ s3(1)] l r by simp
  next
    case False
    then have "snd r = s2"
      using init Inr w w' by (cases o1) (auto simp: initialize_radio_def split: sum.splits)
    then show ?thesis using l by simp
  qed
qed

lemma link_send_to_radio: "send_to_radio p s = Inr t \<Longrightarrow> link t = link s"
  by (auto simp: send_to_radio_Inr)

lemma link_initialize_radio: "initialize_radio env evs s = Some r \<Longrightarrow> link (snd r) = link s"
  by (rule initialize_radio_same [where g = link]) (auto simp: link_cache_response link_send_to_radio)

lemma link_fail_all: "link (fail_all s) = (radio_send_tx s, None, [])"
proof -
  define s1 where "s1 = (case in_flight s of None \<Rightarrow> s
    | Some f \<Rightarrow> send_opt (flight_client f) error_frame (s\<lparr>in_flight := None\<rparr>))"
  have "link s1 = (radio_send_tx s, None, pending_queue s)"
    by (auto simp: s1_def split: option.split) (simp_all add: link_def)
  moreover have "link (fold (\<lambda>q. send_opt (queued_client q) error_frame) (pending_queue s1) s1) = link s1"
    by (rule fold_same) simp
  ultimately show ?thesis by (simp add: fail_all_def s1_def [symmetric]) (simp add: link_def)
qed

text \<open>The synchronization of a radio that is connected and idle sends its first command.\<close>

lemma sync_sends_first:
  assumes "link s = (Some Open, None, [])" and "sync_from_radio env s = Some t"
  shows "in_flight t \<noteq> None"
  using assms
  by (auto simp: sync_from_radio_def queue_sync_def link_def advance_queue_sync.simps client_gone_def
      internal_def send_to_radio_def bind_eq_Some_conv Let_def)

lemma connect_backend_link:
  "connect_backend env dial s = Inr t \<Longrightarrow> link t = (Some Open, in_flight s, pending_queue s)"
  by (auto simp: connect_backend_def link_def split: sum.splits if_splits)

text \<open>Induction along the reconnection loop: where it ends, and how a pass goes on to the next.\<close>

lemma reconnect_loop_induct [consumes 1, case_names Nil Stop Refused Ready Failed Waiting]:
  assumes "reconnect_loop delay as s = Some (r, ds, t)"
    and "\<And>delay s. P delay [] s StillTrying [] s"
    and "\<And>delay later s. P delay (ShutdownFirst # later) s Aborted [] s"
    and "\<And>delay dial evs later s e r ds t env. connect_backend env dial s = Inl e \<Longrightarrow>
      P (min (delay * 2) max_delay) later s r ds t \<Longrightarrow> P delay (Dial env dial evs # later) s r (delay # ds) t"
    and "\<And>delay dial evs later s s1 s2 s3 env. connect_backend env dial s = Inr s1 \<Longrightarrow>
      initialize_radio env evs s1 = Some (Ready, s2) \<Longrightarrow> sync_from_radio (at_end env evs) s2 = Some s3 \<Longrightarrow>
      P delay (Dial env dial evs # later) s Reconnected [delay] (s3\<lparr>radio_up := True\<rparr>)"
    and "\<And>delay dial evs later s s1 s2 e r ds t env. connect_backend env dial s = Inr s1 \<Longrightarrow>
      initialize_radio env evs s1 = Some (Failed e, s2) \<Longrightarrow>
      P (min (delay * 2) max_delay) later (s2\<lparr>radio_send_tx := None\<rparr>) r ds t \<Longrightarrow>
      P delay (Dial env dial evs # later) s r (delay # ds) t"
    and "\<And>delay dial evs later s s1 s2 env. connect_backend env dial s = Inr s1 \<Longrightarrow>
      initialize_radio env evs s1 = Some (Waiting, s2) \<Longrightarrow>
      P delay (Dial env dial evs # later) s StillTrying [delay] s2"
  shows "P delay as s r ds t"
  using assms(1)
proof (induction as arbitrary: delay s r ds t)
  case Nil
  then show ?case using assms(2) by simp
next
  case (Cons a later)
  show ?case
  proof (cases a)
    case ShutdownFirst
    then show ?thesis using Cons.prems assms(3) by simp
  next
    case (Dial env dial evs)
    have again: "\<exists>es. ds = delay # es \<and> P (min (delay * 2) max_delay) later u r es t"
      if "map_option (\<lambda>(r, ds, t). (r, delay # ds, t))
        (reconnect_loop (min (delay * 2) max_delay) later u) = Some (r, ds, t)" for u
      using that Cons.IH by auto
    show ?thesis
    proof (cases "connect_backend env dial s")
      case (Inl e)
      then show ?thesis using Cons.prems Dial again [of s] assms(4) by auto
    next
      case (Inr s1)
      then obtain o1 s2 where s2: "initialize_radio env evs s1 = Some (o1, s2)"
        using Cons.prems Dial by (auto simp: bind_eq_Some_conv)
      show ?thesis
      proof (cases o1)
        case Ready
        then show ?thesis using Cons.prems Dial Inr s2 assms(5) by (auto simp: bind_eq_Some_conv)
      next
        case (Failed e)
        then show ?thesis
          using Cons.prems Dial Inr s2 again [of "s2\<lparr>radio_send_tx := None\<rparr>"] assms(6) by auto
      next
        case Waiting
        then show ?thesis using Cons.prems Dial Inr s2 assms(7) by auto
      qed
    qed
  qed
qed

text \<open>A fresh connection of an idle actor is still idle after the handshake.\<close>

lemma fresh_link:
  assumes "connect_backend env dial s = Inr s1" and "initialize_radio env evs s1 = Some (o1, s2)"
    and "in_flight s = None" and "pending_queue s = []"
  shows "link s2 = (Some Open, None, [])"
  using link_initialize_radio [OF assms(2)] connect_backend_link [OF assms(1)] assms(3,4) by simp

lemma reconnect_loop_never_stalls:
  "reconnect_loop delay as s = Some (r, ds, t) \<Longrightarrow> in_flight s = None \<Longrightarrow> pending_queue s = [] \<Longrightarrow>
   never_stalls t"
proof (induction rule: reconnect_loop_induct)
  case (Ready delay dial evs later s s1 s2 s3)
  then show ?case
    using sync_sends_first [OF fresh_link [OF Ready(1,2)] Ready(3)] by (auto simp: never_stalls_def)
next
  case (Failed delay dial evs later s s1 s2 e r ds t)
  then show ?case using fresh_link [OF Failed(1,2)] by (simp add: link_def)
next
  case (Waiting delay dial evs later s s1 s2)
  then show ?case using fresh_link [OF Waiting(1,2)] by (simp add: never_stalls_def link_def)
qed (auto simp: never_stalls_def)

lemma handle_event_never_stalls:
  assumes "never_stalls s" and "handle_event env ev s = Some t"
  shows "never_stalls t"
proof (cases ev)
  case (RadioLost as)
  then obtain r ds where
    t: "reconnect_loop 1 as (fail_all (s\<lparr>radio_send_tx := None, radio_up := False\<rparr>)) = Some (r, ds, t)"
    using assms(2) by (auto simp: reconnect_radio_def)
  show ?thesis
    by (rule reconnect_loop_never_stalls [OF t])
      (use link_fail_all in \<open>auto simp: link_def\<close>)
next
  case (ClientCommandEvent cmd)
  then show ?thesis using assms client_command_never_stalls by simp
next
  case (RadioFrame p)
  then show ?thesis using assms radio_rx_never_stalls by simp
next
  case TimeoutTick
  then show ?thesis using assms timeout_never_stalls by simp
next
  case MaintenanceTick
  then show ?thesis using assms maintenance_never_stalls by simp
qed (use assms in \<open>auto simp: never_stalls_def shutdown_def client_connected_def client_disconnected_def
      radio_channel_closed_def\<close>)

lemma reconnect_never_stalls:
  assumes "reconnect_radio as s = Some (r, ds, t)"
  shows "never_stalls t"
  using assms link_fail_all [of "s\<lparr>radio_send_tx := None, radio_up := False\<rparr>"]
  by (auto simp: reconnect_radio_def link_def dest: reconnect_loop_never_stalls)

lemma face_restore_blobs:
  assumes "restore_blobs env s = Some t"
  shows "face t = face s"
proof -
  obtain s1 s2 where 1: "(case (self_info_raw s, kv_blob env ''self_info_raw'' s) of
         (None, Some b) \<Rightarrow>
           map_option (\<lambda>t. t\<lparr>self_info_raw := Some b\<rparr>) (extract_radio_identity env b s)
       | _ \<Rightarrow> Some s) = Some s1"
    and 2: "(case (device_info_raw s1, kv_blob env ''device_info_raw'' s1) of
         (None, Some b) \<Rightarrow>
           map_option (\<lambda>t. t\<lparr>device_info_raw := Some b\<rparr>) (extract_max_channels env b s1)
       | _ \<Rightarrow> Some s1) = Some s2"
    and 3: "t = (case (battery_info_raw s2, kv_blob env ''battery_info_raw'' s2) of
         (None, Some b) \<Rightarrow> s2\<lparr>battery_info_raw := Some b\<rparr>
       | _ \<Rightarrow> s2)"
    using assms unfolding restore_blobs_def bind_eq_Some_conv by blast
  have "face s1 = face s" using 1 by (auto simp: face_extract split: option.splits)
  moreover have "face s2 = face s1" using 2 by (auto simp: face_extract split: option.splits)
  moreover have "face t = face s2" using 3 by (auto split: option.splits)
  ultimately show ?thesis by simp
qed

lemmas link_restore_blobs = face_restore_blobs [THEN face_wire, THEN wire_link]

lemma startup_never_stalls:
  assumes "startup env dial evs as s = Some (r, t)" and "in_flight s = None" and "pending_queue s = []"
  shows "never_stalls t"
proof -
  obtain s1 where s1: "start_radio env dial evs as s = Some (r, s1)" and t: "link t = link s1"
    using assms(1) by (auto simp: startup_def bind_eq_Some_conv link_restore_blobs split: if_splits)
  have retry: "never_stalls s1"
    if "map_option (\<lambda>(r, ds, t). (r, t)) (reconnect_radio as u) = Some (r, s1)" for u
    using that reconnect_never_stalls by auto
  have "never_stalls s1"
  proof (cases "connect_backend env dial s")
    case (Inl e)
    then show ?thesis using s1 retry by (simp add: start_radio_def Let_def)
  next
    case (Inr u)
    then obtain o1 s2 where s2: "initialize_radio env evs u = Some (o1, s2)"
      and c: "(case o1 of Ready \<Rightarrow> Option.bind (sync_from_radio (at_end env evs) s2)
                    (\<lambda>s3. Some (Reconnected, s3\<lparr>radio_up := True\<rparr>))
        | Failed e \<Rightarrow> map_option (\<lambda>(r, ds, t). (r, t)) (reconnect_radio as (s2\<lparr>radio_send_tx := None\<rparr>))
        | Waiting \<Rightarrow> Some (StillTrying, s2)) = Some (r, s1)"
      using s1 by (auto simp: start_radio_def Let_def bind_eq_Some_conv)
    have l: "link s2 = (Some Open, None, [])"
      using link_initialize_radio [OF s2] connect_backend_link [OF Inr] assms(2,3) by simp
    show ?thesis
    proof (cases o1)
      case Ready
      then obtain s3 where "sync_from_radio (at_end env evs) s2 = Some s3" "s1 = s3\<lparr>radio_up := True\<rparr>"
        using c by (auto simp: bind_eq_Some_conv)
      then show ?thesis using sync_sends_first [OF l, of "at_end env evs" s3] by (auto simp: never_stalls_def)
    next
      case (Failed e)
      then show ?thesis using c retry by simp
    next
      case Waiting
      then show ?thesis using c l by (auto simp: link_def never_stalls_def)
    qed
  qed
  with t show ?thesis using never_stalls_link by blast
qed

end
