(* ===== verification/Core_Props.thy ===== *)
theory Core_Props
  imports Core_Serial
begin

text \<open>
  Reachable states of the \<open>Core\<close> actor and the properties of its event loop: absence of
  panics, the invariant, the serialized queue, and the message cursors.
\<close>

section \<open>Reachable states\<close>

text \<open>
  A run starts with \<open>new_core\<close> on a well-formed database and the startup, and handles
  events on which it does not panic.
\<close>

inductive reachable :: "core \<Rightarrow> bool" where
  start: "store_inv d \<Longrightarrow> hex_ok env \<Longrightarrow> quiet env evs \<Longrightarrow> quiet_attempts as \<Longrightarrow>
    startup env dial evs as (new_core cfg d) = Some (r, s) \<Longrightarrow> r \<noteq> StillTrying \<Longrightarrow> reachable s"
| step: "reachable s \<Longrightarrow> hex_ok env \<Longrightarrow> \<not> event_panics env ev s \<Longrightarrow> handle_event env ev s = Some t \<Longrightarrow>
    reachable t"

inductive_cases reachableE: "reachable s"

lemma reachable_inv: "reachable s \<Longrightarrow> core_inv s \<and> never_stalls s"
proof (induction rule: reachable.induct)
  case (start d env evs as dial cfg r s)
  have "core_inv (new_core cfg d)" by (rule core_inv_new) (rule start)
  moreover have "fx.goes (new_core cfg d) (map_option snd (startup env dial evs as (new_core cfg d)))"
    by (rule goes_startup) (rule start)+
  ultimately have "core_inv s" using start by (simp add: fx.goes_def)
  moreover have "never_stalls s"
    by (rule startup_never_stalls [OF start(5)]) (simp_all add: new_core_def)
  ultimately show ?case by simp
next
  case (step s env ev t)
  then show ?case using handle_event_inv [of env s ev] handle_event_never_stalls by auto
qed

text \<open>The empty configuration and environment of the witnesses.\<close>

definition test_config :: core_config where
  "test_config = \<lparr>backend_type = Tcp, serial_port = None, serial_baud = 115200, ble_address = None,
     ble_pin = [], tcp_backend_host = Some ''radio'', tcp_backend_port = 5000,
     tcp_frontend_host = ''0.0.0.0'', tcp_frontend_ports = [5000], data_dir = ''.'',
     event_log_level = LogSummary, event_log_json = False, record_radio_rx = False,
     retention = \<lparr>messages_days = 0, raw_rx_days = 0, contacts_days = 0, clients_days = 0\<rparr>,
     new_client_backlog = Off\<rparr>"

definition test_env :: env where
  "test_env = \<lparr>unix_now = 1000, db_ok = (\<lambda>c. True), instant_now = 10000, hex = two_chars,
     warn_enabled = True, ble_compiled = False\<rparr>"

lemma test_env_ok: "hex_ok test_env"
  by (simp add: hex_ok_def test_env_def length_two_chars)

lemma store_inv_empty: "store_inv empty_state"
  by (simp add: store_inv_def empty_state_def distinct_key_def hm_simps cursor_of_def)

text \<open>A state after an aborted reconnection, with one connected client.\<close>

definition idle_core :: core where
  "idle_core = new_core test_config empty_state"

definition client_core :: core where
  "client_core = client_connected (ClientId 1) idle_core"

lemma idle_starts:
  "startup test_env (\<lambda>t. False) [] [ShutdownFirst] (new_core test_config empty_state) = Some (Aborted, idle_core)"
  by (simp add: startup_def start_radio_def connect_backend_def backend_target_def new_core_def
      test_config_def reconnect_radio_def fail_all_def restore_blobs_def kv_blob_def kv_get_def
      run_query_def migrate_def empty_state_def hm_retain_def hm_get_def idle_core_def test_env_def)

lemma reachable_idle: "reachable idle_core"
  by (rule reachable.start [OF store_inv_empty test_env_ok _ _ idle_starts])
    (simp_all add: quiet_def quiet_attempts_def)

lemma reachable_client: "reachable client_core"
  by (rule reachable.step [OF reachable_idle test_env_ok, of "ClientConnected (ClientId 1)"])
    (simp_all add: client_core_def)

section \<open>No panics\<close>

text \<open>C6. In every reachable state, handling a client's command returns, unless the command is
  logged and is a GET_CONTACTS with two to four bytes: then, and only then, the whole process
  panics.\<close>

theorem client_command_panics:
  assumes "reachable s" and "hex_ok env"
  shows "handle_client_command env cmd s = None \<longleftrightarrow>
    client_is_alive s (command_client cmd) \<and> event_log_level (conf s) \<noteq> LogOff \<and>
    (\<exists>rest. command_payload cmd = 0x04 # rest \<and> 1 \<le> length rest \<and> length rest < 4)"
proof -
  have inv: "core_inv s" using reachable_inv [OF assms(1)] by simp
  let ?P = "\<exists>code rest. command_payload cmd = code # rest \<and> client_is_alive s (command_client cmd) \<and>
    log_panics (conf s) ''->'' code (command_payload cmd)"
  have "handle_client_command env cmd s = None \<longleftrightarrow> ?P"
  proof
    assume "handle_client_command env cmd s = None"
    then show ?P using goes_handle_client_command [OF assms(2), of cmd s] inv by (auto simp: fx.goes_def)
  next
    assume ?P
    then show "handle_client_command env cmd s = None"
      by (auto simp: handle_client_command_eq log_event_None_iff [OF assms(2)])
  qed
  then show ?thesis by (auto simp: log_panics_def)
qed

theorem client_command_panics_witness:
  "handle_client_command test_env
     \<lparr>command_client = ClientId 1, command_port = 5000, command_payload = [0x04, 0]\<rparr> client_core = None"
  using client_command_panics [OF reachable_client test_env_ok,
      of "\<lparr>command_client = ClientId 1, command_port = 5000, command_payload = [0x04, 0]\<rparr>"]
  by (simp add: client_core_def client_connected_def client_is_alive_def hm_contains_def hm_simps
      idle_core_def new_core_def test_config_def)

text \<open>C7. In every reachable state, handling a frame of the radio returns, unless it is logged and
  is one of the three truncated responses whose decoder panics. No other frame, of any length
  and content, brings the process down.\<close>

theorem radio_frame_panics:
  assumes "reachable s" and "hex_ok env"
  shows "handle_radio_rx env p s = None \<longleftrightarrow> event_log_level (conf s) \<noteq> LogOff \<and> p \<noteq> [] \<and>
    (hd p = 0x06 \<and> length p = 9 \<or> hd p = 0x10 \<and> 13 \<le> length p \<and> length p < 16 \<or>
     hd p = 0x12 \<and> 3 \<le> length p \<and> length p < 34)"
proof -
  have inv: "core_inv s" using reachable_inv [OF assms(1)] by simp
  let ?P = "\<exists>code rest. p = code # rest \<and> log_panics (conf s) ''<-'' code p"
  have "handle_radio_rx env p s = None \<longleftrightarrow> ?P"
  proof
    assume "handle_radio_rx env p s = None"
    then show ?P using goes_handle_radio_rx [OF assms(2), of p s] inv by (auto simp: fx.goes_def)
  next
    assume ?P
    then show "handle_radio_rx env p s = None"
      by (auto simp: handle_radio_rx_eq log_event_None_iff [OF assms(2)])
  qed
  then show ?thesis by (cases p) (auto simp: log_panics_def)
qed

theorem radio_frame_panics_witness:
  "handle_radio_rx test_env [0x12, 0, 65] client_core = None"
  using radio_frame_panics [OF reachable_client test_env_ok, of "[0x12, 0, 65]"]
  by (simp add: client_core_def client_connected_def idle_core_def new_core_def test_config_def)

section \<open>The invariant\<close>

text \<open>C1. In every reachable state the radio is never left idle with requests waiting: if no
  request is in flight, none is queued. The queue and the request in flight hold nonempty
  payloads.\<close>

theorem queue_never_stalls:
  "reachable s \<Longrightarrow> (in_flight s = None \<longrightarrow> pending_queue s = []) \<and>
   (\<forall>q \<in> set (pending_queue s). queued_payload q \<noteq> []) \<and>
   (\<forall>f. in_flight s = Some f \<longrightarrow> flight_payload f \<noteq> [])"
  using reachable_inv by (simp add: never_stalls_def core_inv_defs)

theorem queue_never_stalls_witness: "pending_queue client_core = []"
  using queue_never_stalls [OF reachable_client]
  by (simp add: client_core_def client_connected_def idle_core_def new_core_def)

text \<open>C28. No event but the maintenance tick, which deletes identities that stayed away, moves a
  client's cursor back or forgets it, and no event gives a stored message an id that was used
  before: the messages that appear are above every id ever given out.\<close>

theorem cursors_never_go_back:
  assumes "reachable s" and "hex_ok env" and "\<not> event_panics env ev s" and "handle_event env ev s = Some t"
  shows "(ev \<noteq> MaintenanceTick \<longrightarrow> (\<forall>who c. cursor_of (db s) who = Some c \<longrightarrow>
       (\<exists>c'. cursor_of (db t) who = Some c' \<and> c \<le> c'))) \<and>
    message_seq (db s) \<le> message_seq (db t) \<and>
    (\<forall>m \<in> set (messages (db t)). m \<in> set (messages (db s)) \<or> message_seq (db s) < msg_id m) \<and>
    sorted_wrt (<) (map msg_id (messages (db t)))"
proof -
  have inv: "core_inv s" using reachable_inv [OF assms(1)] by simp
  have "core_inv t" "log_extends (db s) (db t)"
    "ev \<noteq> MaintenanceTick \<Longrightarrow> cursors.not_behind (db s) (db t)"
    using handle_event_inv [OF assms(2) inv assms(3)] assms(4) by auto
  then show ?thesis by (simp add: cursors.not_behind_def log_extends_def core_inv_def store_inv_def)
qed

theorem cursors_never_go_back_witness:
  "\<exists>t. handle_event test_env TimeoutTick client_core = Some t \<and>
     message_seq (db client_core) \<le> message_seq (db t)"
proof -
  have t: "handle_event test_env TimeoutTick client_core = Some client_core"
    by (simp add: check_in_flight_timeout_def client_core_def client_connected_def idle_core_def new_core_def)
  with cursors_never_go_back [OF reachable_client test_env_ok _ t] show ?thesis by simp
qed

end
