(* ===== verification/Core_Routing.thy ===== *)
theory Core_Routing
  imports Core_Props
begin

text \<open>
  Who gets what: the frames put on the clients' channels and on the radio's by the operations
  of the \<open>Core\<close> actor. The order in which queued commands are sent, what happens to those that
  cannot be, the recipients of a reply, the loss of the radio, and the frames that reach nobody.
\<close>

section \<open>Channels\<close>

definition inbox :: "core \<Rightarrow> client_id \<Rightarrow> frame list option" where
  "inbox s cid = hm_get (client_channels s) cid"

text \<open>A frame in the layout a client gets it.\<close>

definition as_sent :: "core \<Rightarrow> client_id \<Rightarrow> frame \<Rightarrow> frame" where
  "as_sent s cid p = message_frame_for (protocol_version s cid) p"

lemma inbox_send_to_client:
  "inbox (send_to_client cid p s) c =
     (if c = cid then map_option (\<lambda>q. q @ [as_sent s cid p]) (inbox s cid) else inbox s c)"
  by (auto simp: inbox_def send_to_client_def as_sent_def hm_simps split: option.split)

lemma map_of_map_value: "map_of (map (\<lambda>(k, v). (k, f k v)) m) c = map_option (f c) (map_of m c)"
  by (induction m) auto

lemma inbox_broadcast_to_others:
  "inbox (broadcast_to_others ex p s) c =
     map_option (\<lambda>q. if ex = Some c then q else q @ [as_sent s c p]) (inbox s c)"
  by (simp add: inbox_def broadcast_to_others_def hm_get_def as_sent_def map_of_map_value
      cong: if_cong)

lemma alive_inbox: "client_is_alive s cid \<longleftrightarrow> inbox s cid \<noteq> None"
  by (simp add: client_is_alive_def hm_contains_def inbox_def)

lemma versions_send [simp]:
  "protocol_versions (send_to_client cid p s) = protocol_versions s"
  "protocol_versions (broadcast_to_others ex p s) = protocol_versions s"
  "protocol_versions (send_opt c p s) = protocol_versions s"
  by (auto simp: send_to_client_def broadcast_to_others_def send_opt_def split: option.split)

lemma as_sent_cong: "protocol_versions t = protocol_versions s \<Longrightarrow> as_sent t cid p = as_sent s cid p"
  by (simp add: as_sent_def protocol_version_def)

lemma as_sent_error [simp]: "as_sent s cid error_frame = error_frame"
  by (simp add: as_sent_def error_frame_def message_frame_for_other)

lemma alive_send [simp]:
  "client_is_alive (send_to_client cid p s) c = client_is_alive s c"
  "client_is_alive (send_opt ex p s) c = client_is_alive s c"
  by (auto simp: alive_inbox inbox_send_to_client send_opt_def split: option.split)

lemma client_gone_cong:
  "(\<And>c. client_is_alive t c = client_is_alive s c) \<Longrightarrow> client_gone t q = client_gone s q"
  by (simp add: client_gone_def split: option.split)

section \<open>What leaves the channels alone\<close>

definition outputs :: "core \<Rightarrow> (client_id, frame list) hmap \<times> frame list \<times> frame list" where
  "outputs s = (client_channels s, broadcast_out s, radio_out s)"

lemma outputs_simps [simp]:
  "outputs (write_db r s) = outputs s" "outputs (s\<lparr>db := d\<rparr>) = outputs s"
  "outputs (s\<lparr>self_info_raw := b1\<rparr>) = outputs s" "outputs (s\<lparr>device_info_raw := b2\<rparr>) = outputs s"
  "outputs (s\<lparr>battery_info_raw := b3\<rparr>) = outputs s" "outputs (s\<lparr>radio_pubkey := b4\<rparr>) = outputs s"
  "outputs (s\<lparr>radio_name := b5\<rparr>) = outputs s" "outputs (s\<lparr>max_channels := b6\<rparr>) = outputs s"
  "outputs (advance_identity env i who s) = outputs s" "outputs (drop_disconnected s) = outputs s"
  "outputs (record_raw env code p s) = outputs s" "outputs (s\<lparr>in_flight := f\<rparr>) = outputs s"
  by (auto simp: outputs_def write_db_def advance_identity_def drop_disconnected_def record_raw_def
      split: sum.split)

text \<open>Caching a response answers nobody.\<close>

lemma outputs_cache_response:
  assumes "cache_response env code p s = Some t"
  shows "outputs t = outputs s"
  using face_cache_response [OF assms] by (simp add: face_def wire_def outputs_def)

lemma forward_effects_outputs: "forward_effects env code p s = Some t \<Longrightarrow> outputs t = outputs s"
  by (auto simp: forward_effects_def bind_eq_Some_conv split: if_splits)

section \<open>The queue\<close>

lemma dispatch_cases:
  assumes "dispatch_to_radio env c p s = Some t"
  shows "radio_send_tx s = Some Open \<and> radio_out t = radio_out s @ [p] \<and>
      client_channels t = client_channels s \<and>
      (\<exists>f. in_flight t = Some f \<and> flight_payload f = p \<and> flight_client f = c) \<or>
    radio_send_tx s \<noteq> Some Open \<and> t = send_opt c error_frame s"
proof (cases "send_to_radio p s")
  case (Inl e)
  then have "radio_send_tx s \<noteq> Some Open" by (auto simp: send_to_radio_def)
  with assms Inl show ?thesis by (auto simp: dispatch_to_radio_def bind_eq_Some_conv)
next
  case (Inr s1)
  then have s1: "radio_send_tx s = Some Open" "s1 = s\<lparr>radio_out := radio_out s @ [p]\<rparr>"
    by (simp_all add: send_to_radio_Inr)
  from assms Inr obtain code s2 f where s2: "forward_effects env code p s1 = Some s2"
    and f: "new_flight env c p s2 = Some f" and t: "t = s2\<lparr>in_flight := Some f\<rparr>"
    by (auto simp: dispatch_to_radio_def bind_eq_Some_conv)
  have "outputs t = outputs s1" using forward_effects_outputs [OF s2] by (simp add: t)
  moreover have "flight_payload f = p" "flight_client f = c"
    using f by (auto simp: new_flight_def bind_eq_Some_conv)
  ultimately show ?thesis using s1 t by (simp add: outputs_def)
qed

text \<open>What \<open>advance_queue\<close> has done, given the entries \<open>rest\<close> it has not skipped: nothing was
  left, or the first of them was sent and is in flight.\<close>

definition advanced :: "core \<Rightarrow> core \<Rightarrow> queued list \<Rightarrow> bool" where
  "advanced s t rest \<longleftrightarrow>
     (case in_flight t of
        None \<Rightarrow> rest = [] \<and> pending_queue t = [] \<and> radio_out t = radio_out s
      | Some f \<Rightarrow> \<exists>q. rest = q # pending_queue t \<and> \<not> client_gone s q \<and>
          flight_payload f = queued_payload q \<and> flight_client f = queued_client q \<and>
          radio_out t = radio_out s @ [queued_payload q])"

lemma advanced_cong:
  assumes "radio_out s' = radio_out s" and "\<And>q. client_gone s' q = client_gone s q"
  shows "advanced s' t rest = advanced s t rest"
  using assms by (simp add: advanced_def split: option.split)

lemma advance_queue_order:
  "advance_queue env s = Some t \<Longrightarrow> in_flight s = None \<Longrightarrow>
   \<exists>skipped rest. pending_queue s = skipped @ rest \<and> advanced s t rest \<and>
     (radio_send_tx s = Some Open \<longrightarrow> (\<forall>q \<in> set skipped. client_gone s q))"
proof (induction s t rule: advance_queue_induct)
  case (Nil s)
  then show ?case by (intro exI [of _ "[]"]) (simp add: advanced_def)
next
  case (Gone s q rest t)
  let ?s1 = "s\<lparr>pending_queue := rest\<rparr>"
  have g: "client_gone ?s1 x = client_gone s x" for x
    by (rule client_gone_cong) (simp add: client_is_alive_def)
  have a: "advanced ?s1 t more = advanced s t more" for more
    by (rule advanced_cong) (simp_all add: g)
  from Gone(3,4) obtain skipped more where m: "rest = skipped @ more" "advanced s t more"
    "radio_send_tx s = Some Open \<longrightarrow> (\<forall>q \<in> set skipped. client_gone s q)"
    by (auto simp: g a)
  show ?case
    by (rule exI [of _ "q # skipped"], rule exI [of _ more]) (use Gone(1) Gone(2) [unfolded g] m in simp)
next
  case (Sent s q rest t)
  let ?s1 = "s\<lparr>pending_queue := rest\<rparr>"
  have g: "client_gone ?s1 x = client_gone s x" for x
    by (rule client_gone_cong) (simp add: client_is_alive_def)
  have "in_flight (send_opt (queued_client q) error_frame ?s1) = None"
    using Sent(5) by (simp add: send_opt_def send_to_client_def split: option.split)
  then have "t \<noteq> send_opt (queued_client q) error_frame ?s1" using Sent(4) by metis
  with dispatch_cases [OF Sent(3)] dispatch_to_radio_queue [OF Sent(3)]
  have "advanced s t (q # rest)" using Sent(2) by (auto simp: advanced_def g)
  then show ?case
    using Sent(1) by - (rule exI [of _ "[]"], rule exI [of _ "q # rest"], simp)
next
  case (Failed s q rest s2 t)
  let ?s1 = "s\<lparr>pending_queue := rest\<rparr>"
  from dispatch_cases [OF Failed(3)] Failed(4)
  have n: "radio_send_tx s \<noteq> Some Open" and s2: "s2 = send_opt (queued_client q) error_frame ?s1" by auto
  have f: "pending_queue s2 = rest" "radio_out s2 = radio_out s"
    by (auto simp: s2 send_opt_def send_to_client_def split: option.split)
  have g: "client_gone s2 x = client_gone s x" for x
    by (rule client_gone_cong) (simp add: s2, simp add: client_is_alive_def)
  have a: "advanced s2 t more = advanced s t more" for more
    by (rule advanced_cong) (simp_all add: f g)
  from Failed(5) [OF Failed(4)] obtain skipped more where m: "rest = skipped @ more" "advanced s t more"
    by (auto simp: f a)
  show ?case
    by (rule exI [of _ "q # skipped"], rule exI [of _ more]) (use Failed(1) m n in simp)
qed

section \<open>Replies\<close>

lemma versions_record_ack [simp]: "protocol_versions (record_ack env cid code p s) = protocol_versions s"
  by (simp add: record_ack_def split: option.split)

lemma inbox_record_ack [simp]: "inbox (record_ack env cid code p s) c = inbox s c"
  by (simp add: record_ack_def inbox_def split: option.split)

lemma inbox_deliver_reply:
  "inbox (deliver_reply env c cmd code p s) cid =
     map_option (\<lambda>q. if c = Some cid \<or> (cmd = 0x0A \<and> is_incoming_message code)
       then q @ [as_sent s cid p] else q) (inbox s cid)"
proof (cases c)
  case None
  then show ?thesis
    by (cases "inbox s cid") (simp_all add: deliver_reply_def inbox_broadcast_to_others)
next
  case (Some r)
  have a: "as_sent (send_to_client y p (record_ack env y code p s)) x p = as_sent s x p"
    "as_sent (record_ack env y code p s) x p = as_sent s x p" for x y
    by (rule as_sent_cong, simp)+
  show ?thesis
    by (cases "r = cid"; cases "inbox s cid"; cases "cmd = 0x0A \<and> is_incoming_message code")
      (simp_all add: Some deliver_reply_def Let_def inbox_broadcast_to_others inbox_send_to_client a)
qed

section \<open>Failing everything\<close>

lemma inbox_send_opt_error:
  "inbox (send_opt c error_frame s) cid =
     map_option (\<lambda>q. if c = Some cid then q @ [error_frame] else q) (inbox s cid)"
  by (cases "inbox s cid") (auto simp: send_opt_def inbox_send_to_client split: option.split)

lemma inbox_fold_errors:
  "inbox (fold (\<lambda>q. send_opt (queued_client q) error_frame) qs s) cid =
     map_option (\<lambda>l. l @ replicate (length (filter (\<lambda>q. queued_client q = Some cid) qs)) error_frame) (inbox s cid)"
proof (induction qs arbitrary: s)
  case (Cons q qs)
  then show ?case
    by (cases "inbox s cid") (auto simp: inbox_send_opt_error)
qed (simp add: option.map_ident)

text \<open>How many requests of a client are in flight or queued.\<close>

definition waiting_requests :: "core \<Rightarrow> client_id \<Rightarrow> nat" where
  "waiting_requests s cid =
     (case in_flight s of Some f \<Rightarrow> if flight_client f = Some cid then 1 else 0 | None \<Rightarrow> 0) +
     length (filter (\<lambda>q. queued_client q = Some cid) (pending_queue s))"

lemma inbox_fail_all:
  "inbox (fail_all s) cid = map_option (\<lambda>l. l @ replicate (waiting_requests s cid) error_frame) (inbox s cid)"
proof (cases "in_flight s")
  case None
  then show ?thesis
    using inbox_fold_errors [of "pending_queue s" s cid]
    by (simp add: fail_all_def waiting_requests_def Let_def inbox_def)
next
  case (Some f)
  let ?s1 = "send_opt (flight_client f) error_frame (s\<lparr>in_flight := None\<rparr>)"
  have "pending_queue ?s1 = pending_queue s"
    by (simp add: send_opt_def split: option.split)
  moreover have "inbox (s\<lparr>in_flight := None\<rparr>) cid = inbox s cid" by (simp add: inbox_def)
  ultimately show ?thesis
    using Some inbox_fold_errors [of "pending_queue s" ?s1 cid] inbox_send_opt_error [of "flight_client f" "s\<lparr>in_flight := None\<rparr>" cid]
    by (cases "inbox s cid") (simp_all add: fail_all_def waiting_requests_def Let_def inbox_def)
qed

section \<open>Properties of the queue and of replies\<close>

text \<open>C15. When the radio is free, the queue is served in order: entries are skipped from its
  front, and the first one that is not is the one that is sent, exactly once, and is then in
  flight; while the radio's channel is open only entries of disconnected clients are skipped. If
  nothing is in flight afterwards, the queue is empty and nothing was sent.\<close>

theorem advance_queue_fifo:
  assumes "advance_queue env s = Some t" and "in_flight s = None"
  shows "\<exists>skipped rest. pending_queue s = skipped @ rest \<and>
     (radio_send_tx s = Some Open \<longrightarrow> (\<forall>q \<in> set skipped. client_gone s q)) \<and>
     (case in_flight t of
        None \<Rightarrow> rest = [] \<and> pending_queue t = [] \<and> radio_out t = radio_out s
      | Some f \<Rightarrow> \<exists>q. rest = q # pending_queue t \<and> \<not> client_gone s q \<and>
          flight_payload f = queued_payload q \<and> flight_client f = queued_client q \<and>
          radio_out t = radio_out s @ [queued_payload q])"
  using advance_queue_order [OF assms] unfolding advanced_def by blast

text \<open>A connected radio, a request of a client that is gone and two of one that is not.\<close>

definition busy_core :: core where
  "busy_core = client_core\<lparr>radio_send_tx := Some Open,
     pending_queue := [\<lparr>queued_client = Some (ClientId 9), queued_payload = [0x05]\<rparr>,
       \<lparr>queued_client = Some (ClientId 1), queued_payload = [0x05]\<rparr>,
       \<lparr>queued_client = Some (ClientId 1), queued_payload = [0x14]\<rparr>]\<rparr>"

lemmas test_core_defs = busy_core_def client_core_def client_connected_def idle_core_def new_core_def
  client_gone_def client_is_alive_def hm_contains_def

theorem advance_queue_fifo_witness:
  "\<exists>t f. advance_queue test_env busy_core = Some t \<and> in_flight t = Some f \<and> radio_out t = [[0x05]] \<and>
     pending_queue t = [\<lparr>queued_client = Some (ClientId 1), queued_payload = [0x14]\<rparr>]"
proof -
  have n: "in_flight busy_core = None" by (simp add: test_core_defs)
  obtain t where t: "advance_queue test_env busy_core = Some t"
    by (simp add: test_core_defs advance_queue.simps hm_simps dispatch_to_radio_def send_to_radio_def
        forward_effects_def new_flight_def)
  moreover have "in_flight t \<noteq> None \<and> radio_out t = [[0x05]]"
    using t by (auto simp: test_core_defs advance_queue.simps hm_simps dispatch_to_radio_def
        send_to_radio_def forward_effects_def new_flight_def)
  moreover have "pending_queue t = [\<lparr>queued_client = Some (ClientId 1), queued_payload = [0x14]\<rparr>]"
    using t by (auto simp: test_core_defs advance_queue.simps hm_simps dispatch_to_radio_def
        send_to_radio_def forward_effects_def new_flight_def)
  ultimately show ?thesis using advance_queue_fifo [OF t n] by auto
qed

text \<open>A client command is answered without touching the link, or it goes to the queue.\<close>

lemma client_command_cases:
  assumes "handle_client_command env cmd s = Some t"
  obtains (Served) "wire t = wire s"
  | (Asked) code rest u where "command_payload cmd = code # rest" "wire u = wire s"
      "enqueue_or_dispatch env (Some (command_client cmd)) (forwarded_payload code (command_payload cmd)) u = Some t"
proof (cases "t = s")
  case False
  then obtain code rest where p: "command_payload cmd = code # rest"
    and sc: "serve_command env cmd code s = Some t"
    using assms by (auto simp: handle_client_command_eq split: list.splits if_splits)
  let ?s2 = "note_version (command_client cmd) code (command_payload cmd)
      (if code = 0x01 then register_session env cmd s else s)"
  obtain b s3 where r: "(if code = 0x0A then replay_next_missed env (command_client cmd) ?s2
      else (False, ?s2)) = (b, s3)" by fastforce
  have w3: "wire s3 = wire s"
    using r wire_replay [of env "command_client cmd" ?s2] by (cases "code = 0x0A") auto
  show ?thesis
  proof (cases b)
    case True
    then show ?thesis using sc r w3 Served by (simp add: serve_command_def Let_def)
  next
    case False
    then obtain served s4 where s4: "try_serve_from_cache env code cmd s3 = Some (served, s4)"
      and t: "(if served then Some (if code = 0x01 then notify_missed (command_client cmd) s4 else s4)
        else enqueue_or_dispatch env (Some (command_client cmd))
          (forwarded_payload code (command_payload cmd)) s4) = Some t"
      using sc r by (auto simp: serve_command_def Let_def bind_eq_Some_conv)
    have "wire s4 = wire s" using wire_try_serve [OF s4] w3 by simp
    then show ?thesis using Served Asked [OF p] t by (cases served) (auto split: if_splits)
  qed
qed (simp add: Served)

text \<open>With a request in flight, a command can only be answered or wait its turn.\<close>

lemma busy_command:
  assumes "handle_client_command env cmd s = Some t" and "in_flight s \<noteq> None"
  shows "radio_out t = radio_out s \<and> in_flight t = in_flight s \<and>
    (pending_queue t = pending_queue s \<or>
     (\<exists>p. pending_queue t = pending_queue s @
        [\<lparr>queued_client = Some (command_client cmd), queued_payload = p\<rparr>]))"
  using assms(1)
proof (cases rule: client_command_cases)
  case Served
  then show ?thesis by (simp add: wire_def)
next
  case (Asked code rest u)
  then show ?thesis using assms(2) by (auto simp: enqueue_or_dispatch_def push_queue_def wire_def split: if_splits)
qed

text \<open>A radio that is busy with a GET_DEVICE_TIME of the client.\<close>

definition flying_core :: core where
  "flying_core = client_core\<lparr>radio_send_tx := Some Open, radio_out := [[0x05]],
     in_flight := Some \<lparr>flight_client = Some (ClientId 1), flight_payload = [0x05],
       last_activity = 10000, sent_unix = 1000, awaiting_reply = OneOf [0x09], flight_origin = None\<rparr>\<rparr>"

lemma core_inv_flying:
  "core_inv flying_core" "core_inv (flying_core\<lparr>pending_queue := pending_queue busy_core\<rparr>)"
proof -
  have "core_inv client_core" using reachable_inv [OF reachable_client] by simp
  then show "core_inv flying_core" "core_inv (flying_core\<lparr>pending_queue := pending_queue busy_core\<rparr>)"
    by (auto simp: core_inv_defs flying_core_def busy_core_def)
qed

lemma flying_core_version:
  "handle_client_command test_env
     \<lparr>command_client = ClientId 1, command_port = 5000, command_payload = [0x16, 3]\<rparr> flying_core =
   Some (flying_core\<lparr>protocol_versions := [(ClientId 1, 3)],
     pending_queue := [\<lparr>queued_client = Some (ClientId 1), queued_payload = [0x16, 3]\<rparr>]\<rparr>)"
  by (simp add: handle_client_command_eq log_event_None_iff [OF test_env_ok] log_panics_def
      Let_def hm_get_def serve_command_def note_version_def try_serve_from_cache_def serve_blob_def flying_core_def
      test_core_defs hm_simps enqueue_or_dispatch_def push_queue_def forwarded_payload_def
      RADIO_PROTOCOL_VERSION_def hm_insert_def)

text \<open>C11. Who sees a reply: the client that asked, in the layout it negotiated, and every other
  connected client only when the reply is a message fetched with GET_MSG.\<close>

theorem reply_recipients:
  "inbox (deliver_reply env c cmd code p s) cid =
     (case inbox s cid of
        None \<Rightarrow> None
      | Some q \<Rightarrow>
          if c = Some cid \<or> cmd = 0x0A \<and> code \<in> {0x07, 0x08, 0x10, 0x11}
          then Some (q @ [message_frame_for (protocol_version s cid) p]) else Some q)"
  by (cases "inbox s cid") (simp_all add: inbox_deliver_reply as_sent_def is_incoming_message_def)

lemma unawaited_reply:
  assumes "handle_radio_rx env (code # rest) s = Some t" and "\<not> is_push_event code"
    and "\<And>f. in_flight s = Some f \<Longrightarrow> \<not> fst (classify (awaiting_reply f) code)"
  shows "client_channels t = client_channels s \<and> broadcast_out t = broadcast_out s \<and>
    radio_out t = radio_out s \<and> in_flight t = in_flight s \<and> pending_queue t = pending_queue s"
proof -
  let ?p = "code # rest"
  obtain u where u: "cache_response env code ?p s = Some u"
    and t: "route_frame env code ?p (record_raw env code ?p u) = Some t"
    using assms(1) by (auto simp: handle_radio_rx_eq bind_eq_Some_conv split: if_splits)
  let ?v = "record_raw env code ?p u"
  have w: "wire ?v = wire s" "outputs ?v = outputs s"
    using wire_cache_response [OF u] outputs_cache_response [OF u] by simp_all
  have "try_route_to_in_flight env code ?p ?v = Some (False, ?v)"
    using assms(3) w by (auto simp: try_route_to_in_flight_def wire_def split: option.split prod.split)
  moreover have "code \<noteq> 0x82" using assms(2) by (auto simp: is_push_event_def)
  ultimately have "t = ?v"
    using t assms(2) by (simp add: route_frame_def try_route_ack_def)
  with w show ?thesis by (simp add: wire_def outputs_def)
qed

text \<open>C22. A reply nobody is waiting for is dropped: it changes the cache and the database at
  most. No client gets it, nothing is sent to the radio, and the request in flight and the queue
  stay as they are.\<close>

theorem late_reply_dropped:
  assumes "handle_radio_rx env (code # rest) s = Some t" and "\<not> is_push_event code"
    and "\<And>f. in_flight s = Some f \<Longrightarrow> \<not> fst (classify (awaiting_reply f) code)"
  shows "client_channels t = client_channels s \<and> broadcast_out t = broadcast_out s \<and>
    radio_out t = radio_out s \<and> in_flight t = in_flight s \<and> pending_queue t = pending_queue s"
  by (rule unawaited_reply [OF assms])

lemma late_time_reply:
  "handle_radio_rx test_env [0x0B] flying_core = Some flying_core"
  by (simp add: handle_radio_rx_eq log_event_None_iff [OF test_env_ok] log_panics_def
      cache_response_def record_raw_def route_frame_def try_route_to_in_flight_def flying_core_def
      try_route_ack_def is_push_event_def test_core_defs test_config_def)

theorem late_reply_dropped_witness:
  "\<exists>t. handle_radio_rx test_env [0x0B] flying_core = Some t \<and>
     client_channels t = client_channels flying_core"
  using late_reply_dropped [OF late_time_reply] late_time_reply
  by (simp add: flying_core_def is_push_event_def)

section \<open>Reconnecting\<close>

lemma channels_cache_response: "cache_response env code p s = Some t \<Longrightarrow> client_channels t = client_channels s"
  using outputs_cache_response by (auto simp: outputs_def)

lemma channels_initialize_radio:
  "initialize_radio env evs s = Some r \<Longrightarrow> client_channels (snd r) = client_channels s"
  by (rule initialize_radio_same [where g = client_channels]) (auto simp: channels_cache_response send_to_radio_Inr)

lemma channels_connect: "connect_backend env dial s = Inr t \<Longrightarrow> client_channels t = client_channels s"
  by (auto simp: connect_backend_def split: sum.splits if_splits)

text \<open>The synchronization queues internal commands only, so it answers no client.\<close>

lemma advance_queue_sync_internal:
  "advance_queue_sync env s = Some t \<Longrightarrow> \<forall>q \<in> set (pending_queue s). queued_client q = None \<Longrightarrow>
   client_channels t = client_channels s"
proof (induction env s arbitrary: t rule: advance_queue_sync.induct)
  case (1 env s)
  show ?case
  proof (cases "pending_queue s")
    case Nil
    then show ?thesis using 1(2) by (simp add: advance_queue_sync.simps [of env s])
  next
    case (Cons q rest)
    then have "queued_client q = None" using 1(3) by simp
    then show ?thesis
      using 1(2) Cons
      by (auto simp: advance_queue_sync.simps [of env s] client_gone_def Let_def send_opt_def
          send_to_radio_def bind_eq_Some_conv split: option.splits channel_end.splits)
  qed
qed

lemma channels_sync:
  "sync_from_radio env s = Some t \<Longrightarrow> pending_queue s = [] \<Longrightarrow> client_channels t = client_channels s"
  by (auto simp: sync_from_radio_def Let_def queue_sync_def internal_def split: if_splits
      dest!: advance_queue_sync_internal)

lemma channels_reconnect_loop:
  "reconnect_loop delay as s = Some (r, ds, t) \<Longrightarrow> in_flight s = None \<Longrightarrow> pending_queue s = [] \<Longrightarrow>
   client_channels t = client_channels s"
proof (induction rule: reconnect_loop_induct)
  case (Ready delay dial evs later s s1 s2 s3)
  have "client_channels s3 = client_channels s2"
    using channels_sync [OF Ready(3)] fresh_link [OF Ready(1,2,4,5)] by (simp add: link_def)
  then show ?case using channels_connect [OF Ready(1)] channels_initialize_radio [OF Ready(2)] by simp
next
  case (Failed delay dial evs later s s1 s2 e r ds t)
  then show ?case
    using channels_connect [OF Failed(1)] channels_initialize_radio [OF Failed(2)]
      fresh_link [OF Failed(1,2)] by (simp add: link_def)
next
  case (Waiting delay dial evs later s s1 s2)
  then show ?case using channels_connect channels_initialize_radio by fastforce
qed simp_all

text \<open>C8. When the radio drops, every request a client has in flight or queued is answered with
  one ERROR frame, and the clients get nothing else, whatever happens in the reconnection
  attempts that follow.\<close>

theorem reconnect_fails_requests:
  assumes "reconnect_radio attempts s = Some (r, ds, t)"
  shows "inbox t cid =
    map_option (\<lambda>l. l @ replicate (waiting_requests s cid) error_frame) (inbox s cid)"
proof -
  let ?s = "s\<lparr>radio_send_tx := None, radio_up := False\<rparr>"
  have "in_flight (fail_all ?s) = None \<and> pending_queue (fail_all ?s) = []"
    using link_fail_all [of ?s] by (simp add: link_def)
  then have "inbox t cid = inbox (fail_all ?s) cid"
    using assms channels_reconnect_loop by (auto simp: reconnect_radio_def inbox_def)
  also have "\<dots> = map_option (\<lambda>l. l @ replicate (waiting_requests ?s cid) error_frame) (inbox ?s cid)"
    by (rule inbox_fail_all)
  finally show ?thesis by (simp add: waiting_requests_def inbox_def)
qed

theorem reconnect_fails_requests_witness:
  "\<exists>t. reconnect_radio [] (flying_core\<lparr>pending_queue := pending_queue busy_core\<rparr>) =
       Some (StillTrying, [], t) \<and>
     inbox t (ClientId 1) = Some [error_frame, error_frame, error_frame]"
proof -
  let ?s = "flying_core\<lparr>pending_queue := pending_queue busy_core\<rparr>"
  obtain t where t: "reconnect_radio [] ?s = Some (StillTrying, [], t)"
    by (simp add: reconnect_radio_def)
  have "waiting_requests ?s (ClientId 1) = 3"
    by (simp add: waiting_requests_def flying_core_def busy_core_def)
  moreover have "inbox ?s (ClientId 1) = Some []"
    by (simp add: inbox_def flying_core_def test_core_defs hm_insert_def hm_get_def)
  ultimately show ?thesis
    using reconnect_fails_requests [OF t, of "ClientId 1"] t by (simp add: numeral_3_eq_3)
qed

end
