(* ===== verification/Core_Serving.thy ===== *)
theory Core_Serving
  imports Core_Routing
begin

text \<open>
  What clients get from the proxy itself: the cached contacts and channels, and one replayed message
  with the cursor it moves.
\<close>

section \<open>Cached contacts\<close>

text \<open>The last four bytes of a CONTACT frame, and the contacts a \<open>since\<close> filter lets through.\<close>

definition lastmod_of :: "frame \<Rightarrow> u32" where
  "lastmod_of f = u32_from_le_bytes (take 4 (drop 144 f))"

definition newer_than :: "u32 option \<Rightarrow> frame \<Rightarrow> bool" where
  "newer_than since f \<longleftrightarrow> (case since of None \<Rightarrow> True | Some t \<Rightarrow> t < lastmod_of f)"

lemma frame_lastmod_contact_frame: "frame_lastmod (contact_frame c) = Some (lastmod_of (contact_frame c))"
  by (simp add: frame_lastmod_def slice_simps lastmod_of_def)

lemma contact_frame_code: "\<exists>r. contact_frame c = 0x03 # r"
proof -
  have "hd ((take 148 x)[0 := 0x03 :: u8]) = 0x03" if "148 \<le> length x" for x
    using that by (cases x) auto
  then have "hd (contact_frame c) = 0x03"
    by (auto simp: contact_frame_def synthesize_contact_frame_def CONTACT_FRAME_LEN_def
        split: option.split)
  then show ?thesis
    using length_contact_frame [of c] by (cases "contact_frame c") auto
qed

lemma as_sent_contact [simp]: "as_sent s cid (contact_frame c) = contact_frame c"
  using contact_frame_code [of c] by (auto simp: as_sent_def message_frame_for_other)

lemma send_contacts_inbox:
  "send_contacts cid since cs recent s = Some (n, t) \<Longrightarrow>
   inbox t c = (if c = cid
     then map_option (\<lambda>q. q @ filter (newer_than since) (map contact_frame cs)) (inbox s c) else inbox s c) \<and>
   n = foldl max recent (map lastmod_of (filter (newer_than since) (map contact_frame cs))) \<and>
   protocol_versions t = protocol_versions s"
proof (induction cs arbitrary: recent s)
  case Nil
  then show ?case by (simp add: option.map_ident)
next
  case (Cons x cs)
  let ?f = "contact_frame x"
  show ?case
  proof (cases "newer_than since ?f")
    case True
    then have "send_contacts cid since cs (max recent (lastmod_of ?f)) (send_to_client cid ?f s) = Some (n, t)"
      using Cons.prems
      by (auto simp: frame_lastmod_contact_frame newer_than_def Let_def split: option.splits if_splits)
    from Cons.IH [OF this] True show ?thesis
      by (cases "inbox s cid") (simp_all add: inbox_send_to_client)
  next
    case False
    then have "send_contacts cid since cs recent s = Some (n, t)"
      using Cons.prems
      by (auto simp: frame_lastmod_contact_frame newer_than_def Let_def not_less split: option.splits if_splits)
    from Cons.IH [OF this] False show ?thesis by simp
  qed
qed

text \<open>C37. GET_CONTACTS from the cache, as the firmware does it: the client gets CONTACTS_START
  with the total number of contacts, then the frame of every contact modified after the
  \<open>since\<close> it gave (all of them without one), in the order of their names, and END_OF_CONTACTS
  with the most recent modification among those. Other clients get nothing.\<close>

theorem cached_contacts_served:
  assumes "inbox s cid = Some q" and "get_contacts env (db s) = Inr cs" and "cs \<noteq> []"
  shows "\<exists>t. let since = map_option u32_from_le_bytes (slice payload 1 5);
        sent = filter (newer_than since) (map contact_frame cs)
     in serve_contacts env cid payload s = Some (True, t) \<and>
        inbox t cid = Some (q @ ([0x02] @ u32_to_le_bytes (word_of_nat (length cs))) # sent @
          [[0x04] @ u32_to_le_bytes (foldl max 0 (map lastmod_of sent))]) \<and>
        (\<forall>c. c \<noteq> cid \<longrightarrow> inbox t c = inbox s c)"
proof -
  let ?since = "map_option u32_from_le_bytes (slice payload 1 5)"
  let ?start = "[0x02] @ u32_to_le_bytes (word_of_nat (length cs))"
  let ?s1 = "send_to_client cid ?start s"
  have b: "as_sent s cid (0x02 # x) = 0x02 # x" "as_sent s cid (0x04 # x) = 0x04 # x" for s x
    by (simp_all add: as_sent_def message_frame_for_other)
  obtain n s2 where s2: "send_contacts cid ?since cs 0 ?s1 = Some (n, s2)"
  proof (cases "send_contacts cid ?since cs 0 ?s1")
    case None
    have "send_contacts cid since cs r s \<noteq> None" for since cs r s
      by (induction cs arbitrary: r s) (simp_all add: frame_lastmod_contact_frame Let_def)
    with None show ?thesis by blast
  qed auto
  let ?t = "send_to_client cid ([0x04] @ u32_to_le_bytes n) s2"
  have t: "serve_contacts env cid payload s = Some (True, ?t)"
    using assms(2,3) s2 by (simp add: serve_contacts_def respond_contacts_def Let_def)
  have i: "inbox s2 c = (if c = cid then map_option (\<lambda>q. q @ filter (newer_than ?since) (map contact_frame cs))
      (inbox ?s1 c) else inbox ?s1 c)" for c
    using send_contacts_inbox [OF s2] by blast
  have n: "n = foldl max 0 (map lastmod_of (filter (newer_than ?since) (map contact_frame cs)))"
    using send_contacts_inbox [OF s2] by blast
  have "inbox ?t cid = Some (q @ ?start # filter (newer_than ?since) (map contact_frame cs) @
      [[0x04] @ u32_to_le_bytes n])"
    using assms(1) by (simp add: inbox_send_to_client i b)
  moreover have "inbox ?t c = inbox s c" if "c \<noteq> cid" for c
    using that by (simp add: inbox_send_to_client i)
  ultimately show ?thesis using t n by (auto simp: Let_def)
qed

text \<open>C38. A CONTACT frame of the radio is cached whole: the row written for its key is served as
  the very same frame, whatever the name and the coordinates in it are.\<close>

theorem contact_frame_roundtrip:
  assumes "length p = 148" and "hd p = 0x03" and "cache_contact env p s = Some t"
    and "db_ok env (UpsertContact (take 32 (drop 1 p)))"
  shows "\<exists>r. find_row contact_key (contacts (db t)) (take 32 (drop 1 p)) = Some r \<and>
    contact_frame (contact r) = p \<and> seen_at r = Some (unix_now env)"
proof -
  obtain c where c: "t = write_db (upsert_contact env c (db s)) s" and k: "public_key c = take 32 (drop 1 p)"
    and r: "raw c = Some (take 148 p)"
    using assms(1,3)
    by (auto simp: cache_contact_def bind_eq_Some_conv Let_def slice_simps CONTACT_FRAME_LEN_def)
  let ?row = "\<lparr>contact = c, seen_at = Some (unix_now env)\<rparr>"
  have "db t = (db s)\<lparr>contacts := upsert_row contact_key ?row (contacts (db s))\<rparr>"
    using assms(4) by (simp add: c k upsert_contact_def run_query_def write_db_def)
  then have "find_row contact_key (contacts (db t)) (take 32 (drop 1 p)) = Some ?row"
    using contact_table.look_put_key [of ?row "contacts (db s)"] k by simp
  moreover have "contact_frame c = p"
    using assms(1,2) r by (cases p) (auto simp: contact_frame_def CONTACT_FRAME_LEN_def)
  ultimately show ?thesis by simp
qed

text \<open>A CONTACT frame: key, type, flags, path, name, times and coordinates.\<close>

definition test_contact :: frame where
  "test_contact = [0x03] @ replicate 32 7 @ [1, 0, 0] @ replicate 64 0 @
     (as_bytes ''Ana'' @ replicate 29 0) @ [1, 0, 0, 0] @ [249, 0, 0, 0] @ [0, 0, 0, 0] @ [9, 0, 0, 0]"

lemma test_contact_facts:
  "length test_contact = 148" "hd test_contact = 0x03" "take 32 (drop 1 test_contact) = replicate 32 7"
  by (simp_all add: test_contact_def)

lemma test_env_db: "db_ok test_env c"
  by (simp add: test_env_def)

lemma goes_reachable:
  assumes "fx.goes s r" and "reachable s"
  shows "\<exists>t. r = Some t"
  using assms reachable_inv by (auto simp: fx.goes_def)

theorem contact_frame_roundtrip_witness:
  "\<exists>t r. cache_contact test_env test_contact client_core = Some t \<and>
     find_row contact_key (contacts (db t)) (replicate 32 7) = Some r \<and> contact_frame (contact r) = test_contact"
proof -
  obtain t where t: "cache_contact test_env test_contact client_core = Some t"
    using goes_reachable [OF goes_cache_contact reachable_client] test_contact_facts by fastforce
  show ?thesis
    using contact_frame_roundtrip [OF test_contact_facts(1,2) t, unfolded test_contact_facts(3)] t
    by (auto simp: test_env_db)
qed

definition contact_core :: core where
  "contact_core = client_core\<lparr>db := empty_state\<lparr>contacts := [old_contact]\<rparr>\<rparr>"

theorem cached_contacts_served_witness:
  "\<exists>t. serve_contacts test_env (ClientId 1) [0x04] contact_core = Some (True, t) \<and>
     inbox t (ClientId 1) = Some [[0x02] @ u32_to_le_bytes 1, contact_frame (contact old_contact),
       [0x04] @ u32_to_le_bytes (max 0 (lastmod_of (contact_frame (contact old_contact))))]"
proof -
  have q: "inbox contact_core (ClientId 1) = Some []"
    by (simp add: contact_core_def inbox_def test_core_defs hm_insert_def hm_get_def)
  have c: "get_contacts test_env (db contact_core) = Inr [contact old_contact]"
    by (simp add: get_contacts_def run_query_def test_env_def contact_core_def)
  have s: "map_option u32_from_le_bytes (slice [0x04] 1 5) = None" by (simp add: slice_simps)
  show ?thesis
    using cached_contacts_served [OF q c, of "[0x04]"]
    unfolding Let_def s newer_than_def by auto
qed

section \<open>Cached channels\<close>

lemma padded_eq: "length bs \<le> n \<Longrightarrow> padded n bs = bs @ replicate (n - length bs) 0"
  by (simp add: padded_def)

lemma position_nul_padded:
  assumes "\<forall>b \<in> set bs. b \<noteq> 0" and "length bs \<le> 32"
  shows "take (case position_nul (bs @ replicate (32 - length bs) 0) of Some n \<Rightarrow> n | None \<Rightarrow> 32)
    (bs @ replicate (32 - length bs) 0) = bs"
proof (cases "length bs = 32")
  case True
  then have "position_nul bs = None" using assms(1) by (simp add: position_nul_None)
  then show ?thesis using True by simp
next
  case False
  then obtain m where m: "32 - length bs = Suc m" using assms(2) by (cases "32 - length bs") auto
  have "position_nul (bs @ 0 # replicate m 0) = Some (length bs)"
    using assms(1) by (induction bs) auto
  then show ?thesis by (simp add: m)
qed

text \<open>A CHANNEL_INFO whose name is UTF-8 and padded with zeros is served from the cache byte
  for byte: the client that asks for that channel gets the frame the radio sent.\<close>

theorem channel_info_roundtrip:
  assumes len: "length p = 50" and code: "hd p = 0x12"
    and field: "take 32 (drop 2 p) = name @ replicate (32 - length name) 0"
    and name: "\<forall>b \<in> set name. b \<noteq> 0" "valid_utf8 name"
    and cached: "cache_channel_info env p s = Some t"
    and ok: "db_ok env (UpsertChannel (uint (p ! 1)))" "db_ok env' GetChannels"
    and keys: "distinct_key idx (channels (db s))"
  shows "serve_channel env' cid [0x1F, p ! 1] t = Some (True, send_to_client cid p t)"
proof -
  have l: "length name \<le> 32" using arg_cong [OF field, of length] len by simp
  let ?ch = "\<lparr>idx = uint (p ! 1), channel_name = from_utf8_lossy name, config = Some (drop 34 p)\<rparr>"
  let ?n = "case position_nul (take 32 (drop 2 p)) of Some n \<Rightarrow> n | None \<Rightarrow> 32"
  have n32: "?n \<le> 32" by (auto split: option.split dest!: position_nul_Some)
  have "slice p 2 (2 + ?n) = Some (take ?n (take 32 (drop 2 p)))"
    using len n32 by (simp add: slice_simps min_def)
  also have "\<dots> = Some name" unfolding field using position_nul_padded [OF name(1) l] by simp
  finally have sl: "slice p 2 (2 + ?n) = Some name" .
  have "take 16 (drop 34 p) = drop 34 p" using len by simp
  then have t: "t = write_db (upsert_channel env ?ch (db s)) s"
    using cached sl len
    by (simp add: cache_channel_info_def byte_at_def slice_simps Let_def)
  then have "channels (db t) = upsert_row idx ?ch (channels (db s))"
    using ok(1) by (simp add: upsert_channel_def run_query_def write_db_def)
  then have f: "find (\<lambda>c. idx c = uint (p ! 1)) (sort_key idx (channels (db t))) = Some ?ch"
    using find_row_sort [OF channel_table.ok_put [OF keys, of ?ch], where f = idx]
      channel_table.look_put_key [of ?ch "channels (db s)"] by simp
  have "channel_info_frame ?ch = [0x12, p ! 1] @ padded 32 name @ padded 16 (drop 34 p)"
    using name(2) by (simp add: channel_info_frame_def)
  also have "padded 32 name = take 32 (drop 2 p)" using l field by (simp add: padded_eq)
  also have "padded 16 (drop 34 p) = drop 34 p" using len by (simp add: padded_def)
  also have "[0x12, p ! 1] = take 2 p"
    using len code by (cases p; cases "tl p") (auto simp: numeral_2_eq_2)
  also have "take 2 p @ take 32 (drop 2 p) @ drop 34 p = p"
    using append_take_drop_id [of 2 p] append_take_drop_id [of 32 "drop 2 p"] by simp
  finally have "channel_info_frame ?ch = p" .
  then show ?thesis
    using f ok(2)
    by (simp add: serve_channel_def byte_at_def index_def get_channels_def run_query_def respond_channel_info_def)
qed

definition test_channel :: frame where
  "test_channel = [0x12, 2] @ (as_bytes ''Public'' @ replicate 26 0) @ replicate 16 5"

theorem channel_info_roundtrip_witness:
  "\<exists>t. cache_channel_info test_env test_channel client_core = Some t \<and>
     serve_channel test_env (ClientId 1) [0x1F, 2] t = Some (True, send_to_client (ClientId 1) test_channel t)"
proof -
  have f: "length test_channel = 50" "hd test_channel = 0x12" "test_channel ! 1 = 2"
    "take 32 (drop 2 test_channel) = as_bytes ''Public'' @ replicate (32 - length (as_bytes ''Public'')) 0"
    by (simp_all add: test_channel_def)
  have n: "\<forall>b \<in> set (as_bytes ''Public''). b \<noteq> 0" "valid_utf8 (as_bytes ''Public'')"
    by code_simp+
  obtain t where t: "cache_channel_info test_env test_channel client_core = Some t"
    using goes_reachable [OF goes_cache_channel_info reachable_client, of test_channel test_env] f by auto
  have "distinct_key idx (channels (db client_core))"
    using reachable_inv [OF reachable_client] by (simp add: core_inv_def store_inv_def)
  from channel_info_roundtrip [OF f(1,2,4) n t _ _ this, of test_env "ClientId 1"] t f(3)
  show ?thesis by (simp add: test_env_def)
qed

section \<open>Missed messages\<close>

text \<open>The frames still stored of a list of ids.\<close>

definition stored_frame :: "env \<Rightarrow> node_state \<Rightarrow> int \<Rightarrow> frame option" where
  "stored_frame env d i = (case message_frame env i d of Inr f \<Rightarrow> f | Inl e \<Rightarrow> None)"

definition stored_frames :: "env \<Rightarrow> node_state \<Rightarrow> int list \<Rightarrow> frame list" where
  "stored_frames env d ids = map the (filter (\<lambda>f. f \<noteq> None) (map (stored_frame env d) ids))"

lemma stored_frames_simps [simp]:
  "stored_frames env d [] = []"
  "stored_frames env d (i # ids) =
     (case stored_frame env d i of None \<Rightarrow> stored_frames env d ids | Some f \<Rightarrow> f # stored_frames env d ids)"
  by (simp_all add: stored_frames_def split: option.split)

lemma stored_frames_cong:
  assumes "messages d' = messages d"
  shows "stored_frames env d' ids = stored_frames env d ids"
proof -
  have "stored_frame env d' = stored_frame env d"
    by (simp add: fun_eq_iff stored_frame_def message_frame_def run_query_def assms)
  then show ?thesis by (simp add: stored_frames_def)
qed

lemma pop_missed_frames:
  assumes "pop_missed env d ids = (hit, rest)"
  shows "stored_frames env d ids = (case hit of None \<Rightarrow> [] | Some (i, f) \<Rightarrow> f # stored_frames env d rest)"
    and "hit = None \<Longrightarrow> rest = []" and "ids \<noteq> [] \<Longrightarrow> length rest < length ids"
    and "hit = Some (i, f) \<Longrightarrow> \<exists>skipped. ids = skipped @ i # rest"
proof -
  have "stored_frames env d ids = (case hit of None \<Rightarrow> [] | Some (i, f) \<Rightarrow> f # stored_frames env d rest) \<and>
    (hit = None \<longrightarrow> rest = []) \<and> (ids \<noteq> [] \<longrightarrow> length rest < length ids) \<and>
    (\<forall>i f. hit = Some (i, f) \<longrightarrow> (\<exists>skipped. ids = skipped @ i # rest))"
    using assms
  proof (induction env d ids rule: pop_missed.induct)
    case (2 env d j js)
    have *: "\<exists>skipped. j # js = skipped @ i # rest" if "\<exists>skipped. js = skipped @ i # rest" for i
      using that by (metis append_Cons)
    show ?case
    proof (cases "stored_frame env d j")
      case None
      then have "pop_missed env d js = (hit, rest)"
        using 2 by (auto simp: stored_frame_def split: sum.splits option.splits)
      moreover from this None have "stored_frames env d js = (case hit of None \<Rightarrow> []
          | Some (i, f) \<Rightarrow> f # stored_frames env d rest) \<and> (hit = None \<longrightarrow> rest = []) \<and>
          (js \<noteq> [] \<longrightarrow> length rest < length js) \<and>
          (\<forall>i f. hit = Some (i, f) \<longrightarrow> (\<exists>skipped. js = skipped @ i # rest))"
        using "2.IH" by (auto simp: stored_frame_def split: sum.splits option.splits)
      ultimately show ?thesis using None * by (cases js) auto
    next
      case (Some f)
      then have "hit = Some (j, f) \<and> rest = js"
        using 2(3) by (auto simp: stored_frame_def split: sum.splits option.splits)
      then show ?thesis using Some by auto
    qed
  qed simp
  then show "stored_frames env d ids = (case hit of None \<Rightarrow> [] | Some (i, f) \<Rightarrow> f # stored_frames env d rest)"
    "hit = None \<Longrightarrow> rest = []" "ids \<noteq> [] \<Longrightarrow> length rest < length ids"
    "hit = Some (i, f) \<Longrightarrow> \<exists>skipped. ids = skipped @ i # rest" by blast+
qed

lemma identity_ops_frame [simp]:
  "messages (db (advance_identity env i who s)) = messages (db s)"
  "sessions (advance_identity env i who s) = sessions s"
  "protocol_versions (advance_identity env i who s) = protocol_versions s"
  "inbox (advance_identity env i who s) c = inbox s c"
  by (auto simp: advance_identity_def write_db_def advance_client_cursor_def advance_cursor_def
      run_query_def inbox_def split: sum.split)

lemma send_to_client_frame [simp]:
  "db (send_to_client cid p s) = db s" "sessions (send_to_client cid p s) = sessions s"
  by (simp_all add: send_to_client_def split: option.split)

lemma advance_identity_cursor:
  assumes "db_ok env (AdvanceClientCursor (fst who) (snd who))"
  shows "cursor_of (db (advance_identity env i who s)) who' =
    (if who' = who then Some (case cursor_of (db s) who of None \<Rightarrow> i | Some c \<Rightarrow> max c i)
     else cursor_of (db s) who')"
  using assms
  by (simp add: advance_identity_def write_db_def advance_client_cursor_def run_query_def
      cursors.cursor_advance)

text \<open>One GET_MSG of a client with messages pending: what it gets, what is left, and where its
  cursor is when nothing is left.\<close>

lemma replay_step:
  assumes x: "hm_get (sessions s) cid = Some x" and q: "inbox s cid = Some q" and ok: "\<And>c. db_ok env c"
    and r: "replay_next_missed env cid s = (b, t)"
  obtains rest sent where "stored_frames env (db s) (session_pending x) = sent @ stored_frames env (db s) rest"
    and "inbox t cid = Some (q @ map (as_sent s cid) sent)" and "\<And>c. c \<noteq> cid \<Longrightarrow> inbox t c = inbox s c"
    and "hm_get (sessions t) cid = Some (x\<lparr>session_pending := rest\<rparr>)"
    and "messages (db t) = messages (db s)" and "protocol_versions t = protocol_versions s"
    and "session_pending x \<noteq> [] \<Longrightarrow> length rest < length (session_pending x)"
    and "session_pending x = [] \<Longrightarrow> rest = []"
    and "rest = [] \<Longrightarrow> \<exists>c. cursor_of (db t) (session_port x, session_app x) = Some c \<and>
      max_message_id (messages (db s)) \<le> c"
    and "b \<Longrightarrow> \<exists>i f skipped. sent = [f] \<and> session_pending x = skipped @ i # rest \<and>
      message_frame env i (db s) = Inr (Some f)"
proof -
  let ?who = "(session_port x, session_app x)"
  obtain hit rest where p: "pop_missed env (db s) (session_pending x) = (hit, rest)" by fastforce
  define sent where "sent = (case hit of None \<Rightarrow> [] | Some (i, f) \<Rightarrow> [f])"
  define s1 where "s1 = set_pending cid x rest s"
  define s2 where "s2 = (case hit of None \<Rightarrow> s1
    | Some (i, f) \<Rightarrow> advance_identity env i ?who (send_to_client cid f s1))"
  have i1: "inbox s1 c = inbox s c" "as_sent s1 c f = as_sent s c f" for c f
    by (simp_all add: s1_def set_pending_def inbox_def as_sent_def protocol_version_def)
  have f2: "messages (db s2) = messages (db s)" "protocol_versions s2 = protocol_versions s"
    "hm_get (sessions s2) cid = Some (x\<lparr>session_pending := rest\<rparr>)"
    by (auto simp: s2_def s1_def set_pending_def hm_simps split: option.split)
  have j2: "inbox s2 c = (if c = cid then Some (q @ map (as_sent s cid) sent) else inbox s c)" for c
    using q by (auto simp: s2_def sent_def i1 inbox_send_to_client split: option.split)
  have h: "message_head env (db s2) = Inr (max_message_id (messages (db s)))"
    by (simp add: message_head_def run_query_def ok f2)
  have "replay_next_missed env cid s = (hit \<noteq> None, if rest = []
      then case message_head env (db s2) of Inl e \<Rightarrow> s2 | Inr h \<Rightarrow> advance_identity env h ?who s2 else s2)"
    unfolding s2_def s1_def replay_next_missed_def Let_def by (simp add: x p)
  with r h have t: "t = (if rest = [] then advance_identity env (max_message_id (messages (db s))) ?who s2 else s2)"
    and b: "b \<longleftrightarrow> hit \<noteq> None" by auto
  have c: "\<exists>c. cursor_of (db t) ?who = Some c \<and> max_message_id (messages (db s)) \<le> c" if "rest = []"
    using that by (auto simp: t advance_identity_cursor [OF ok] split: option.split)
  have e: "\<exists>i f skipped. sent = [f] \<and> session_pending x = skipped @ i # rest \<and>
      message_frame env i (db s) = Inr (Some f)" if b': "b"
  proof -
    obtain i f where h: "hit = Some (i, f)" using b' b by auto
    show ?thesis
      using pop_missed_frames(4) [OF p h] pop_missed_parts(2) [OF p h] h by (auto simp: sent_def)
  qed
  show ?thesis
  proof (rule that [of sent rest])
    show "b \<Longrightarrow> \<exists>i f skipped. sent = [f] \<and> session_pending x = skipped @ i # rest \<and>
      message_frame env i (db s) = Inr (Some f)" by (rule e)
    show "stored_frames env (db s) (session_pending x) = sent @ stored_frames env (db s) rest"
      using pop_missed_frames(1,2) [OF p] by (auto simp: sent_def split: option.splits)
    show "session_pending x = [] \<Longrightarrow> rest = []" using p by simp
  qed (use pop_missed_frames(3) [OF p] c f2 j2 b in \<open>auto simp: t sent_def split: option.splits\<close>)
qed

text \<open>C19. In a reachable state, a GET_MSG is answered with a message from the store only if it
  was pending, still has its frame, and was not sent by a client of the same port and app; it
  goes to the client that asked and to no other, and is no longer pending.\<close>

theorem own_messages_not_replayed:
  assumes "reachable s" and "\<And>c. db_ok env c" and "hm_get (sessions s) cid = Some x"
    and "inbox s cid = Some q" and "replay_next_missed env cid s = (True, t)"
  shows "\<exists>m skipped rest. m \<in> set (messages (db s)) \<and> session_pending x = skipped @ msg_id m # rest \<and>
    \<not> (origin_port m = Some (uint (session_port x)) \<and>
       (origin_app m = None \<or> origin_app m = Some (session_app x))) \<and>
    inbox t cid = Some (q @ [message_frame_for (protocol_version s cid) (the (row_frame m))]) \<and>
    row_frame m \<noteq> None \<and> (\<forall>c. c \<noteq> cid \<longrightarrow> inbox t c = inbox s c) \<and>
    hm_get (sessions t) cid = Some (x\<lparr>session_pending := rest\<rparr>)"
proof -
  obtain rest sent where
    "stored_frames env (db s) (session_pending x) = sent @ stored_frames env (db s) rest"
    and i: "inbox t cid = Some (q @ map (as_sent s cid) sent)"
    and others: "\<And>c. c \<noteq> cid \<Longrightarrow> inbox t c = inbox s c"
    and x: "hm_get (sessions t) cid = Some (x\<lparr>session_pending := rest\<rparr>)"
    and "messages (db t) = messages (db s)" and "protocol_versions t = protocol_versions s"
    and "session_pending x \<noteq> [] \<Longrightarrow> length rest < length (session_pending x)"
    and "session_pending x = [] \<Longrightarrow> rest = []"
    and "rest = [] \<Longrightarrow> \<exists>c. cursor_of (db t) (session_port x, session_app x) = Some c \<and>
      max_message_id (messages (db s)) \<le> c"
    and hit: "True \<Longrightarrow> \<exists>i f skipped. sent = [f] \<and> session_pending x = skipped @ i # rest \<and>
      message_frame env i (db s) = Inr (Some f)"
    by (rule replay_step [OF assms(3,4,2,5)], rule that)
  obtain j f skipped where h: "sent = [f]" "session_pending x = skipped @ j # rest"
    "message_frame env j (db s) = Inr (Some f)" using hit by auto
  obtain m where m: "m \<in> set (messages (db s))" "msg_id m = j" "row_frame m = Some f"
    using message_frame_Some [OF h(3)] by auto
  have "pending_ok (db s) x"
    using reachable_inv [OF assms(1)] assms(3) by (simp add: core_inv_defs)
  then have "replayable_to (session_port x, session_app x) m"
    using m h(2) by (simp add: pending_ok_def)
  then have "\<not> (origin_port m = Some (uint (session_port x)) \<and>
      (origin_app m = None \<or> origin_app m = Some (session_app x)))"
    by (auto simp: replayable_to_def split: option.splits)
  with m h i others x show ?thesis
    by - (rule exI [of _ m], rule exI [of _ skipped], rule exI [of _ rest], simp add: as_sent_def)
qed

text \<open>A run in which a client connects, identifies itself and has messages 1 and 3 pending.\<close>

definition log_core :: core where
  "log_core = client_connected (ClientId 1)
     (new_core (test_config\<lparr>new_client_backlog := Messages 10\<rparr>) sample_log)"

definition app_start :: client_command where
  "app_start = \<lparr>command_client = ClientId 1, command_port = 5000,
     command_payload = [0x01, 0, 0, 0, 0, 0, 0, 0] @ as_bytes ''app''\<rparr>"

lemma reachable_log_core: "reachable log_core"
proof -
  let ?s = "new_core (test_config\<lparr>new_client_backlog := Messages 10\<rparr>) sample_log"
  have st: "startup test_env (\<lambda>t. False) [] [ShutdownFirst] ?s = Some (Aborted, ?s)"
    by (simp add: startup_def start_radio_def connect_backend_def backend_target_def new_core_def
        test_config_def reconnect_radio_def fail_all_def restore_blobs_def kv_blob_def kv_get_def
        run_query_def migrate_def empty_state_def sample_log_def hm_retain_def hm_get_def test_env_def)
  have "reachable ?s"
    by (rule reachable.start [OF sample_log_inv test_env_ok _ _ st]) (simp_all add: quiet_def quiet_attempts_def)
  then show ?thesis
    by (rule reachable.step [OF _ test_env_ok, of _ "ClientConnected (ClientId 1)"])
      (simp_all add: log_core_def)
qed

lemma app_start_name: "app_name_of (command_payload app_start) = ''app''"
  by (simp add: app_start_def) code_simp

lemma sample_backlog:
  "backlog_message_ids test_env (Messages 10) (5000, ''app'') sample_log = Inr [1, 3]"
  by (simp add: backlog_message_ids_def run_query_def test_env_def replayable_ids_def sample_log_def
      sample_message_def message_row_of_def replayable_to_def)


lemma log_core_facts:
  "db log_core = sample_log" "new_client_backlog (conf log_core) = Messages 10"
  "inbox log_core (ClientId 1) = Some []" "client_is_alive log_core (ClientId 1)"
  "self_info_raw log_core = None" "in_flight log_core = None" "radio_send_tx log_core = None"
  "hm_get (sessions log_core) c = None" "protocol_versions log_core = []"
  by (simp_all add: log_core_def test_core_defs inbox_def hm_simps migrate_def sample_log_def
      empty_state_def hm_retain_def)

lemma log_core_missed: "missed_ids test_env (5000, ''app'') log_core = Inr [1, 3]"
proof -
  have "client_cursor test_env (5000, ''app'') sample_log = Inr None"
    by (simp add: client_cursor_def run_query_def test_env_def sample_log_def empty_state_def hm_simps)
  then show ?thesis by (simp add: missed_ids_def log_core_facts sample_backlog)
qed

definition registered_core :: core where
  "registered_core = register_session test_env app_start log_core"

lemma registered_core_facts:
  "messages (db registered_core) = messages sample_log"
  "hm_get (sessions registered_core) (ClientId 1) =
     Some \<lparr>session_port = 5000, session_app = ''app'', session_pending = [1, 3]\<rparr>"
  "inbox registered_core (ClientId 1) = Some []" "self_info_raw registered_core = None"
  "in_flight registered_core = None" "radio_send_tx registered_core = None"
  "protocol_versions registered_core = []"
proof -
  have p: "command_port app_start = 5000" "command_client app_start = ClientId 1"
    by (simp_all add: app_start_def)
  let ?adv = "advance_client_cursor test_env (5000, ''app'') (start_cursor test_env [1, 3] log_core)
    (db log_core)"
  obtain d where d: "?adv = Inr d" "messages d = messages sample_log"
    by (simp add: advance_client_cursor_def run_query_def test_env_def advance_cursor_def log_core_facts)
  have eq: "registered_core = (log_core\<lparr>db := d\<rparr>)
      \<lparr>sessions := hm_insert (ClientId 1) \<lparr>session_port = 5000, session_app = ''app'',
        session_pending = [1, 3]\<rparr> (sessions log_core)\<rparr>"
    using d(1) by (simp add: registered_core_def register_session_def Let_def app_start_name
        log_core_missed p write_db_def)
  show
    "messages (db registered_core) = messages sample_log"
    "hm_get (sessions registered_core) (ClientId 1) =
       Some \<lparr>session_port = 5000, session_app = ''app'', session_pending = [1, 3]\<rparr>"
    "inbox registered_core (ClientId 1) = Some []" "self_info_raw registered_core = None"
    "in_flight registered_core = None" "radio_send_tx registered_core = None"
    "protocol_versions registered_core = []"
    using log_core_facts(3) by (simp_all add: eq d(2) log_core_facts hm_simps inbox_def)
qed

definition started_core :: core where
  "started_core = send_to_client (ClientId 1) error_frame registered_core"

lemma app_start_handled: "handle_client_command test_env app_start log_core = Some started_core"
proof -
  obtain rest where p: "command_payload app_start = 0x01 # rest" "command_client app_start = ClientId 1"
    by (simp add: app_start_def)
  have "log_event (hex test_env) (conf log_core) ''->'' 0x01 (command_payload app_start) \<noteq> None"
    by (simp add: log_event_None_iff [OF test_env_ok] log_panics_def)
  moreover have "serve_command test_env app_start 0x01 log_core = Some started_core"
    by (simp add: serve_command_def Let_def p registered_core_def [symmetric] note_version_def
        try_serve_from_cache_def serve_blob_def registered_core_facts enqueue_or_dispatch_def
        dispatch_to_radio_def send_to_radio_def send_opt_def forwarded_payload_def started_core_def)
  ultimately show ?thesis
    by (simp add: handle_client_command_eq p log_core_facts)
qed

lemma reachable_started: "reachable started_core"
proof (rule reachable.step [OF reachable_log_core test_env_ok])
  show "handle_event test_env (ClientCommandEvent app_start) log_core = Some started_core"
    by (simp add: app_start_handled)
  show "\<not> event_panics test_env (ClientCommandEvent app_start) log_core"
    by (simp add: app_start_def log_panics_def)
qed

theorem own_messages_not_replayed_witness:
  "\<exists>t m. replay_next_missed test_env (ClientId 1) started_core = (True, t) \<and>
     m \<in> set (messages sample_log) \<and> msg_id m \<in> {1, 3} \<and>
     inbox t (ClientId 1) = Some [error_frame, message_frame_for 0 (the (row_frame m))]"
proof -
  let ?x = "\<lparr>session_port = 5000, session_app = ''app'', session_pending = [1, 3]\<rparr>"
  have x: "hm_get (sessions started_core) (ClientId 1) = Some ?x"
    by (simp add: started_core_def registered_core_facts)
  have q: "inbox started_core (ClientId 1) = Some [error_frame]"
    by (simp add: started_core_def inbox_send_to_client registered_core_facts)
  have m: "messages (db started_core) = messages sample_log"
    by (simp add: started_core_def registered_core_facts)
  have v: "protocol_version started_core c = 0" for c
    by (simp add: started_core_def registered_core_facts protocol_version_def hm_simps)
  have "message_frame test_env 1 (db started_core) = Inr (Some [8, 1])"
    by (simp add: message_frame_def run_query_def test_env_def m sample_log_def sample_message_def
        message_row_of_def)
  then have "fst (replay_next_missed test_env (ClientId 1) started_core)"
    by (simp add: replay_next_missed_def x Let_def)
  then obtain t where t: "replay_next_missed test_env (ClientId 1) started_core = (True, t)"
    by (cases "replay_next_missed test_env (ClientId 1) started_core") simp
  from own_messages_not_replayed [OF reachable_started test_env_db x q t]
  obtain m' skipped rest where "m' \<in> set (messages sample_log)" "[1, 3] = skipped @ msg_id m' # rest"
    "inbox t (ClientId 1) = Some [error_frame, message_frame_for 0 (the (row_frame m'))]"
    by (auto simp: m v)
  moreover from this(2) have "set [1, 3] = set (skipped @ msg_id m' # rest)" by (rule arg_cong)
  then have "msg_id m' \<in> {1, 3}" by simp
  ultimately show ?thesis using t by blast
qed

end
