(* ===== verification/Core_Walk.thy ===== *)
theory Core_Walk
  imports Core_Routing
begin

text \<open>
  The composition of the handlers, once for every relation between the states before and after.
  A relation that holds across the elementary operations (delivering a reply, serving the queue,
  queueing a request of the proxy, connecting) holds across every event of the radio and the
  timers, across reconnections and across the startup.
\<close>

section \<open>The proxy's own commands\<close>

text \<open>The commands the proxy sends without being asked.\<close>

definition proxy_command :: "frame \<Rightarrow> bool" where
  "proxy_command p \<longleftrightarrow>
     p = build_appstart \<or> p = [0x16, RADIO_PROTOCOL_VERSION] \<or> p = [0x04] \<or>
     (length p = 2 \<and> hd p = 0x1F) \<or> (length p = 33 \<and> hd p = 0x1E)"

lemma own_commands [simp]:
  "proxy_command [0x04]" "proxy_command build_appstart" "proxy_command [0x16, RADIO_PROTOCOL_VERSION]"
  "proxy_command [0x1F, i]" "length pk = 32 \<Longrightarrow> proxy_command (0x1E # pk)"
  by (simp_all add: proxy_command_def)

lemma length_slice_key: "slice p 1 33 = Some pk \<Longrightarrow> length pk = 32"
  by (auto simp: slice_def split: if_splits)

text \<open>What an accepted command does to the link: it may queue a request of the proxy.\<close>

lemma accepted_in_flight:
  assumes "on_command_accepted env f s = Some t"
  shows "in_flight t = in_flight s"
proof -
  have "in_flight (notify_missed cid u) = in_flight u" for cid u
    using wire_simps(5) [of cid u] by (simp add: wire_def)
  moreover have "in_flight v = in_flight u" if "accepted_contacts env f cmd u = Some v" for cmd u v
    using that by (auto simp: accepted_contacts_def Let_def queue_contact_refresh_def push_queue_def write_db_def
        split: if_splits sum.splits)
  moreover have "in_flight v = in_flight u" if "accepted_echo env f cmd u = Some v" for cmd u v
  proof -
    have "wire v = wire u"
      using that wire_echo by (auto simp: accepted_echo_def Let_def split: option.splits if_splits)
    then show ?thesis by (simp add: wire_def)
  qed
  ultimately show ?thesis
    using assms by (auto simp: on_command_accepted_def bind_eq_Some_conv split: option.splits if_splits)
qed

section \<open>Relations that the elementary operations respect\<close>

text \<open>A relation between the states before and after is composed along the code: \<open>step_relation\<close> is
  what all need, \<open>command_relation\<close> carries it across the commands of clients,
  \<open>handler_relation\<close> across frames of the radio and the timers, \<open>cycle_relation\<close> across
  connecting, reconnecting and the startup, and \<open>event_relation\<close> across all events.\<close>

locale step_relation =
  fixes rel :: "core \<Rightarrow> core \<Rightarrow> bool"
  assumes rel_trans: "rel s t \<Longrightarrow> rel t u \<Longrightarrow> rel s u"
    and rel_face: "face t = face s \<Longrightarrow> rel s t"
begin

lemma rel_same: "rel s s"
  by (rule rel_face) simp

lemma rel_face_then: "face t = face s \<Longrightarrow> rel t u \<Longrightarrow> rel s u"
  by (rule rel_trans [OF rel_face])

end

interpretation same_wire: step_relation "\<lambda>s t. wire t = wire s"
  by (rule step_relation.intro) (erule trans [rotated], assumption, rule face_wire)

section \<open>Commands of clients\<close>

lemma face_session_ops [simp]:
  "face (s\<lparr>sessions := x\<rparr>) = face s" "face (s\<lparr>protocol_versions := y\<rparr>) = face s"
  "face (s\<lparr>pending_acks := z\<rparr>) = face s"
  "face (register_session env cmd s) = face s" "face (note_version cid code p s) = face s"
  "face (record_ack env cid code p s) = face s" "face (set_pending cid sess ids s) = face s"
  by (auto simp: face_def wire_def register_session_def note_version_def record_ack_def set_pending_def
      write_db_def Let_def split: option.split sum.split)

text \<open>A command is answered by frames to its client, or it goes to the queue.\<close>

locale command_relation = step_relation +
  assumes rel_send: "rel s (send_to_client cid p s)"
    and rel_enqueue: "enqueue_or_dispatch env c p s = Some t \<Longrightarrow> rel s t"
begin

lemma missed_rel: "rel s (notify_missed cid s)"
  by (simp add: notify_missed_def rel_send rel_same split: option.split)

lemma replay_rel: "rel s (snd (replay_next_missed env cid s))"
proof (cases "hm_get (sessions s) cid")
  case (Some x)
  obtain hit rest where h: "pop_missed env (db s) (session_pending x) = (hit, rest)" by fastforce
  let ?who = "(session_port x, session_app x)"
  let ?s1 = "set_pending cid x rest s"
  let ?s2 = "case hit of None \<Rightarrow> ?s1 | Some (i, f) \<Rightarrow> advance_identity env i ?who (send_to_client cid f ?s1)"
  have "rel ?s1 ?s2"
    using rel_trans [OF rel_send rel_face] by (simp add: rel_same split: option.split prod.split)
  then have e: "rel s ?s2" by (rule rel_face_then [rotated]) simp
  have "face (snd (replay_next_missed env cid s)) = face ?s2"
    by (simp add: replay_next_missed_def Some h Let_def split: sum.split)
  then show ?thesis using e rel_trans rel_face by blast
qed (simp add: replay_next_missed_def rel_same)

lemma contacts_rel: "send_contacts cid since cs r s = Some (n, t) \<Longrightarrow> rel s t"
proof (induction cs arbitrary: r s)
  case (Cons c cs)
  then obtain s' r' where "send_contacts cid since cs r' s' = Some (n, t)"
    "s' = s \<or> s' = send_to_client cid (contact_frame c) s"
    by (auto simp: Let_def bind_eq_Some_conv split: if_splits)
  then show ?case using Cons.IH rel_send rel_trans by blast
qed (simp add: rel_same)

lemma respond_rel: "respond_contacts cid cs since s = Some t \<Longrightarrow> rel s t"
  by (auto simp: respond_contacts_def Let_def bind_eq_Some_conv
      intro: rel_trans [OF rel_send] rel_trans [OF contacts_rel rel_send])

lemma serve_contacts_rel: "serve_contacts env cid p s = Some r \<Longrightarrow> rel s (snd r)"
  by (auto simp: serve_contacts_def respond_rel rel_same split: sum.splits if_splits)

lemma serve_channel_rel: "serve_channel env cid p s = Some r \<Longrightarrow> rel s (snd r)"
  by (auto simp: serve_channel_def respond_channel_info_def bind_eq_Some_conv rel_send rel_same
      split: sum.split option.split)

lemma serve_rel: "try_serve_from_cache env code cmd s = Some r \<Longrightarrow> rel s (snd r)"
  by (auto simp: try_serve_from_cache_def Let_def serve_blob_def serve_contacts_rel
      serve_channel_rel rel_send rel_same split: option.splits if_splits)

lemma client_command_rel:
  assumes "handle_client_command env cmd s = Some t"
  shows "rel s t"
proof (cases "t = s")
  case False
  then obtain code where sc: "serve_command env cmd code s = Some t"
    using assms by (auto simp: handle_client_command_eq split: list.splits if_splits)
  let ?s2 = "note_version (command_client cmd) code (command_payload cmd)
      (if code = 0x01 then register_session env cmd s else s)"
  obtain b s3 where r: "(if code = 0x0A then replay_next_missed env (command_client cmd) ?s2
      else (False, ?s2)) = (b, s3)" by fastforce
  have "rel ?s2 s3"
    using r replay_rel [of ?s2 env "command_client cmd"] by (cases "code = 0x0A") (auto simp: rel_same)
  then have e3: "rel s s3" by (rule rel_face_then [rotated]) simp
  show ?thesis
  proof (cases b)
    case True
    then show ?thesis using sc r e3 by (simp add: serve_command_def Let_def)
  next
    case False
    then obtain served s4 where s4: "try_serve_from_cache env code cmd s3 = Some (served, s4)"
      and t: "(if served then Some (if code = 0x01 then notify_missed (command_client cmd) s4 else s4)
        else enqueue_or_dispatch env (Some (command_client cmd))
          (forwarded_payload code (command_payload cmd)) s4) = Some t"
      using sc r by (auto simp: serve_command_def Let_def bind_eq_Some_conv)
    have "rel s3 s4" using serve_rel [OF s4] by simp
    moreover have "rel s4 t"
      using t rel_enqueue missed_rel by (auto simp: rel_same split: if_splits)
    ultimately show ?thesis using e3 rel_trans by blast
  qed
qed (simp add: rel_same)

end

section \<open>The radio and the timers\<close>

locale handler_relation = step_relation +
  assumes rel_ended: "in_flight s = Some f \<Longrightarrow>
      rel s ((deliver_reply env (flight_client f) cmd code p s)\<lparr>in_flight := None\<rparr>)"
    and rel_continued: "in_flight s = Some f \<Longrightarrow>
      rel s ((deliver_reply env (flight_client f) cmd code p s)\<lparr>in_flight := Some (f\<lparr>last_activity := n\<rparr>)\<rparr>)"
    and rel_given_up: "in_flight s = Some f \<Longrightarrow>
      rel s (send_opt (flight_client f) error_frame (s\<lparr>in_flight := None\<rparr>))"
    and rel_advance: "advance_queue env s = Some t \<Longrightarrow> in_flight s = None \<Longrightarrow> rel s t"
    and rel_notify: "rel s (notify_missed cid s)"
    and rel_others: "rel s (broadcast_to_others x p s)"
    and rel_acked: "rel s (snd (try_route_ack code p s))"
    and rel_push: "proxy_command p \<Longrightarrow> rel s (push_queue (internal p) s)"
begin

lemma rel_refresh: "slice p 1 33 = Some pk \<Longrightarrow> rel s (queue_contact_refresh pk s)"
  unfolding queue_contact_refresh_def by (rule rel_push) (simp add: length_slice_key)

lemma rel_push_advance:
  assumes "rel s u" and "(if in_flight u = None then advance_queue env u else Some u) = Some t"
  shows "rel s t"
  using assms rel_trans rel_advance by (auto split: if_splits)

text \<open>Frames of the radio.\<close>

lemma accepted_rel:
  assumes "on_command_accepted env f s = Some t"
  shows "rel s t"
proof -
  obtain cmd where "index (flight_payload f) 0 = Some cmd"
    using assms by (auto simp: on_command_accepted_def bind_eq_Some_conv)
  define s1 where "s1 = (if cmd = 0x01 then (case flight_client f of
      Some cid \<Rightarrow> notify_missed cid s | None \<Rightarrow> s) else s)"
  obtain s2 where s2: "accepted_contacts env f cmd s1 = Some s2" and t: "accepted_echo env f cmd s2 = Some t"
    using assms \<open>index (flight_payload f) 0 = Some cmd\<close>
    by (auto simp: on_command_accepted_def bind_eq_Some_conv s1_def)
  have "rel s s1" by (simp add: s1_def rel_notify rel_same split: option.split)
  moreover have "rel s1 s2"
    using s2 by (auto simp: accepted_contacts_def Let_def rel_same intro: rel_push rel_refresh rel_face
        split: if_splits)
  moreover have "rel s2 t"
    using t by (auto simp: accepted_echo_def synthesize_contact_echo_def synthesize_channel_echo_def
        bind_eq_Some_conv Let_def rel_same intro: rel_trans [OF rel_others rel_face]
        split: option.splits if_splits)
  ultimately show ?thesis using rel_trans by blast
qed

lemma route_rel:
  assumes "try_route_to_in_flight env code p s = Some (b, t)"
  shows "rel s t"
proof (cases "t = s")
  case False
  then obtain f cmd where f: "in_flight s = Some f"
    and cl: "fst (classify (awaiting_reply f) code)" and cmd: "index (flight_payload f) 0 = Some cmd"
    using assms by (auto simp: try_route_to_in_flight_def Let_def bind_eq_Some_conv
        split: option.splits prod.splits if_splits)
  show ?thesis
  proof (cases "snd (classify (awaiting_reply f) code)")
    case True
    let ?t = "(deliver_reply env (flight_client f) cmd code p s)\<lparr>in_flight := None\<rparr>"
    obtain s2 where s2: "(if code \<noteq> 0x01 then on_command_accepted env f ?t else Some ?t) = Some s2"
      and t: "advance_queue env s2 = Some t"
      using assms f cl cmd True
      by (auto simp: try_route_to_in_flight_def Let_def bind_eq_Some_conv split: prod.splits)
    have r: "rel ?t s2" using s2 accepted_rel by (auto simp: rel_same split: if_splits)
    have "in_flight s2 = None"
      using s2 accepted_in_flight [of env f ?t s2] by (auto split: if_splits)
    from rel_trans [OF rel_ended [OF f] rel_trans [OF r rel_advance [OF t this]]] show ?thesis .
  next
    case False
    then show ?thesis
      using assms f cl cmd rel_continued [OF f]
      by (auto simp: try_route_to_in_flight_def Let_def bind_eq_Some_conv split: prod.splits)
  qed
qed (simp add: rel_same)

lemma refresh_rel:
  assumes "refresh_advertised env code p s = Some t"
  shows "rel s t"
proof (cases "(code = 0x80 \<or> code = 0x81) \<and> length p \<ge> 33")
  case True
  then obtain pk where pk: "slice p 1 33 = Some pk"
    and t: "(if in_flight (queue_contact_refresh pk s) = None
      then advance_queue env (queue_contact_refresh pk s) else Some (queue_contact_refresh pk s)) = Some t"
    using assms by (auto simp: refresh_advertised_def Let_def bind_eq_Some_conv)
  show ?thesis by (rule rel_push_advance [OF rel_refresh [OF pk] t])
qed (use assms in \<open>auto simp: refresh_advertised_def rel_same\<close>)

text \<open>The last thing a frame may do is to be broadcast, and then it is a push.\<close>

lemma radio_rx_parts:
  assumes "handle_radio_rx env p s = Some t"
  shows "\<exists>u. rel s u \<and> (t = u \<or> t = broadcast p u \<and> p \<noteq> [] \<and> is_push_event (hd p))"
proof (cases p)
  case (Cons code rest)
  then obtain u where u: "cache_response env code p s = Some u"
    and r: "route_frame env code p (record_raw env code p u) = Some t"
    using assms by (auto simp: handle_radio_rx_eq bind_eq_Some_conv split: if_splits)
  let ?v = "record_raw env code p u"
  have v: "rel s ?v" by (rule rel_face) (simp add: face_cache_response [OF u])
  obtain b s1 where s1: "try_route_to_in_flight env code p ?v = Some (b, s1)"
    and t: "(if b then Some s1 else let (acked, s2) = try_route_ack code p s1 in if acked then Some s2
        else if is_push_event code then map_option (broadcast p) (refresh_advertised env code p s2)
        else Some s2) = Some t"
    using r by (auto simp: route_frame_def bind_eq_Some_conv)
  have e1: "rel s s1" by (rule rel_trans [OF v route_rel [OF s1]])
  obtain acked s2 where a: "try_route_ack code p s1 = (acked, s2)" by fastforce
  then have e2: "rel s s2" using rel_trans [OF e1 rel_acked [of s1 code p]] by simp
  have "rel s x" if "refresh_advertised env code p s2 = Some x" for x
    by (rule rel_trans [OF e2 refresh_rel [OF that]])
  then show ?thesis using t a e1 e2 Cons by (auto split: if_splits)
qed (use assms rel_same in \<open>auto simp: handle_radio_rx_def\<close>)

text \<open>The timers.\<close>

lemma timeout_rel:
  assumes "check_in_flight_timeout env s = Some t"
  shows "rel s t"
proof (cases "t = s")
  case False
  then obtain f where f: "in_flight s = Some f"
    and t: "advance_queue env (send_opt (flight_client f) error_frame (s\<lparr>in_flight := None\<rparr>)) = Some t"
    using assms by (auto simp: check_in_flight_timeout_def split: option.splits if_splits)
  have "wire (send_opt (flight_client f) error_frame (s\<lparr>in_flight := None\<rparr>)) = wire (s\<lparr>in_flight := None\<rparr>)"
    by simp
  then have "in_flight (send_opt (flight_client f) error_frame (s\<lparr>in_flight := None\<rparr>)) = None"
    by (simp add: wire_def)
  then show ?thesis using rel_trans [OF rel_given_up [OF f] rel_advance [OF t]] by blast
qed (simp add: rel_same)

lemma maintenance_rel:
  assumes "run_maintenance env s = Some t"
  shows "rel s t"
proof -
  obtain u where u: "request_full_sync env s = Some u" and f: "face t = face u"
    using assms by (auto simp: run_maintenance_def bind_eq_Some_conv)
  have "rel s u"
  proof (cases "u = s")
    case False
    then show ?thesis
      using u by (intro rel_push_advance [OF rel_push [of "[0x04]"]])
        (auto simp: request_full_sync_def Let_def split: if_splits)
  qed (simp add: rel_same)
  then show ?thesis using rel_trans rel_face [OF f] by blast
qed

end

section \<open>The life cycle\<close>

locale cycle_relation = step_relation +
  assumes rel_fail_all: "rel s (fail_all s)"
    and rel_link: "rel s (s\<lparr>radio_send_tx := c\<rparr>)"
    and rel_up: "rel s (s\<lparr>radio_up := up\<rparr>)"
    and rel_connect: "connect_backend env dial s = Inr t \<Longrightarrow> rel s t"
    and rel_initialize: "initialize_radio env evs s = Some r \<Longrightarrow> rel s (snd r)"
    and rel_sync: "sync_from_radio env s = Some t \<Longrightarrow> link s = (Some Open, None, []) \<Longrightarrow> rel s t"
begin

text \<open>Connecting, with nothing in flight or queued.\<close>

lemma connected_rel:
  assumes "connect_backend env dial s = Inr u" and "initialize_radio env evs u = Some (r, t)"
    and "in_flight s = None" and "pending_queue s = []"
  shows "rel s t" and "link t = (Some Open, None, [])"
  using rel_trans [OF rel_connect [OF assms(1)] rel_initialize [OF assms(2)]]
    link_initialize_radio [OF assms(2)] connect_backend_link [OF assms(1)] assms(3,4) by simp_all

lemma ready_rel:
  assumes "connect_backend env dial s = Inr u" and "initialize_radio env evs u = Some (r, v)"
    and "sync_from_radio env' v = Some w" and "in_flight s = None" and "pending_queue s = []"
  shows "rel s (w\<lparr>radio_up := b\<rparr>)"
  using connected_rel [OF assms(1,2,4,5)] rel_sync [OF assms(3)] rel_up rel_trans by blast

lemma failed_rel:
  assumes "connect_backend env dial s = Inr u" and "initialize_radio env evs u = Some (r, v)"
    and "in_flight s = None" and "pending_queue s = []"
  shows "rel s (v\<lparr>radio_send_tx := c\<rparr>)"
    and "in_flight (v\<lparr>radio_send_tx := c\<rparr>) = None" and "pending_queue (v\<lparr>radio_send_tx := c\<rparr>) = []"
  using connected_rel [OF assms] rel_link rel_trans by (auto simp: link_def)

lemma reconnect_loop_rel:
  "reconnect_loop delay as s = Some (r, ds, t) \<Longrightarrow> in_flight s = None \<Longrightarrow> pending_queue s = [] \<Longrightarrow> rel s t"
proof (induction rule: reconnect_loop_induct)
  case (Ready delay dial evs later s s1 s2 s3)
  then show ?case by (intro ready_rel)
next
  case (Failed delay dial evs later s s1 s2 e r ds t)
  note f = failed_rel [OF Failed(1,2,4,5)]
  from rel_trans [OF f(1) Failed(3) [OF f(2,3)]] show ?case .
next
  case (Waiting delay dial evs later s s1 s2)
  then show ?case by (intro connected_rel(1))
qed (simp_all add: rel_same)

lemma reconnect_rel:
  assumes "reconnect_radio as s = Some (r, ds, t)"
  shows "rel s t"
proof -
  let ?s = "s\<lparr>radio_send_tx := None, radio_up := False\<rparr>"
  have "rel s ?s" by (rule rel_trans [OF rel_link rel_up])
  moreover have "in_flight (fail_all ?s) = None" "pending_queue (fail_all ?s) = []"
    using link_fail_all [of ?s] by (simp_all add: link_def)
  then have "rel (fail_all ?s) t" using assms reconnect_loop_rel by (simp add: reconnect_radio_def)
  ultimately show ?thesis using rel_trans rel_fail_all by blast
qed

lemma start_rel:
  assumes "start_radio env dial evs as s = Some (r, t)" and "in_flight s = None" and "pending_queue s = []"
  shows "rel s t"
proof -
  have retry: "rel u t" if "map_option (\<lambda>(r, ds, t). (r, t)) (reconnect_radio as u) = Some (r, t)" for u
    using that reconnect_rel by auto
  show ?thesis
  proof (cases "connect_backend env dial s")
    case (Inl e)
    then show ?thesis using assms(1) retry by (simp add: start_radio_def Let_def)
  next
    case (Inr u)
    then obtain o1 v where v: "initialize_radio env evs u = Some (o1, v)"
      and c: "(case o1 of Ready \<Rightarrow> Option.bind (sync_from_radio (at_end env evs) v)
                    (\<lambda>s3. Some (Reconnected, s3\<lparr>radio_up := True\<rparr>))
        | Failed e \<Rightarrow> map_option (\<lambda>(r, ds, t). (r, t)) (reconnect_radio as (v\<lparr>radio_send_tx := None\<rparr>))
        | Waiting \<Rightarrow> Some (StillTrying, v)) = Some (r, t)"
      using assms(1) by (auto simp: start_radio_def Let_def bind_eq_Some_conv)
    show ?thesis
    proof (cases o1)
      case Ready
      then show ?thesis using c ready_rel [OF Inr v _ assms(2,3)] by (auto simp: bind_eq_Some_conv)
    next
      case (Failed e)
      then have "rel (v\<lparr>radio_send_tx := None\<rparr>) t" using c retry by simp
      with failed_rel(1) [OF Inr v assms(2,3)] show ?thesis by (rule rel_trans)
    next
      case Waiting
      then show ?thesis using c connected_rel(1) [OF Inr v assms(2,3)] by simp
    qed
  qed
qed

lemma startup_rel:
  assumes "startup env dial evs as s = Some (r, t)" and "in_flight s = None" and "pending_queue s = []"
  shows "rel s t"
proof -
  obtain u where u: "start_radio env dial evs as s = Some (r, u)" and t: "face t = face u"
    using assms(1) by (auto simp: startup_def bind_eq_Some_conv face_restore_blobs split: if_splits)
  from rel_trans [OF start_rel [OF u assms(2,3)] rel_face [OF t]] show ?thesis .
qed

end

section \<open>Every event\<close>

locale event_relation = handler_relation rel + cycle_relation rel
  for rel :: "core \<Rightarrow> core \<Rightarrow> bool" +
  assumes rel_broadcast: "rel s (broadcast p s)"
begin

lemma radio_rx_rel:
  assumes "handle_radio_rx env p s = Some t"
  shows "rel s t"
  using radio_rx_parts [OF assms] rel_trans [OF _ rel_broadcast] by blast

text \<open>The events that are not commands of clients or changes of the connections.\<close>

lemma event_rel:
  assumes "handle_event env ev s = Some t" and "\<And>cmd. ev \<noteq> ClientCommandEvent cmd"
    and "\<And>cid. ev \<noteq> ClientConnected cid" and "\<And>cid. ev \<noteq> ClientDisconnected cid"
  shows "rel s t"
proof (cases ev)
  case (RadioFrame p)
  then show ?thesis using assms(1) radio_rx_rel by simp
next
  case (RadioLost as)
  then show ?thesis using assms(1) reconnect_rel by auto
next
  case TimeoutTick
  then show ?thesis using assms(1) timeout_rel by simp
next
  case MaintenanceTick
  then show ?thesis using assms(1) maintenance_rel by simp
qed (use assms rel_link in \<open>auto simp: shutdown_def radio_channel_closed_def\<close>)

end

end
