(* ===== verification/Core_Fifo.thy ===== *)
theory Core_Fifo
  imports Core_Walk "HOL-Library.Sublist"
begin

text \<open>
  The serialized radio as a FIFO server, an abstract specification of the \<open>Core\<close> actor: the
  work of a state is the request in flight followed by the queue; an event may append requests at
  the end and take requests off the front, and nothing else. The specification is stated once for
  a server with these laws and carried over to runs of the event loop.
\<close>

section \<open>FIFO servers\<close>

locale fifo_server =
  fixes work :: "'s \<Rightarrow> 'r list" and act :: "'e \<Rightarrow> 's \<Rightarrow> 's option"
    and asked :: "'e \<Rightarrow> 'r list" and own :: "'r \<Rightarrow> bool" and inv :: "'s \<Rightarrow> bool"
  assumes act_fifo: "inv s \<Longrightarrow> act e s = Some t \<Longrightarrow>
      \<exists>new. suffix (work t) (work s @ new) \<and> subseq (filter own new) (asked e)"
    and act_inv: "inv s \<Longrightarrow> act e s = Some t \<Longrightarrow> inv t"
begin

primrec run :: "'e list \<Rightarrow> 's \<Rightarrow> 's option" where
  "run [] s = Some s"
| "run (e # es) s = Option.bind (act e s) (run es)"

lemma run_fifo:
  "run es s = Some t \<Longrightarrow> inv s \<Longrightarrow>
   \<exists>new. suffix (work t) (work s @ new) \<and> subseq (filter own new) (concat (map asked es))"
proof (induction es arbitrary: s)
  case (Cons e es)
  then obtain u where u: "act e s = Some u" and t: "run es u = Some t"
    by (auto simp: bind_eq_Some_conv)
  obtain n1 where n1: "suffix (work u) (work s @ n1)" "subseq (filter own n1) (asked e)"
    using act_fifo [OF Cons.prems(2) u] by blast
  obtain n2 where n2: "suffix (work t) (work u @ n2)" "subseq (filter own n2) (concat (map asked es))"
    using Cons.IH [OF t act_inv [OF Cons.prems(2) u]] by blast
  have "suffix (work u @ n2) (work s @ n1 @ n2)"
    using n1(1) by (auto simp: suffix_def)
  then have "suffix (work t) (work s @ n1 @ n2)" using n2(1) by (rule suffix_order.order_trans [rotated])
  moreover have "subseq (filter own (n1 @ n2)) (concat (map asked (e # es)))"
    using n1(2) n2(2) by (simp add: list_emb_append_mono)
  ultimately show ?case by blast
qed (auto intro: exI [of _ "[]"])

end

section \<open>The work of a state\<close>

type_synonym request = "client_id option \<times> frame"

definition work :: "core \<Rightarrow> request list" where
  "work s =
     (case in_flight s of None \<Rightarrow> [] | Some f \<Rightarrow> [(flight_client f, flight_payload f)]) @
     map (\<lambda>q. (queued_client q, queued_payload q)) (pending_queue s)"

text \<open>What a client asks of the radio with a command, unless the cache answers it.\<close>

definition request_of :: "client_command \<Rightarrow> request list" where
  "request_of cmd =
     (case command_payload cmd of
        [] \<Rightarrow> []
      | code # _ \<Rightarrow> [(Some (command_client cmd), forwarded_payload code (command_payload cmd))])"

fun requested :: "core_event \<Rightarrow> request list" where
  "requested (ClientCommandEvent cmd) = request_of cmd"
| "requested ev = []"

definition is_client_request :: "request \<Rightarrow> bool" where
  "is_client_request r \<longleftrightarrow> fst r \<noteq> None"

text \<open>The step of the specification: the new work is a suffix of the old with entries behind it,
  of which those of clients are among the \<open>asked\<close>.\<close>

definition moves :: "request list \<Rightarrow> core \<Rightarrow> core \<Rightarrow> bool" where
  "moves asked s t \<longleftrightarrow>
     (\<exists>new. suffix (work t) (work s @ new) \<and> subseq (filter is_client_request new) asked)"

lemma moves_same: "wire t = wire s \<Longrightarrow> moves asked s t"
  unfolding moves_def by (rule exI [of _ "[]"]) (simp add: work_def wire_def)

lemma moves_suffix: "suffix (work t) (work s) \<Longrightarrow> moves asked s t"
  unfolding moves_def by (rule exI [of _ "[]"]) simp

lemma moves_trans: "moves a s t \<Longrightarrow> moves b t u \<Longrightarrow> moves (a @ b) s u"
proof -
  assume "moves a s t" "moves b t u"
  then obtain n m where nm: "suffix (work t) (work s @ n)" "suffix (work u) (work t @ m)"
    "subseq (filter is_client_request n) a" "subseq (filter is_client_request m) b"
    by (auto simp: moves_def)
  have "suffix (work t @ m) (work s @ n @ m)" using nm(1) by (auto simp: suffix_def)
  with nm show "moves (a @ b) s u"
    unfolding moves_def by (intro exI [of _ "n @ m"])
      (auto intro: suffix_order.order_trans list_emb_append_mono)
qed

lemma moves_internal: "moves [] s t \<Longrightarrow> moves asked s t"
  using moves_trans [of "[]" s t asked t] moves_same [of t t asked] by simp

lemma moves_then: "moves [] s t \<Longrightarrow> moves a t u \<Longrightarrow> moves a s u"
  using moves_trans [of "[]" s t a u] by simp

lemma moves_then_internal: "moves a s t \<Longrightarrow> moves [] t u \<Longrightarrow> moves a s u"
  using moves_trans [of a s t "[]" u] by simp

lemma work_wire: "wire t = wire s \<Longrightarrow> work t = work s"
  by (simp add: work_def wire_def)

lemma moves_push_internal:
  "queued_client q = None \<Longrightarrow> moves [] s (push_queue q s)"
  unfolding moves_def
  by (rule exI [of _ "[(None, queued_payload q)]"])
    (simp add: work_def push_queue_def is_client_request_def split: option.split)

section \<open>The operations\<close>

lemma work_idle: "in_flight s = None \<Longrightarrow> work s = map (\<lambda>q. (queued_client q, queued_payload q)) (pending_queue s)"
  by (simp add: work_def)

lemma moves_dispatch:
  assumes "dispatch_to_radio env c p s = Some t" and "in_flight s = None" and "pending_queue s = []"
  shows "moves [(c, p)] s t"
proof -
  have q: "pending_queue t = []" using dispatch_to_radio_queue [OF assms(1)] assms(3) by simp
  have "work t = [(c, p)] \<or> work t = []"
    using dispatch_cases [OF assms(1)]
  proof
    assume "radio_send_tx s \<noteq> Some Open \<and> t = send_opt c error_frame s"
    then have "work t = work s" by (intro work_wire) simp
    then show ?thesis using assms(2,3) by (simp add: work_def)
  qed (auto simp: work_def q)
  then show ?thesis
    unfolding moves_def
    by (intro exI [of _ "[(c, p)]"]) (auto simp: work_idle [OF assms(2)] assms(3))
qed

lemma moves_enqueue:
  assumes "never_stalls s" and "enqueue_or_dispatch env c p s = Some t"
  shows "moves [(c, p)] s t"
proof (cases "in_flight s")
  case None
  then show ?thesis using assms moves_dispatch by (simp add: enqueue_or_dispatch_def never_stalls_def)
next
  case (Some f)
  then have "t = push_queue \<lparr>queued_client = c, queued_payload = p\<rparr> s"
    using assms(2) by (simp add: enqueue_or_dispatch_def)
  then show ?thesis
    unfolding moves_def by (intro exI [of _ "[(c, p)]"]) (simp add: work_def push_queue_def)
qed

lemma moves_advance:
  assumes "advance_queue env s = Some t" and "in_flight s = None"
  shows "moves asked s t"
proof -
  obtain skipped rest where r: "pending_queue s = skipped @ rest" "advanced s t rest"
    using advance_queue_order [OF assms] by blast
  then have "work t = map (\<lambda>q. (queued_client q, queued_payload q)) rest"
    by (auto simp: advanced_def work_def split: option.splits)
  then have "suffix (work t) (work s)"
    using r(1) by (simp add: work_idle [OF assms(2)] suffix_def)
  then show ?thesis by (rule moves_suffix)
qed

lemma moves_client_command:
  assumes "never_stalls s" and "handle_client_command env cmd s = Some t"
  shows "moves (request_of cmd) s t"
  using assms(2)
proof (cases rule: client_command_cases)
  case Served
  then show ?thesis by (rule moves_same)
next
  case (Asked code rest u)
  have "never_stalls u" using assms(1) never_stalls_link [OF wire_link [OF Asked(2)]] by simp
  then have "moves (request_of cmd) u t"
    using moves_enqueue Asked(3) by (simp add: request_of_def Asked(1))
  then show ?thesis using moves_then [OF moves_same [OF Asked(2)]] by blast
qed

text \<open>A reply that ends the request takes it off the front.\<close>

lemma work_tail: "in_flight s = Some f \<Longrightarrow> suffix (work (s\<lparr>in_flight := None\<rparr>)) (work s)"
  by (simp add: work_def suffix_ConsI)

section \<open>The life cycle\<close>

text \<open>The synchronization adds internal requests only.\<close>

lemma work_queue_sync:
  "\<exists>new. work (queue_sync s) = work s @ new \<and> filter is_client_request new = []"
  by (rule exI [of _ "(None, [0x04]) # map (\<lambda>i. (None, [0x1F, word_of_nat i])) [0..<unat (max_channels s)]"])
    (simp add: work_def queue_sync_def internal_def is_client_request_def comp_def)

lemma moves_queue_sync: "moves [] s (queue_sync s)"
proof -
  obtain new where "work (queue_sync s) = work s @ new" "filter is_client_request new = []"
    using work_queue_sync by blast
  then show ?thesis unfolding moves_def by (intro exI [of _ new]) simp
qed

lemma moves_advance_sync:
  "advance_queue_sync env s = Some t \<Longrightarrow> in_flight s = None \<longrightarrow> moves [] s t"
proof (induction s t rule: advance_sync_induct)
  case (Gone s q rest t)
  show ?case
  proof
    assume "in_flight s = None"
    then have "moves [] s (s\<lparr>pending_queue := rest\<rparr>)"
      by (intro moves_suffix) (simp add: work_def Gone suffix_ConsI)
    then show "moves [] s t" using moves_then Gone \<open>in_flight s = None\<close> by simp
  qed
next
  case (Unsent s q rest c)
  then show ?case
    by (intro impI moves_then [OF moves_suffix moves_same]) (simp_all add: work_def suffix_ConsI)
next
  case (Sent s q rest f)
  then show ?case by (intro impI moves_suffix) (simp add: work_def)
qed (simp add: moves_same)

lemma moves_sync:
  assumes "sync_from_radio env s = Some t"
  shows "moves [] s t"
  using assms moves_queue_sync [of s] moves_then [OF moves_queue_sync moves_advance_sync [rule_format]]
  by (auto simp: sync_from_radio_def Let_def split: if_splits)

lemma moves_link: "link t = link s \<Longrightarrow> moves [] s t"
  by (rule moves_suffix) (simp add: work_def link_def)

lemma moves_ended:
  assumes "in_flight s = Some f" and "wire u = wire (s\<lparr>in_flight := None\<rparr>)"
  shows "moves [] s u"
  using moves_then [OF moves_suffix [OF work_tail [OF assms(1)]] moves_same [OF assms(2)]] .

interpretation fifo_walk: event_relation "moves []"
proof
  show "moves [] s u" if "moves [] s t" "moves [] t u" for s t u by (rule moves_then [OF that])
  show "moves [] s ((deliver_reply env (flight_client f) cmd code p s)\<lparr>in_flight := None\<rparr>)"
    "moves [] s (send_opt (flight_client f) error_frame (s\<lparr>in_flight := None\<rparr>))"
    if "in_flight s = Some f" for s f env cmd code p
    using wire_deliver_reply [of env "flight_client f" cmd code p s]
      wire_simps(4) [of "flight_client f" error_frame "s\<lparr>in_flight := None\<rparr>"]
    by (auto intro!: moves_ended [OF that] simp: wire_def)
  show "moves [] s ((deliver_reply env (flight_client f) cmd code p s)\<lparr>in_flight := Some (f\<lparr>last_activity := n\<rparr>)\<rparr>)"
    if "in_flight s = Some f" for s f env cmd code p n
    using that wire_deliver_reply [of env "flight_client f" cmd code p s]
    by (intro moves_suffix) (simp add: work_def wire_def)
  show "moves [] s (fail_all s)" for s
    using link_fail_all [of s] by (intro moves_suffix) (simp add: work_def link_def)
  show "moves [] s t" if "connect_backend env dial s = Inr t" for env dial s t
    using connect_backend_link [OF that] by (intro moves_suffix) (simp add: work_def link_def)
  show "moves [] s (push_queue (internal p) s)" for p s
    by (rule moves_push_internal) (simp add: internal_def)
  show "moves [] s (s\<lparr>radio_send_tx := c\<rparr>)" for s c
    by (rule moves_suffix) (simp add: work_def)
qed (auto intro: moves_same moves_link moves_advance moves_sync face_wire link_initialize_radio)

lemma moves_event:
  assumes "never_stalls s" and "handle_event env ev s = Some t"
  shows "moves (requested ev) s t"
proof (cases "(\<exists>cmd. ev = ClientCommandEvent cmd) \<or> (\<exists>cid. ev = ClientConnected cid \<or> ev = ClientDisconnected cid)")
  case True
  then consider (Asks) cmd where "ev = ClientCommandEvent cmd" | (Idle) "requested ev = []" "wire t = wire s"
    using assms(2) by (auto simp: client_connected_def client_disconnected_def)
  then show ?thesis using assms moves_client_command by cases (auto simp: moves_same)
next
  case False
  then have "requested ev = []" by (cases ev) auto
  with False show ?thesis using fifo_walk.event_rel [OF assms(2)] by auto
qed

section \<open>The event loop as a FIFO server\<close>

interpretation fifo: fifo_server work "\<lambda>(env, ev). handle_event env ev" "\<lambda>(env, ev). requested ev"
  is_client_request never_stalls
  using moves_event handle_event_never_stalls by unfold_locales (auto simp: moves_def)

text \<open>The events the loop handles: up to the shutdown signal.\<close>

fun handled :: "(env \<times> core_event) list \<Rightarrow> (env \<times> core_event) list" where
  "handled [] = []"
| "handled ((env, ev) # evs) = (env, ev) # (if ev = ShutdownSignal then [] else handled evs)"

text \<open>The loop itself, apart from the event it handles.\<close>

lemma run_loop_Cons:
  "run_loop ((env, ev) # evs) s =
     (if ev = ShutdownSignal then handle_event env ev s else Option.bind (handle_event env ev s) (run_loop evs))"
  by (cases ev) simp_all

lemma run_loop_fifo: "run_loop evs = fifo.run (handled evs)"
proof (induction evs)
  case (Cons e evs)
  obtain env ev where "e = (env, ev)" by fastforce
  moreover have "Option.bind r (fifo.run []) = r" for r by (cases r) simp_all
  ultimately show ?case
    by (intro ext) (simp add: run_loop_Cons Cons.IH del: handle_event.simps run_loop.simps)
qed (simp add: fun_eq_iff)

section \<open>Properties\<close>

text \<open>C2. The multiplexer is a FIFO server. Along any run of the event loop, the request in flight
  followed by the queue changes only by requests appended at the end and taken off the front; the
  clients' requests among them are, in order and each at most once, those of the commands the loop
  handled. So requests are never reordered, duplicated or invented.\<close>

theorem requests_fifo:
  assumes "never_stalls s" and "run_loop evs s = Some t"
  shows "\<exists>new. suffix (work t) (work s @ new) \<and>
    subseq (filter is_client_request new) (concat (map (\<lambda>(env, ev). requested ev) (handled evs)))"
  using fifo.run_fifo [of "handled evs" s t] assms by (simp add: run_loop_fifo)

theorem requests_fifo_witness:
  "\<exists>t new. run_loop [(test_env, ClientCommandEvent
       \<lparr>command_client = ClientId 1, command_port = 5000, command_payload = [0x16, 3]\<rparr>)] flying_core = Some t \<and>
     suffix (work t) ((Some (ClientId 1), [0x05]) # new) \<and>
     subseq (filter is_client_request new) [(Some (ClientId 1), [0x16, 3])]"
proof -
  let ?cmd = "\<lparr>command_client = ClientId 1, command_port = 5000, command_payload = [0x16, 3]\<rparr>"
  have "never_stalls flying_core" by (simp add: never_stalls_def flying_core_def)
  moreover obtain t where t: "run_loop [(test_env, ClientCommandEvent ?cmd)] flying_core = Some t"
    by (simp add: flying_core_version)
  moreover have "work flying_core = [(Some (ClientId 1), [0x05])]"
    by (simp add: work_def flying_core_def test_core_defs)
  ultimately show ?thesis
    using requests_fifo [OF _ t] t
    by (simp add: request_of_def forwarded_payload_def RADIO_PROTOCOL_VERSION_def)
qed

text \<open>Runs on which no event panics.\<close>

fun calm :: "(env \<times> core_event) list \<Rightarrow> core \<Rightarrow> bool" where
  "calm [] s \<longleftrightarrow> True"
| "calm ((env, ev) # evs) s \<longleftrightarrow> hex_ok env \<and> \<not> event_panics env ev s \<and>
     (ev = ShutdownSignal \<or> (case handle_event env ev s of None \<Rightarrow> True | Some t \<Rightarrow> calm evs t))"

text \<open>C18. The event loop always comes back for the next event: every finite sequence of events on
  which no decoder panics is handled, whatever statements of the database fail and whatever the
  radio and the clients send, and it ends in a reachable state.\<close>

theorem run_loop_returns:
  "reachable s \<Longrightarrow> calm evs s \<Longrightarrow> \<exists>t. run_loop evs s = Some t \<and> reachable t"
proof (induction evs arbitrary: s)
  case (Cons e evs)
  obtain env ev where e: "e = (env, ev)" by fastforce
  have c: "hex_ok env" "\<not> event_panics env ev s" using Cons.prems(2) by (simp_all add: e)
  obtain u where u: "handle_event env ev s = Some u"
    using handle_event_inv [OF c(1) _ c(2)] reachable_inv [OF Cons.prems(1)] by blast
  have r: "reachable u" by (rule reachable.step [OF Cons.prems(1) c u])
  show ?case
    using Cons.prems(2) Cons.IH [OF r] u r
    by (cases "ev = ShutdownSignal") (auto simp: e run_loop_Cons simp del: handle_event.simps run_loop.simps)
qed simp

theorem run_loop_returns_witness:
  "\<exists>t. run_loop [(test_env, RadioFrame [0x0B]), (test_env, ShutdownSignal), (test_env, RadioFrame [0x12, 0, 65])]
      client_core = Some t \<and> reachable t"
  by (rule run_loop_returns [OF reachable_client])
    (simp add: test_env_ok log_panics_def split: option.split)

end
