(* ===== verification/Core_Channels.thy ===== *)
theory Core_Channels
  imports Core_Walk
begin

text \<open>
  The clients' channels as seen from outside the actor: an event appends frames to the direct
  channels and to the broadcast channel and takes nothing back, and only connecting and
  disconnecting changes which clients have a channel.
\<close>

section \<open>Channels only grow\<close>

definition extends :: "core \<Rightarrow> core \<Rightarrow> bool" where
  "extends s t \<longleftrightarrow> (\<forall>cid. \<exists>new. inbox t cid = map_option (\<lambda>q. q @ new) (inbox s cid)) \<and>
     (\<exists>new. broadcast_out t = broadcast_out s @ new)"

lemma extends_refl: "extends s s"
  unfolding extends_def by (auto intro!: exI [of _ "[]"] simp: option.map_ident)

lemma extends_trans: "extends s t \<Longrightarrow> extends t u \<Longrightarrow> extends s u"
proof -
  assume st: "extends s t" and tu: "extends t u"
  have "\<exists>new. inbox u cid = map_option (\<lambda>q. q @ new) (inbox s cid)" for cid
  proof -
    obtain n m where "inbox t cid = map_option (\<lambda>q. q @ n) (inbox s cid)"
      "inbox u cid = map_option (\<lambda>q. q @ m) (inbox t cid)"
      using st tu unfolding extends_def by blast
    then have "inbox u cid = map_option (\<lambda>q. q @ (n @ m)) (inbox s cid)"
      by (simp add: option.map_comp comp_def)
    then show ?thesis by blast
  qed
  then show "extends s u" using st tu by (auto simp: extends_def)
qed

interpretation io: effect_logic "\<lambda>s. True" extends
  by unfold_locales (rule extends_refl, erule extends_trans, assumption)

lemma extends_same:
  "client_channels t = client_channels s \<Longrightarrow> broadcast_out t = broadcast_out s \<Longrightarrow> extends s t"
  unfolding extends_def inbox_def by (auto intro!: exI [of _ "[]"] simp: option.map_ident)

lemma extends_alive: "extends s t \<Longrightarrow> client_is_alive t cid = client_is_alive s cid"
proof -
  assume "extends s t"
  then obtain new where "inbox t cid = map_option (\<lambda>q. q @ new) (inbox s cid)"
    unfolding extends_def by blast
  then show ?thesis by (simp add: alive_inbox)
qed

lemma extends_inbox:
  assumes "extends s t" and "inbox s cid = Some q"
  obtains new where "inbox t cid = Some (q @ new)"
  using assms unfolding extends_def by (metis option.simps(9))

lemma extends_send: "extends s (send_to_client cid p s)"
proof -
  have "\<exists>new. inbox (send_to_client cid p s) c = map_option (\<lambda>q. q @ new) (inbox s c)" for c
    by (cases "c = cid") (auto simp: inbox_send_to_client option.map_ident
        intro: exI [of _ "[as_sent s cid p]"] exI [of _ "[]"])
  then show ?thesis
    by (auto simp: extends_def send_to_client_def split: option.split)
qed

lemma extends_broadcast_to_others: "extends s (broadcast_to_others ex p s)"
proof -
  have "\<exists>new. inbox (broadcast_to_others ex p s) c = map_option (\<lambda>q. q @ new) (inbox s c)" for c
    by (cases "ex = Some c") (auto simp: inbox_broadcast_to_others option.map_ident
        intro: exI [of _ "[as_sent s c p]"] exI [of _ "[]"])
  then show ?thesis by (auto simp: extends_def broadcast_to_others_def)
qed

lemma extends_send_opt: "extends s (send_opt c p s)"
  by (simp add: send_opt_def extends_send extends_refl split: option.split)

lemma extends_notify_missed: "extends s (notify_missed cid s)"
  by (simp add: notify_missed_def extends_send extends_refl split: option.split)

lemma extends_face: "face t = face s \<Longrightarrow> extends s t"
  by (rule extends_same) (simp_all add: face_def)

lemma extends_face_then: "face t = face s \<Longrightarrow> extends t u \<Longrightarrow> extends s u"
  by (rule extends_trans [OF extends_face])

section \<open>The queue\<close>

lemma extends_dispatch:
  assumes "dispatch_to_radio env c p s = Some t"
  shows "extends s t"
proof (cases "send_to_radio p s")
  case (Inl e)
  then show ?thesis
    using assms by (auto simp: dispatch_to_radio_def bind_eq_Some_conv extends_send_opt)
next
  case (Inr s1)
  then obtain s2 f code where "forward_effects env code p s1 = Some s2" "t = s2\<lparr>in_flight := Some f\<rparr>"
    using assms by (auto simp: dispatch_to_radio_def bind_eq_Some_conv)
  then have "outputs t = outputs s1" using forward_effects_outputs by simp
  then show ?thesis using Inr by (intro extends_same) (simp_all add: outputs_def send_to_radio_Inr)
qed

lemma extends_queue_update: "extends s (s\<lparr>pending_queue := q\<rparr>)" "extends s (s\<lparr>in_flight := f\<rparr>)"
  "extends s (push_queue x s)" "extends s (s\<lparr>radio_send_tx := c\<rparr>)" "extends s (s\<lparr>radio_up := u\<rparr>)"
  "extends s (queue_contact_refresh pk s)"
  by (rule extends_same, simp_all add: push_queue_def queue_contact_refresh_def)+

lemma extends_advance_queue: "advance_queue env s = Some t \<Longrightarrow> extends s t"
proof (induction s t rule: advance_queue_induct)
  case (Gone s q rest t)
  then show ?case using extends_trans extends_queue_update(1) by blast
next
  case (Sent s q rest t)
  then show ?case using extends_trans [OF extends_queue_update(1) extends_dispatch] by blast
next
  case (Failed s q rest s2 t)
  then show ?case using extends_trans [OF extends_queue_update(1) extends_dispatch] extends_trans by blast
qed (rule extends_refl)

lemma extends_enqueue: "enqueue_or_dispatch env c p s = Some t \<Longrightarrow> extends s t"
  by (auto simp: enqueue_or_dispatch_def extends_dispatch extends_queue_update split: if_splits)

section \<open>Serving clients\<close>

interpretation io_commands: command_relation extends
  by unfold_locales (erule extends_trans, assumption, erule extends_face, rule extends_send, erule extends_enqueue)

lemmas extends_replay = io_commands.replay_rel
lemmas extends_send_contacts = io_commands.contacts_rel
lemmas extends_try_serve = io_commands.serve_rel
lemmas extends_client_command = io_commands.client_command_rel

section \<open>Frames of the radio\<close>

lemma extends_deliver_reply: "extends s (deliver_reply env c cmd code p s)"
proof -
  let ?s1 = "case c of None \<Rightarrow> s | Some cid \<Rightarrow> send_to_client cid p (record_ack env cid code p s)"
  have "extends s ?s1"
    by (auto simp: extends_refl split: option.split intro: extends_face_then [OF _ extends_send])
  then show ?thesis
    using extends_trans [OF _ extends_broadcast_to_others] by (simp add: deliver_reply_def Let_def)
qed

lemma extends_route_ack: "extends s (snd (try_route_ack code p s))"
  by (auto simp: try_route_ack_def extends_refl split: option.split
      intro: extends_face_then [OF _ extends_send])

lemma extends_broadcast: "extends s (broadcast p s)"
  unfolding extends_def by (auto simp: broadcast_def inbox_def option.map_ident intro!: exI [of _ "[]"])

section \<open>The other events\<close>

lemma extends_fail_all: "extends s (fail_all s)"
proof -
  have f: "extends u (fold (\<lambda>q. send_opt (queued_client q) error_frame) qs u)" for qs :: "queued list" and u
    by (rule io.keeps_fold [unfolded io.keeps_def, simplified]) (rule extends_send_opt)
  let ?s1 = "case in_flight s of None \<Rightarrow> s | Some f \<Rightarrow> send_opt (flight_client f) error_frame (s\<lparr>in_flight := None\<rparr>)"
  have "extends s ?s1"
    by (auto simp: extends_refl split: option.split
        intro: extends_trans [OF extends_queue_update(2) extends_send_opt])
  then show ?thesis
    unfolding fail_all_def Let_def using f extends_queue_update(1) extends_trans by blast
qed

lemma extends_initialize: "initialize_radio env evs s = Some r \<Longrightarrow> extends s (snd r)"
proof (rule extends_same)
  assume i: "initialize_radio env evs s = Some r"
  show "client_channels (snd r) = client_channels s" by (rule channels_initialize_radio [OF i])
  show "broadcast_out (snd r) = broadcast_out s"
    by (rule initialize_radio_same [where g = broadcast_out, OF _ _ i])
      (auto simp: send_to_radio_Inr face_def dest: face_cache_response)
qed

lemma extends_advance_sync: "advance_queue_sync env s = Some t \<Longrightarrow> extends s t"
proof (induction s t rule: advance_sync_induct)
  case (Gone s q rest t)
  then show ?case using extends_trans [OF extends_queue_update(1)] by blast
next
  case (Unsent s q rest c)
  show ?case by (rule extends_trans [OF extends_queue_update(1) extends_send_opt])
next
  case (Sent s q rest f)
  show ?case by (rule extends_same) simp_all
qed (rule extends_refl)

lemma extends_sync: "sync_from_radio env s = Some t \<Longrightarrow> extends s t"
proof -
  assume s: "sync_from_radio env s = Some t"
  have "extends s (queue_sync s)" by (rule extends_same) (simp_all add: queue_sync_def)
  with s show ?thesis
    using extends_advance_sync extends_trans by (auto simp: sync_from_radio_def Let_def split: if_splits)
qed

lemma extends_connect: "connect_backend env dial s = Inr t \<Longrightarrow> extends s t"
  by (rule extends_same) (auto simp: connect_backend_def split: sum.splits if_splits)

text \<open>So every event extends the channels.\<close>

interpretation io_walk: event_relation extends
proof
  show "extends s ((deliver_reply env (flight_client f) cmd code p s)\<lparr>in_flight := None\<rparr>)"
    "extends s ((deliver_reply env (flight_client f) cmd code p s)\<lparr>in_flight := Some (f\<lparr>last_activity := n\<rparr>)\<rparr>)"
    for env f cmd code p s n
    using extends_trans [OF extends_deliver_reply extends_queue_update(2)] by blast+
  show "extends s (send_opt (flight_client f) error_frame (s\<lparr>in_flight := None\<rparr>))" for f s
    using extends_trans [OF extends_queue_update(2) extends_send_opt] by blast
qed (auto intro: extends_face extends_notify_missed extends_broadcast_to_others extends_route_ack
    extends_queue_update extends_broadcast extends_fail_all extends_connect extends_initialize
    extends_advance_queue extends_sync)

text \<open>The events that come from the other tasks of the frontend.\<close>

fun from_frontend :: "core_event \<Rightarrow> bool" where
  "from_frontend (ClientConnected cid) \<longleftrightarrow> True"
| "from_frontend (ClientDisconnected cid) \<longleftrightarrow> True"
| "from_frontend ev \<longleftrightarrow> False"

lemma extends_event:
  assumes "handle_event env ev s = Some t" and "\<not> from_frontend ev"
  shows "extends s t"
proof (cases "\<exists>cmd. ev = ClientCommandEvent cmd")
  case True
  then show ?thesis using assms(1) extends_client_command by auto
next
  case False
  with assms show ?thesis by (intro io_walk.event_rel [of env ev]) auto
qed

end
