(* ===== verification/Core_Accounting.thy ===== *)
theory Core_Accounting
  imports Core_Channels Core_Fifo
begin

text \<open>
  No command is left without an answer. The account of a client is the number of frames put on its
  channel so far and of its requests that are in flight or queued; a command adds to the account,
  and nothing the actor does while the client is connected takes from it.
\<close>

section \<open>The account of a client\<close>

definition account :: "client_id \<Rightarrow> core \<Rightarrow> nat" where
  "account cid s = (case inbox s cid of None \<Rightarrow> 0 | Some q \<Rightarrow> length q) + waiting_requests s cid"

text \<open>A step that adds at least \<open>n\<close> to the account of a connected client.\<close>

definition credits :: "client_id \<Rightarrow> nat \<Rightarrow> core \<Rightarrow> core \<Rightarrow> bool" where
  "credits cid n s t \<longleftrightarrow>
     (client_is_alive s cid \<longrightarrow> client_is_alive t cid \<and> account cid s + n \<le> account cid t)"

lemma credits_trans: "credits cid n s t \<Longrightarrow> credits cid m t u \<Longrightarrow> credits cid (n + m) s u"
  by (auto simp: credits_def)

lemma credits_then: "credits cid 0 s t \<Longrightarrow> credits cid n t u \<Longrightarrow> credits cid n s u"
  using credits_trans [of cid 0 s t n u] by simp

lemma credits_less: "credits cid n s t \<Longrightarrow> m \<le> n \<Longrightarrow> credits cid m s t"
  by (auto simp: credits_def)

lemma inbox_grows:
  assumes "extends s t"
  shows "(case inbox s cid of None \<Rightarrow> 0 | Some q \<Rightarrow> length q) \<le> (case inbox t cid of None \<Rightarrow> 0 | Some q \<Rightarrow> length q)"
proof -
  obtain new where "inbox t cid = map_option (\<lambda>q. q @ new) (inbox s cid)"
    using assms by (auto simp: extends_def)
  then show ?thesis by (simp split: option.split)
qed

lemma credits_extends:
  "extends s t \<Longrightarrow> waiting_requests s cid \<le> waiting_requests t cid \<Longrightarrow> credits cid 0 s t"
  using inbox_grows [of s t cid] by (simp add: credits_def extends_alive account_def)

lemma waiting_link: "link t = link s \<Longrightarrow> waiting_requests t cid = waiting_requests s cid"
  by (simp add: waiting_requests_def link_def)

lemma waiting_wire: "wire t = wire s \<Longrightarrow> waiting_requests t cid = waiting_requests s cid"
  by (rule waiting_link [OF wire_link])

lemma credits_wire:
  assumes "extends s t" and "wire t = wire s"
  shows "credits cid 0 s t"
  using credits_extends [OF assms(1), of cid] waiting_wire [OF assms(2), of cid] by simp

lemma credits_face: "face t = face s \<Longrightarrow> credits cid 0 s t"
  by (rule credits_wire [OF extends_face face_wire])

text \<open>A frame for the client, whatever it gets after it.\<close>

lemma credits_told:
  assumes "extends (send_to_client cid p s) t" and "waiting_requests s cid \<le> waiting_requests t cid"
  shows "credits cid 1 s t"
proof -
  have "credits cid 1 s (send_to_client cid p s)"
    using waiting_wire [OF wire_simps(1), of cid p s cid]
    by (auto simp: credits_def account_def inbox_send_to_client alive_inbox)
  moreover have "credits cid 0 (send_to_client cid p s) t"
    using assms waiting_wire [OF wire_simps(1), of cid p s cid] by (simp add: credits_extends)
  ultimately show ?thesis using credits_trans by fastforce
qed

section \<open>The operations\<close>

text \<open>A request of the client that ends with a frame for it.\<close>

lemma credits_answered:
  assumes "in_flight s = Some f" and "extends s u" and "link u = link (s\<lparr>in_flight := None\<rparr>)"
    and "flight_client f = Some cid \<Longrightarrow> \<exists>p. extends (send_to_client cid p s) u"
  shows "credits cid 0 s u"
proof (cases "flight_client f = Some cid")
  case True
  then obtain p where "extends (send_to_client cid p s) u" using assms(4) by blast
  then have "client_is_alive s cid \<Longrightarrow> (case inbox s cid of None \<Rightarrow> 0 | Some q \<Rightarrow> length q) + 1 \<le>
      (case inbox u cid of None \<Rightarrow> 0 | Some q \<Rightarrow> length q)"
    using inbox_grows [of "send_to_client cid p s" u cid] by (auto simp: inbox_send_to_client alive_inbox)
  then show ?thesis
    using assms(1,3) True extends_alive [OF assms(2)]
    by (auto simp: credits_def account_def waiting_requests_def link_def)
next
  case False
  then have "waiting_requests u cid = waiting_requests s cid"
    using assms(1,3) by (auto simp: waiting_requests_def link_def split: option.split)
  then show ?thesis using credits_extends [OF assms(2)] by simp
qed

lemma credits_dispatch:
  assumes "dispatch_to_radio env c p s = Some t" and "in_flight s = None"
  shows "credits cid (if c = Some cid then 1 else 0) s t"
  using dispatch_cases [OF assms(1)]
proof
  assume "radio_send_tx s \<noteq> Some Open \<and> t = send_opt c error_frame s"
  then have t: "t = send_opt c error_frame s" by blast
  then have w: "wire t = wire s" by simp
  show ?thesis
  proof (cases "c = Some cid")
    case True
    then show ?thesis
      using credits_told [of cid error_frame s t] waiting_wire [OF w] by (simp add: t send_opt_def extends_refl)
  qed (use credits_wire [OF _ w] t extends_send_opt in auto)
next
  assume "radio_send_tx s = Some Open \<and> radio_out t = radio_out s @ [p] \<and>
      client_channels t = client_channels s \<and>
      (\<exists>f. in_flight t = Some f \<and> flight_payload f = p \<and> flight_client f = c)"
  then show ?thesis
    using dispatch_to_radio_queue [OF assms(1)] assms(2)
    by (auto simp: credits_def account_def alive_inbox inbox_def waiting_requests_def)
qed

lemma credits_enqueue:
  assumes "enqueue_or_dispatch env c p s = Some t"
  shows "credits cid (if c = Some cid then 1 else 0) s t"
proof (cases "in_flight s")
  case None
  then show ?thesis using assms credits_dispatch by (simp add: enqueue_or_dispatch_def)
next
  case (Some f)
  then have "t = push_queue \<lparr>queued_client = c, queued_payload = p\<rparr> s"
    using assms by (simp add: enqueue_or_dispatch_def)
  then show ?thesis
    by (simp add: credits_def account_def alive_inbox inbox_def waiting_requests_def push_queue_def)
qed

lemma waiting_enqueue:
  assumes "enqueue_or_dispatch env c p s = Some t" and "c \<noteq> Some cid"
  shows "waiting_requests t cid = waiting_requests s cid"
proof (cases "in_flight s")
  case None
  then have d: "dispatch_to_radio env c p s = Some t" using assms(1) by (simp add: enqueue_or_dispatch_def)
  from dispatch_cases [OF d] show ?thesis
    using None assms(2) dispatch_to_radio_queue [OF d] waiting_wire [of t s cid]
    by (auto simp: waiting_requests_def)
next
  case (Some f)
  then show ?thesis
    using assms by (auto simp: enqueue_or_dispatch_def waiting_requests_def push_queue_def)
qed

text \<open>The first entry of the queue is taken off and its client gone, or its request sent.\<close>

lemma credits_serve_first:
  assumes "pending_queue s = q # rest"
    and "credits cid (if queued_client q = Some cid then 1 else 0) (s\<lparr>pending_queue := rest\<rparr>) t"
  shows "credits cid 0 s t"
  using assms by (auto simp: credits_def account_def alive_inbox inbox_def waiting_requests_def split: if_splits)

lemma credits_gone:
  assumes "client_gone u q"
  shows "client_is_alive u cid \<Longrightarrow> queued_client q \<noteq> Some cid"
  using assms by (auto simp: client_gone_def)

lemma credits_advance: "advance_queue env s = Some t \<Longrightarrow> in_flight s = None \<Longrightarrow> credits cid 0 s t"
proof (induction s t rule: advance_queue_induct)
  case (Nil s)
  show ?case by (rule credits_face) simp
next
  case (Gone s q rest t)
  then have c: "credits cid 0 (s\<lparr>pending_queue := rest\<rparr>) t" by simp
  have "client_is_alive s cid \<Longrightarrow> queued_client q \<noteq> Some cid"
    using Gone(2) by (auto simp: client_gone_def client_is_alive_def)
  then show ?case using c Gone(1)
    by (auto simp: credits_def account_def alive_inbox inbox_def waiting_requests_def)
next
  case (Sent s q rest t)
  then show ?case using credits_serve_first [OF Sent(1) credits_dispatch] by simp
next
  case (Failed s q rest s2 t)
  then have "credits cid 0 s s2" using credits_serve_first [OF Failed(1) credits_dispatch] by simp
  then show ?case using credits_then Failed(4,5) by simp
qed

lemma waiting_push_internal: "waiting_requests (push_queue (internal p) s) cid = waiting_requests s cid"
  by (simp add: waiting_requests_def push_queue_def internal_def)

lemma credits_fail_all: "credits cid 0 s (fail_all s)"
proof -
  have "waiting_requests (fail_all s) cid = 0"
    using link_fail_all [of s] by (simp add: waiting_requests_def link_def)
  then show ?thesis by (cases "inbox s cid") (simp_all add: credits_def account_def alive_inbox inbox_fail_all)
qed

text \<open>The synchronization queues requests of the proxy only.\<close>

lemma credits_sync:
  assumes "link s = (Some Open, None, [])" and "sync_from_radio env s = Some t"
  shows "credits cid 0 s t"
  by (rule credits_extends [OF extends_sync [OF assms(2)]])
    (use assms(1) in \<open>simp add: waiting_requests_def link_def\<close>)

lemma told_deliver: "extends (send_to_client cid p s) (deliver_reply env (Some cid) cmd code p s)"
proof -
  have "face (send_to_client cid p (record_ack env cid code p s)) = face (send_to_client cid p s)"
    by (simp add: record_ack_def send_to_client_def protocol_version_def face_def wire_def split: option.split)
  then have e: "extends (send_to_client cid p s) (send_to_client cid p (record_ack env cid code p s))"
    by (rule extends_face)
  then show ?thesis
    using extends_trans [OF e extends_broadcast_to_others] by (simp add: deliver_reply_def Let_def)
qed

interpretation accounts: event_relation "credits cid 0" for cid
proof
  show "credits cid 0 s u" if "credits cid 0 s t" "credits cid 0 t u" for s t u by (rule credits_then [OF that])
  have w: "link ((deliver_reply env c cmd code p s)\<lparr>in_flight := x\<rparr>) = link (s\<lparr>in_flight := x\<rparr>)" for env c cmd code p s x
    using wire_deliver_reply [of env c cmd code p s] by (simp add: link_def wire_def)
  have e: "extends s ((deliver_reply env c cmd code p s)\<lparr>in_flight := x\<rparr>)" for env c cmd code p s x
    by (rule extends_trans [OF extends_deliver_reply extends_queue_update(2)])
  show "credits cid 0 s ((deliver_reply env (flight_client f) cmd code p s)\<lparr>in_flight := None\<rparr>)"
    if "in_flight s = Some f" for s f env cmd code p
    by (rule credits_answered [OF that e w])
      (auto intro!: exI [of _ p] extends_trans [OF told_deliver extends_queue_update(2)])
  show "credits cid 0 s ((deliver_reply env (flight_client f) cmd code p s)\<lparr>in_flight := Some (f\<lparr>last_activity := n\<rparr>)\<rparr>)"
    if "in_flight s = Some f" for s f env cmd code p n
    by (rule credits_extends [OF e]) (use that w in \<open>simp add: waiting_requests_def link_def\<close>)
  show "credits cid 0 s (send_opt (flight_client f) error_frame (s\<lparr>in_flight := None\<rparr>))"
    if "in_flight s = Some f" for s f
  proof (rule credits_answered [OF that])
    show "extends s (send_opt (flight_client f) error_frame (s\<lparr>in_flight := None\<rparr>))"
      by (rule extends_trans [OF extends_queue_update(2) extends_send_opt])
    show "link (send_opt (flight_client f) error_frame (s\<lparr>in_flight := None\<rparr>)) = link (s\<lparr>in_flight := None\<rparr>)" by simp
    have "client_channels (send_to_client cid p (s\<lparr>in_flight := None\<rparr>)) = client_channels (send_to_client cid p s)"
      "broadcast_out (send_to_client cid p (s\<lparr>in_flight := None\<rparr>)) = broadcast_out (send_to_client cid p s)" for p
      by (simp_all add: send_to_client_def protocol_version_def split: option.split)
    then show "\<exists>p. extends (send_to_client cid p s) (send_opt (flight_client f) error_frame (s\<lparr>in_flight := None\<rparr>))"
      if "flight_client f = Some cid"
      using that by (auto simp: send_opt_def intro!: exI [of _ error_frame] extends_same)
  qed
  show "credits cid 0 s (push_queue (internal p) s)" for p s
    by (rule credits_extends) (simp_all add: extends_queue_update waiting_push_internal)
  show "credits cid 0 s t" if "connect_backend env dial s = Inr t" for env dial s t
    by (rule credits_extends [OF extends_connect [OF that]])
      (use connect_backend_link [OF that] in \<open>simp add: waiting_requests_def link_def\<close>)
  show "credits cid 0 s (snd r)" if "initialize_radio env evs s = Some r" for env evs s r
    by (rule credits_extends [OF extends_initialize [OF that]])
      (simp add: waiting_link [OF link_initialize_radio [OF that]])
  show "credits cid 0 s (s\<lparr>radio_send_tx := c\<rparr>)" for s c
    by (rule credits_extends) (simp_all add: extends_queue_update waiting_requests_def)
  show "credits cid 0 s (s\<lparr>radio_up := up\<rparr>)" for s up
    by (rule credits_extends) (simp_all add: extends_queue_update waiting_requests_def)
qed (auto intro: credits_face credits_advance credits_wire credits_fail_all credits_sync extends_notify_missed
    extends_broadcast_to_others extends_route_ack extends_broadcast)

section \<open>Commands of clients\<close>

text \<open>A command that is answered at once: from the missed messages or from the cache.\<close>

lemma told_replay:
  assumes "replay_next_missed env cid s = (True, t)"
  shows "credits cid 1 s t"
proof -
  obtain x where x: "hm_get (sessions s) cid = Some x"
    using assms by (auto simp: replay_next_missed_def split: option.splits)
  obtain i f rest where h: "pop_missed env (db s) (session_pending x) = (Some (i, f), rest)"
    using assms x by (cases "pop_missed env (db s) (session_pending x)") (auto simp: replay_next_missed_def Let_def)
  let ?s1 = "set_pending cid x rest s"
  have "face t = face (send_to_client cid f ?s1)"
    using assms x h by (auto simp: replay_next_missed_def Let_def split: sum.splits if_splits)
  then have e: "extends (send_to_client cid f ?s1) t" and w: "wire t = wire ?s1"
    using extends_face [of t] face_wire [of t] by simp_all
  have "credits cid 1 ?s1 t" by (rule credits_told [OF e]) (simp add: waiting_wire [OF w])
  moreover have "credits cid 0 s ?s1" by (rule credits_face) simp
  ultimately show ?thesis by (rule credits_then [rotated])
qed

lemma told_blob: "serve_blob cid b s = Some (True, t) \<Longrightarrow> \<exists>p. extends (send_to_client cid p s) t"
  by (auto simp: serve_blob_def intro: extends_refl split: option.splits)

lemma told_contacts: "serve_contacts env cid p s = Some (True, t) \<Longrightarrow> \<exists>q. extends (send_to_client cid q s) t"
  by (auto simp: serve_contacts_def respond_contacts_def Let_def bind_eq_Some_conv split: sum.splits if_splits
      intro: exI extends_trans [OF extends_send_contacts extends_send])

lemma told_channel:
  assumes "serve_channel env cid p s = Some (True, t)"
  shows "\<exists>q. extends (send_to_client cid q s) t"
proof -
  have "\<exists>ch. t = respond_channel_info cid ch s"
    using assms by (cases "get_channels env (db s)") (auto simp: serve_channel_def bind_eq_Some_conv split: option.splits)
  then show ?thesis using extends_refl by (auto simp: respond_channel_info_def)
qed

lemma told_serve:
  assumes "try_serve_from_cache env code cmd s = Some (True, t)"
  shows "credits (command_client cmd) 1 s t"
proof -
  have "\<exists>p. extends (send_to_client (command_client cmd) p s) t"
    using assms told_blob told_contacts told_channel
    by (auto simp: try_serve_from_cache_def Let_def split: if_splits)
  then show ?thesis
    using credits_told waiting_wire [OF wire_try_serve [OF assms]] by fastforce
qed

lemma credits_command:
  assumes "handle_client_command env cmd s = Some t" and "command_payload cmd \<noteq> []"
  shows "credits (command_client cmd) 1 s t"
proof (cases "client_is_alive s (command_client cmd)")
  case True
  let ?cid = "command_client cmd"
  obtain code where sc: "serve_command env cmd code s = Some t"
    using assms True by (auto simp: handle_client_command_eq split: list.splits if_splits)
  let ?s2 = "note_version ?cid code (command_payload cmd) (if code = 0x01 then register_session env cmd s else s)"
  obtain b s3 where r: "(if code = 0x0A then replay_next_missed env ?cid ?s2 else (False, ?s2)) = (b, s3)" by fastforce
  have c2: "credits ?cid 0 s ?s2" by (rule credits_face) simp
  show ?thesis
  proof (cases b)
    case True
    then have "credits ?cid 1 ?s2 t"
      using sc r told_replay [of env ?cid ?s2 s3] by (auto simp: serve_command_def Let_def split: if_splits)
    with c2 show ?thesis by (rule credits_then)
  next
    case False
    then obtain served s4 where s4: "try_serve_from_cache env code cmd s3 = Some (served, s4)"
      and t: "(if served then Some (if code = 0x01 then notify_missed ?cid s4 else s4)
        else enqueue_or_dispatch env (Some ?cid) (forwarded_payload code (command_payload cmd)) s4) = Some t"
      using sc r by (auto simp: serve_command_def Let_def bind_eq_Some_conv)
    have "extends ?s2 s3" "wire s3 = wire ?s2"
      using r extends_replay [of ?s2 env ?cid] wire_replay [of env ?cid ?s2]
      by (cases "code = 0x0A"; auto simp: extends_refl)+
    then have c3: "credits ?cid 0 s s3" using credits_then [OF c2 credits_wire] by blast
    have "credits ?cid 1 s3 t"
    proof (cases served)
      case True
      then have "credits ?cid 1 s3 s4" using told_serve [of env code cmd s3 s4] s4 by simp
      moreover have "credits ?cid 0 s4 t"
        using t True accounts.rel_notify accounts.rel_same by (auto split: if_splits)
      ultimately show ?thesis using credits_trans by fastforce
    next
      case False
      have "credits ?cid 0 s3 s4"
        using credits_wire [OF extends_try_serve [OF s4]] wire_try_serve [OF s4] by simp
      then show ?thesis using credits_then credits_enqueue t False by fastforce
    qed
    with c3 show ?thesis by (rule credits_then)
  qed
qed (simp add: credits_def)

lemma credits_other_command:
  assumes "handle_client_command env cmd s = Some t"
  shows "credits cid 0 s t"
proof (cases "command_client cmd = cid \<and> command_payload cmd \<noteq> []")
  case True
  then show ?thesis using credits_less [OF credits_command [OF assms]] by simp
next
  case False
  show ?thesis
  proof (rule credits_extends [OF extends_client_command [OF assms]])
    show "waiting_requests s cid \<le> waiting_requests t cid"
      using assms
    proof (cases rule: client_command_cases)
      case Served
      then show ?thesis using waiting_wire [of t s cid] by simp
    next
      case (Asked code rest u)
      then have "waiting_requests u cid \<le> waiting_requests t cid"
        using False waiting_enqueue [OF Asked(3), of cid] by auto
      then show ?thesis using waiting_wire [OF Asked(2)] by simp
    qed
  qed
qed

section \<open>The event loop\<close>

text \<open>How many commands of a client an event is, and whether it changes the client's connection.\<close>

fun asks :: "client_id \<Rightarrow> core_event \<Rightarrow> nat" where
  "asks cid (ClientCommandEvent cmd) = (if command_client cmd = cid \<and> command_payload cmd \<noteq> [] then 1 else 0)"
| "asks cid ev = 0"

fun reconnects :: "client_id \<Rightarrow> core_event \<Rightarrow> bool" where
  "reconnects cid (ClientConnected c) \<longleftrightarrow> c = cid"
| "reconnects cid (ClientDisconnected c) \<longleftrightarrow> c = cid"
| "reconnects cid ev \<longleftrightarrow> False"

lemma credits_event:
  assumes "handle_event env ev s = Some t" and "\<not> reconnects cid ev"
  shows "credits cid (asks cid ev) s t \<and> (\<exists>new. inbox t cid = map_option (\<lambda>q. q @ new) (inbox s cid))"
proof (cases "from_frontend ev")
  case True
  then obtain c where c: "ev = ClientConnected c \<or> ev = ClientDisconnected c" "c \<noteq> cid"
    using assms(2) by (cases ev) auto
  then have "t = client_connected c s \<or> t = client_disconnected c s" "asks cid ev = 0" using assms(1) by auto
  moreover from this c(2) have "wire t = wire s" "inbox t cid = inbox s cid"
    by (auto simp: client_connected_def client_disconnected_def inbox_def hm_get_def hm_insert_def hm_remove_def
        update_conv' delete_conv')
  ultimately show ?thesis
    using waiting_wire [of t s cid]
    by (auto simp: credits_def account_def alive_inbox option.map_ident intro!: exI [of _ "[]"])
next
  case False
  then have e: "extends s t" by (rule extends_event [OF assms(1)])
  have "credits cid (asks cid ev) s t"
  proof (cases "\<exists>cmd. ev = ClientCommandEvent cmd")
    case True
    then show ?thesis using assms(1) credits_command credits_other_command by auto
  next
    case f: False
    then have "asks cid ev = 0" by (cases ev) auto
    moreover have "credits cid 0 s t" using f False by (intro accounts.event_rel [OF assms(1)]) auto
    ultimately show ?thesis by simp
  qed
  with e show ?thesis by (simp add: extends_def)
qed

lemma credits_run:
  "run_loop evs s = Some t \<Longrightarrow> \<forall>(env, ev) \<in> set (handled evs). \<not> reconnects cid ev \<Longrightarrow> inbox s cid = Some q \<Longrightarrow>
   \<exists>new. inbox t cid = Some (q @ new) \<and>
     waiting_requests s cid + sum_list (map (\<lambda>(env, ev). asks cid ev) (handled evs)) \<le>
       length new + waiting_requests t cid"
proof (induction evs arbitrary: s q)
  case (Cons e evs)
  obtain env ev where e: "e = (env, ev)" by fastforce
  obtain u where u: "handle_event env ev s = Some u"
    and t: "if ev = ShutdownSignal then t = u else run_loop evs u = Some t"
    using Cons.prems(1) by (auto simp: e run_loop_Cons bind_eq_Some_conv split: if_splits
        simp del: handle_event.simps run_loop.simps)
  obtain n where n: "inbox u cid = Some (q @ n)"
    "waiting_requests s cid + asks cid ev \<le> length n + waiting_requests u cid"
    using credits_event [OF u, of cid] Cons.prems(2,3) by (auto simp: e credits_def account_def alive_inbox)
  show ?case
  proof (cases "ev = ShutdownSignal")
    case True
    then show ?thesis using n t by (auto simp: e)
  next
    case False
    then obtain m where "inbox t cid = Some ((q @ n) @ m)"
      "waiting_requests u cid + sum_list (map (\<lambda>(env, ev). asks cid ev) (handled evs)) \<le> length m + waiting_requests t cid"
      using Cons.IH [OF _ _ n(1)] t Cons.prems(2) by (auto simp: e)
    then show ?thesis using n(2) False by (intro exI [of _ "n @ m"]) (simp add: e)
  qed
qed simp

text \<open>C4. No command is left without an answer. Along any run of the event loop in which a client stays
  connected, the commands it sent and the requests it had waiting are at most the frames it got
  and the requests it still has waiting: losing the radio, failing statements, timeouts, late
  replies and other clients take no request away without a frame for its client.\<close>

theorem commands_accounted:
  assumes "run_loop evs s = Some t" and "inbox s cid = Some q"
    and "\<forall>(env, ev) \<in> set (handled evs). \<not> reconnects cid ev"
  shows "\<exists>new. inbox t cid = Some (q @ new) \<and>
    waiting_requests s cid + sum_list (map (\<lambda>(env, ev). asks cid ev) (handled evs)) \<le>
      length new + waiting_requests t cid"
  by (rule credits_run [OF assms(1,3,2)])

text \<open>A client with a request at the radio sends another, and the radio is lost for good.\<close>

theorem commands_accounted_witness:
  "\<exists>t new. run_loop [(test_env, ClientCommandEvent
       \<lparr>command_client = ClientId 1, command_port = 5000, command_payload = [0x16, 3]\<rparr>),
       (test_env, RadioLost [])] flying_core = Some t \<and>
     inbox t (ClientId 1) = Some new \<and> 2 \<le> length new + waiting_requests t (ClientId 1)"
proof -
  let ?cmd = "\<lparr>command_client = ClientId 1, command_port = 5000, command_payload = [0x16, 3]\<rparr>"
  let ?evs = "[(test_env, ClientCommandEvent ?cmd), (test_env, RadioLost [])]"
  obtain t where t: "run_loop ?evs flying_core = Some t"
    by (simp add: flying_core_version reconnect_radio_def)
  have i: "inbox flying_core (ClientId 1) = Some []" "waiting_requests flying_core (ClientId 1) = 1"
    by (simp_all add: flying_core_def inbox_def waiting_requests_def test_core_defs hm_simps)
  show ?thesis using commands_accounted [OF t i(1)] t i(2) by fastforce
qed

end
