(* ===== verification/Core_Timing.thy ===== *)
theory Core_Timing
  imports Core_Routing
begin

text \<open>
  Time in the \<open>Core\<close> actor: the timeout of the request in flight, the delays of the
  reconnection loop, what a successful reconnection has sent, and the waits of the
  initialization, which look at their deadline only between frames.
\<close>

section \<open>The timeout\<close>

text \<open>While the radio's channel is open, advancing the queue answers no client.\<close>

lemma advance_queue_open:
  "advance_queue env s = Some t \<Longrightarrow> radio_send_tx s = Some Open \<Longrightarrow> client_channels t = client_channels s"
proof (induction s t rule: advance_queue_induct)
  case (Sent s q rest t)
  then show ?case using dispatch_cases [OF Sent(3)] by auto
next
  case (Failed s q rest s2 t)
  then show ?case using dispatch_cases [OF Failed(3)] by auto
qed simp_all

lemma dropWhile_split:
  "\<forall>x \<in> set xs. P x \<Longrightarrow> ys = [] \<or> \<not> P (hd ys) \<Longrightarrow> dropWhile P (xs @ ys) = ys"
  by (cases ys) (auto simp: dropWhile_append)

text \<open>The first entry whose client is still connected is the one that is sent.\<close>

lemma advance_queue_first:
  assumes "advance_queue env s = Some t" and "in_flight s = None" and "radio_send_tx s = Some Open"
  shows "advanced s t (dropWhile (client_gone s) (pending_queue s))"
proof -
  obtain skipped rest where r: "pending_queue s = skipped @ rest" "advanced s t rest"
    "\<forall>q \<in> set skipped. client_gone s q"
    using advance_queue_order [OF assms(1,2)] assms(3) by blast
  have "rest = [] \<or> \<not> client_gone s (hd rest)"
    using r(2) by (auto simp: advanced_def split: option.splits)
  then show ?thesis using r dropWhile_split [of skipped "client_gone s" rest] by simp
qed

text \<open>C16. A request that the radio leaves unanswered for five seconds is given up: its client gets
  one ERROR frame and no other client anything, and the first queued request of a client that is
  still connected is sent at once. Before that the tick changes nothing.\<close>

theorem timeout_frees_radio:
  assumes "core_inv s" and "in_flight s = Some f" and "radio_send_tx s = Some Open"
  shows "(instant_now env < last_activity f + 5000 \<longrightarrow> check_in_flight_timeout env s = Some s) \<and>
    (last_activity f + 5000 \<le> instant_now env \<longrightarrow> (\<exists>t. check_in_flight_timeout env s = Some t \<and>
      (\<forall>cid. inbox t cid =
         map_option (\<lambda>q. if flight_client f = Some cid then q @ [error_frame] else q) (inbox s cid)) \<and>
      (case dropWhile (client_gone s) (pending_queue s) of
         [] \<Rightarrow> in_flight t = None \<and> pending_queue t = [] \<and> radio_out t = radio_out s
       | q # rest \<Rightarrow> (\<exists>g. in_flight t = Some g \<and> flight_payload g = queued_payload q \<and>
           flight_client g = queued_client q) \<and> pending_queue t = rest \<and>
           radio_out t = radio_out s @ [queued_payload q])))"
proof (intro conjI impI)
  assume "instant_now env < last_activity f + 5000"
  then show "check_in_flight_timeout env s = Some s"
    using assms(2) by (auto simp: check_in_flight_timeout_def IN_FLIGHT_TIMEOUT_def)
next
  assume late: "last_activity f + 5000 \<le> instant_now env"
  let ?u = "send_opt (flight_client f) error_frame (s\<lparr>in_flight := None\<rparr>)"
  have c: "check_in_flight_timeout env s = advance_queue env ?u"
  proof -
    have "5000 \<le> instant_now env - last_activity f" using late by simp
    then show ?thesis using assms(2) by (simp add: check_in_flight_timeout_def IN_FLIGHT_TIMEOUT_def)
  qed
  obtain t where t: "check_in_flight_timeout env s = Some t"
    using goes_check_timeout [of s env] assms(1) by (auto simp: fx.goes_def)
  have "wire ?u = wire (s\<lparr>in_flight := None\<rparr>)" by simp
  then have u: "in_flight ?u = None" "radio_send_tx ?u = Some Open" "pending_queue ?u = pending_queue s"
    "radio_out ?u = radio_out s"
    using assms(3) by (simp_all add: wire_def)
  have g: "client_gone ?u = client_gone s"
    by (rule ext, rule client_gone_cong, simp, simp add: client_is_alive_def)
  have a: "advanced ?u t (dropWhile (client_gone s) (pending_queue s))"
    using advance_queue_first [OF t [unfolded c] u(1,2)] u(3) g by simp
  have "inbox t cid = inbox ?u cid" for cid
    using advance_queue_open [OF t [unfolded c] u(2)] by (simp add: inbox_def)
  then have i: "inbox t cid = map_option (\<lambda>q. if flight_client f = Some cid then q @ [error_frame] else q)
      (inbox s cid)" for cid
    using inbox_send_opt_error [of "flight_client f" "s\<lparr>in_flight := None\<rparr>" cid] by (simp add: inbox_def)
  show "\<exists>t. check_in_flight_timeout env s = Some t \<and>
      (\<forall>cid. inbox t cid =
         map_option (\<lambda>q. if flight_client f = Some cid then q @ [error_frame] else q) (inbox s cid)) \<and>
      (case dropWhile (client_gone s) (pending_queue s) of
         [] \<Rightarrow> in_flight t = None \<and> pending_queue t = [] \<and> radio_out t = radio_out s
       | q # rest \<Rightarrow> (\<exists>g. in_flight t = Some g \<and> flight_payload g = queued_payload q \<and>
           flight_client g = queued_client q) \<and> pending_queue t = rest \<and>
           radio_out t = radio_out s @ [queued_payload q])"
    using t i a u(4)
    by (intro exI [of _ t], cases "dropWhile (client_gone s) (pending_queue s)")
      (auto simp: advanced_def simp del: dropWhile_eq_Nil_conv split: option.splits)
qed

theorem timeout_frees_radio_witness:
  "\<exists>t. check_in_flight_timeout (test_env\<lparr>instant_now := 15000\<rparr>)
       (flying_core\<lparr>pending_queue := pending_queue busy_core\<rparr>) = Some t \<and>
     inbox t (ClientId 1) = Some [error_frame] \<and> radio_out t = [[0x05], [0x05]]"
proof -
  let ?s = "flying_core\<lparr>pending_queue := pending_queue busy_core\<rparr>"
  obtain f where f: "in_flight ?s = Some f" "flight_client f = Some (ClientId 1)" "last_activity f = 10000"
    by (simp add: flying_core_def)
  have "radio_send_tx ?s = Some Open" "radio_out ?s = [[0x05]]" "inbox ?s (ClientId 1) = Some []"
    by (simp_all add: flying_core_def inbox_def test_core_defs hm_insert_def hm_get_def)
  moreover have "dropWhile (client_gone ?s) (pending_queue ?s) =
      [\<lparr>queued_client = Some (ClientId 1), queued_payload = [0x05]\<rparr>,
       \<lparr>queued_client = Some (ClientId 1), queued_payload = [0x14]\<rparr>]"
    by (simp add: busy_core_def flying_core_def client_gone_def client_is_alive_def hm_contains_def
        client_core_def client_connected_def idle_core_def new_core_def hm_insert_def hm_get_def)
  ultimately show ?thesis
    using timeout_frees_radio [OF core_inv_flying(2) f(1), of "test_env\<lparr>instant_now := 15000\<rparr>"] f(2,3)
    by fastforce
qed

section \<open>Reconnecting\<close>

lemma backoff_step: "min (min (2 ^ k) 60 * 2) 60 = (min (2 ^ Suc k) 60 :: nat)"
  by (simp add: min_def)

lemma reconnect_loop_delays:
  "reconnect_loop delay as s = Some (r, ds, t) \<Longrightarrow> delay = min (2 ^ k) 60 \<Longrightarrow>
   ds = map (\<lambda>i. min (2 ^ (k + i)) 60) [0..<length ds] \<and> length ds \<le> length as"
proof (induction arbitrary: k rule: reconnect_loop_induct)
  case (Refused delay dial evs later s e r ds t)
  have "min (delay * 2) max_delay = min (2 ^ Suc k) 60"
    unfolding max_delay_def Refused(3) by (rule backoff_step)
  from Refused(2) [OF this] show ?case by (simp add: Refused(3) map_upt_Suc del: upt_Suc)
next
  case (Failed delay dial evs later s s1 s2 e r ds t)
  have "min (delay * 2) max_delay = min (2 ^ Suc k) 60"
    unfolding max_delay_def Failed(4) by (rule backoff_step)
  from Failed(3) [OF this] show ?case by (simp add: Failed(4) map_upt_Suc del: upt_Suc)
qed simp_all

text \<open>What a reconnection that succeeds has sent: the handshake, then the first command of the
  synchronization, with the queries of the channels waiting.\<close>

lemma radio_out_cache: "cache_response env code p s = Some t \<Longrightarrow> radio_out t = radio_out s"
  using outputs_cache_response by (auto simp: outputs_def)

lemma handshake:
  assumes "initialize_radio env evs s = Some (Ready, t)" and "radio_send_tx s = Some Open"
  shows "radio_out t = radio_out s @ [build_appstart, [0x16, 3]] \<and> link t = link s"
proof -
  let ?s1 = "s\<lparr>radio_out := radio_out s @ [build_appstart]\<rparr>"
  have s1: "send_to_radio build_appstart s = Inr ?s1" using assms(2) by (simp add: send_to_radio_def)
  obtain o1 n rest s2 where w: "wait_for_self_info env (instant_now env + SELF_INFO_TIMEOUT) (instant_now env)
      evs ?s1 = Some (o1, n, rest, s2)"
    using assms(1) by (auto simp: initialize_radio_def s1 bind_eq_Some_conv)
  have "wire (core_after (o1, n, rest, s2)) = wire ?s1"
    by (rule wait_for_self_info_same [where g = wire, OF _ w]) (rule wire_cache_response)
  then have l2: "link s2 = link s" "radio_out s2 = radio_out s @ [build_appstart]" "radio_send_tx s2 = Some Open"
    using assms(2) by (simp_all add: wire_def link_def)
  let ?s3 = "s2\<lparr>radio_out := radio_out s2 @ [[0x16, 3]]\<rparr>"
  have s3: "send_to_radio [0x16, RADIO_PROTOCOL_VERSION] s2 = Inr ?s3"
    using l2 by (simp add: send_to_radio_def RADIO_PROTOCOL_VERSION_def)
  obtain v where v: "wait_for_device_info env (n + DEVICE_INFO_TIMEOUT) n rest ?s3 = Some v" "core_after v = t"
    using assms(1) w by (cases o1) (auto simp: initialize_radio_def s1 s3 bind_eq_Some_conv)
  have "wire t = wire ?s3"
    using wait_for_device_info_same [where g = wire, OF _ v(1)] wire_cache_response v(2) by blast
  then show ?thesis using l2 by (simp add: wire_def link_def)
qed

lemma sync_sent:
  assumes "sync_from_radio env s = Some t" and "link s = (Some Open, None, [])"
  shows "radio_out t = radio_out s @ [[0x04]] \<and>
    (\<exists>f. in_flight t = Some f \<and> flight_payload f = [0x04] \<and> flight_client f = None) \<and>
    pending_queue t = map (\<lambda>i. internal [0x1F, word_of_nat i]) [0..<unat (max_channels t)] \<and>
    radio_send_tx t = Some Open"
  using assms
  by (auto simp: sync_from_radio_def queue_sync_def link_def advance_queue_sync.simps client_gone_def
      internal_def send_to_radio_def new_flight_def bind_eq_Some_conv Let_def)

definition synchronizing :: "core \<Rightarrow> bool" where
  "synchronizing t \<longleftrightarrow> radio_up t \<and> radio_send_tx t = Some Open \<and>
     radio_out t = [build_appstart, [0x16, 3], [0x04]] \<and>
     (\<exists>f. in_flight t = Some f \<and> flight_payload f = [0x04] \<and> flight_client f = None) \<and>
     pending_queue t = map (\<lambda>i. internal [0x1F, word_of_nat i]) [0..<unat (max_channels t)]"

lemma connected_synchronizing:
  assumes "connect_backend env dial s = Inr s1" and "in_flight s = None" "pending_queue s = []"
    and "initialize_radio env evs s1 = Some (Ready, s2)" and "sync_from_radio env' s2 = Some s3"
  shows "synchronizing (s3\<lparr>radio_up := True\<rparr>)"
proof -
  have l: "link s1 = (Some Open, None, [])" "radio_out s1 = []"
    using connect_backend_link [OF assms(1)] assms(1-3)
    by (auto simp: connect_backend_def split: sum.splits if_splits)
  then have "radio_out s2 = [build_appstart, [0x16, 3]]" "link s2 = (Some Open, None, [])"
    using handshake [OF assms(4)] by (auto simp: link_def)
  then show ?thesis using sync_sent [OF assms(5)] by (simp add: synchronizing_def)
qed

text \<open>Whether the radio is announced as up changes only at the end.\<close>

lemma radio_up_cache: "cache_response env code p s = Some t \<Longrightarrow> radio_up t = radio_up s"
  using face_cache_response by (auto simp: face_def)

lemma radio_up_initialize: "initialize_radio env evs s = Some r \<Longrightarrow> radio_up (snd r) = radio_up s"
  by (rule initialize_radio_same [where g = radio_up]) (auto simp: radio_up_cache send_to_radio_Inr)

lemma radio_up_send_opt [simp]: "radio_up (send_opt c p s) = radio_up s"
  by (simp add: send_opt_def send_to_client_def split: option.split)

lemma radio_up_fail_all: "radio_up (fail_all s) = radio_up s"
proof -
  have "radio_up (fold (\<lambda>q. send_opt (queued_client q) error_frame) qs u) = radio_up u"
    for qs :: "queued list" and u
    by (rule fold_same [where g = radio_up]) simp
  then show ?thesis by (simp add: fail_all_def Let_def split: option.split)
qed

lemma radio_up_connect: "connect_backend env dial s = Inr t \<Longrightarrow> radio_up t = radio_up s"
  by (auto simp: connect_backend_def split: sum.splits if_splits)

lemma reconnect_loop_outcome:
  "reconnect_loop delay as s = Some (r, ds, t) \<Longrightarrow> in_flight s = None \<Longrightarrow> pending_queue s = [] \<Longrightarrow>
   \<not> radio_up s \<Longrightarrow> if r = Reconnected then synchronizing t else \<not> radio_up t"
proof (induction rule: reconnect_loop_induct)
  case (Ready delay dial evs later s s1 s2 s3)
  then show ?case using connected_synchronizing by simp
next
  case (Failed delay dial evs later s s1 s2 e r ds t)
  then show ?case
    using fresh_link [OF Failed(1,2)] radio_up_connect [OF Failed(1)] radio_up_initialize [OF Failed(2)]
    by (simp add: link_def)
next
  case (Waiting delay dial evs later s s1 s2)
  then show ?case
    using radio_up_connect [OF Waiting(1)] radio_up_initialize [OF Waiting(2)] by simp
qed simp_all

text \<open>C25. Reconnecting. The attempts are 1, 2, 4, 8, 16, 32 and then 60 seconds apart, one delay
  per attempt. The radio is announced to the frontend only by a successful reconnection, and
  then the radio has been sent the handshake and GET_CONTACTS, in this order and nothing else,
  and the query of every channel is waiting.\<close>

theorem reconnect_backoff:
  assumes "reconnect_radio attempts s = Some (r, ds, t)"
  shows "ds = map (\<lambda>i. min (2 ^ i) 60) [0..<length ds] \<and> length ds \<le> length attempts \<and>
    (radio_up t \<longleftrightarrow> r = Reconnected) \<and>
    (r = Reconnected \<longrightarrow> radio_out t = [build_appstart, [0x16, 3], [0x04]] \<and>
       pending_queue t = map (\<lambda>i. internal [0x1F, word_of_nat i]) [0..<unat (max_channels t)])"
proof -
  let ?s = "fail_all (s\<lparr>radio_send_tx := None, radio_up := False\<rparr>)"
  have r: "reconnect_loop 1 attempts ?s = Some (r, ds, t)"
    using assms by (simp add: reconnect_radio_def)
  have "link ?s = (None, None, [])" by (simp add: link_fail_all)
  then have l: "in_flight ?s = None" "pending_queue ?s = []" by (simp_all add: link_def)
  have "\<not> radio_up ?s" by (simp add: radio_up_fail_all)
  with reconnect_loop_outcome [OF r l] have o: "if r = Reconnected then synchronizing t else \<not> radio_up t"
    by simp
  moreover have "ds = map (\<lambda>i. min (2 ^ (0 + i)) 60) [0..<length ds] \<and> length ds \<le> length attempts"
    by (rule reconnect_loop_delays [OF r]) simp
  ultimately show ?thesis by (auto simp: synchronizing_def split: if_splits)
qed

text \<open>Two attempts that fail, one that succeeds: the radio answers the handshake.\<close>

definition dialled :: "attempt list" where
  "dialled = [Dial test_env (\<lambda>t. False) [], Dial test_env (\<lambda>t. True) [(10001, RadioGone)],
     Dial test_env (\<lambda>t. True) [(10001, Received [0x05]), (10002, Received [0x01])]]"

lemma dialled_reconnects:
  "\<exists>ds t. reconnect_radio dialled client_core = Some (Reconnected, ds, t)"
proof -
  have d: "decode_response_payload two_chars 5 [5] = Some None"
    by (simp add: decode_response_payload_def decode_response_arms_def nonempty_map_def)
  show ?thesis
    by (simp add: reconnect_radio_def dialled_def connect_backend_def backend_target_def initialize_radio_def
        send_to_radio_def fail_all_def Let_def client_core_def client_connected_def idle_core_def
        new_core_def test_config_def test_env_def cache_response_def extract_radio_identity_def d
        write_db_def kv_set_def run_query_def SELF_INFO_TIMEOUT_def DEVICE_INFO_TIMEOUT_def
        sync_from_radio_def queue_sync_def advance_queue_sync.simps client_gone_def internal_def
        new_flight_def)
qed

theorem reconnect_backoff_witness:
  "\<exists>ds t. reconnect_radio dialled client_core = Some (Reconnected, ds, t) \<and> radio_up t \<and>
     radio_out t = [build_appstart, [0x16, 3], [0x04]]"
proof -
  obtain ds t where "reconnect_radio dialled client_core = Some (Reconnected, ds, t)"
    using dialled_reconnects by blast
  with reconnect_backoff [OF this] show ?thesis by blast
qed

section \<open>The initialization\<close>

text \<open>Frames that say nothing, before the deadline: the wait goes on.\<close>

definition uninformative :: "nat \<Rightarrow> nat \<times> wait_event \<Rightarrow> bool" where
  "uninformative deadline te \<longleftrightarrow> fst te < deadline \<and>
     (case snd te of Received p \<Rightarrow> p \<noteq> [] \<and> hd p \<noteq> 0x05 | _ \<Rightarrow> False)"

lemma wait_for_self_info_waits:
  "\<forall>te \<in> set evs. uninformative deadline te \<Longrightarrow> now < deadline \<Longrightarrow>
   \<exists>n. wait_for_self_info env deadline now evs s = Some (Waiting, n, [], s)"
proof (induction evs arbitrary: now)
  case (Cons te evs)
  obtain t p where "te = (t, Received p)" "t < deadline" "p \<noteq> []" "hd p \<noteq> 0x05"
    using Cons.prems(1) by (cases te; cases "snd te") (auto simp: uninformative_def)
  moreover from this(3) have "warn_code env p = Some ()" by (simp add: warn_code_Some)
  ultimately show ?case using Cons by simp
qed simp

text \<open>C27. The initialization of a radio that does not answer has no time limit of its own: as long as
  it sends no SELF_INFO and no frame after the five seconds, startup goes on waiting. The
  actor never gets to its loop, opens no frontend and tries no other connection, however many
  attempts it could make.\<close>

theorem silent_radio_blocks:
  assumes "connect_backend env dial s = Inr u"
    and "\<forall>te \<in> set evs. uninformative (instant_now env + 5000) te"
  shows "startup env dial evs attempts s = Some (StillTrying, u\<lparr>radio_out := [build_appstart]\<rparr>)"
proof -
  have u: "radio_send_tx u = Some Open" "radio_out u = []"
    using assms(1) by (auto simp: connect_backend_def split: sum.splits if_splits)
  let ?v = "u\<lparr>radio_out := [build_appstart]\<rparr>"
  have "send_to_radio build_appstart u = Inr ?v" using u by (simp add: send_to_radio_def)
  moreover obtain n where "wait_for_self_info env (instant_now env + SELF_INFO_TIMEOUT) (instant_now env)
      evs ?v = Some (Waiting, n, [], ?v)"
    using wait_for_self_info_waits [OF assms(2), of "instant_now env"] by (auto simp: SELF_INFO_TIMEOUT_def)
  ultimately have "initialize_radio env evs u = Some (Waiting, ?v)"
    by (simp add: initialize_radio_def)
  then show ?thesis using assms(1) by (simp add: startup_def start_radio_def Let_def)
qed

theorem silent_radio_blocks_witness:
  "\<exists>t. startup test_env (\<lambda>t. True) [(12000, Received [0x83])] dialled idle_core = Some (StillTrying, t) \<and>
     radio_out t = [build_appstart]"
proof -
  obtain u where u: "connect_backend test_env (\<lambda>t. True) idle_core = Inr u"
    by (simp add: connect_backend_def backend_target_def idle_core_def new_core_def test_config_def)
  show ?thesis
    by (subst silent_radio_blocks [OF u]) (simp_all add: uninformative_def test_env_def)
qed

end
