(* ===== verification/Core_Echo.thy ===== *)
theory Core_Echo
  imports Core_Serving
begin

text \<open>
  What becomes of messages: the echo of a sent channel message for the other clients, and a
  message of the radio that nobody is waiting for any more. Both end in \<open>store_message\<close>,
  which gives the message an id and moves the cursors of the clients that are up to date.
\<close>

section \<open>Storing a message\<close>

lemma advance_identity_ok:
  assumes "\<And>c. db_ok env c"
  shows "db (advance_identity env i who s) = advance_cursor (unix_now env) who i (db s)"
  using assms by (simp add: advance_identity_def write_db_def advance_client_cursor_def run_query_def)

lemma advances_grow:
  assumes "\<And>c. db_ok env c"
  shows "cursors.not_behind (db s) (db (fold (advance_identity env i) whos s))"
proof (induction whos arbitrary: s)
  case (Cons who whos)
  have "cursors.not_behind (db s) (db (advance_identity env i who s))"
    by (simp add: advance_identity_ok [OF assms] cursors.advance_not_behind)
  then show ?case using cursors.not_behind_trans Cons.IH by fastforce
qed (simp add: cursors.not_behind_refl)

lemma advances_reach:
  assumes "\<And>c. db_ok env c"
  shows "who \<in> set whos \<Longrightarrow>
    \<exists>c. cursor_of (db (fold (advance_identity env i) whos s)) who = Some c \<and> i \<le> c"
proof (induction whos arbitrary: s)
  case (Cons w whos)
  show ?case
  proof (cases "who \<in> set whos")
    case False
    let ?s1 = "advance_identity env i who s"
    obtain c where "cursor_of (db ?s1) who = Some c" "i \<le> c"
      using cursors.advance_reaches [of "unix_now env" who i "db s"]
      by (auto simp: advance_identity_ok [OF assms])
    moreover obtain c' where "cursor_of (db (fold (advance_identity env i) whos ?s1)) who = Some c'" "c \<le> c'"
      using advances_grow [OF assms, of ?s1 i whos] calculation(1)
      unfolding cursors.not_behind_def by blast
    ultimately show ?thesis using Cons.prems False by auto
  qed (use Cons.IH in simp)
qed simp

text \<open>The identity of a connected client that has nothing pending.\<close>

definition caught_up :: "core \<Rightarrow> client_id \<Rightarrow> identity \<Rightarrow> bool" where
  "caught_up s cid who \<longleftrightarrow> client_is_alive s cid \<and>
     (\<exists>x. hm_get (sessions s) cid = Some x \<and> session_pending x = [] \<and>
       who = (session_port x, session_app x))"

lemma caught_up_identity:
  assumes "caught_up s cid who" and "hm_invar (sessions s)"
  shows "who \<in> set (caught_up_identities (drop_disconnected s))"
proof -
  obtain x where x: "client_is_alive s cid" "hm_get (sessions s) cid = Some x" "session_pending x = []"
    "who = (session_port x, session_app x)"
    using assms(1) by (auto simp: caught_up_def)
  then have "hm_get (sessions (drop_disconnected s)) cid = Some x"
    using assms(2) by (simp add: drop_disconnected_def hm_simps)
  then have "(cid, x) \<in> set (sessions (drop_disconnected s))"
    by (simp add: hm_get_def map_of_SomeD)
  then show ?thesis using x by (force simp: caught_up_identities_def)
qed

lemma drop_disconnected_db [simp]: "db (drop_disconnected s) = db s"
  by (simp add: drop_disconnected_def)

lemma fold_advances_log [simp]:
  "messages (db (fold (advance_identity env i) whos s)) = messages (db s)"
  "message_seq (db (fold (advance_identity env i) whos s)) = message_seq (db s)"
  by (rule fold_same [where g = "\<lambda>s. messages (db s)"], simp)
    (rule fold_same [where g = "\<lambda>s. message_seq (db s)"], simp)

lemma store_message_ok:
  assumes "\<And>c. db_ok env c" and "message_seq (db s) < max_rowid"
  shows "messages (db (store_message env m s)) =
      messages (db s) @ [message_row_of (message_seq (db s) + 1) (unix_now env) m]"
    and "caught_up s cid who \<Longrightarrow> hm_invar (sessions s) \<Longrightarrow>
      \<exists>c. cursor_of (db (store_message env m s)) who = Some c \<and> message_seq (db s) + 1 \<le> c"
proof -
  let ?i = "message_seq (db s) + 1"
  let ?d = "db s\<lparr>messages := messages (db s) @ [message_row_of ?i (unix_now env) m], message_seq := ?i\<rparr>"
  have st: "store_message env m s = follow_head env ?i (s\<lparr>db := ?d\<rparr>)"
    using assms by (simp add: store_message_def insert_message_def run_query_def Let_def)
  show "messages (db (store_message env m s)) =
      messages (db s) @ [message_row_of ?i (unix_now env) m]"
    by (simp add: st follow_head_def Let_def)
  assume "caught_up s cid who" and "hm_invar (sessions s)"
  then have "who \<in> set (caught_up_identities (drop_disconnected (s\<lparr>db := ?d\<rparr>)))"
    by (intro caught_up_identity [of _ cid]) (simp_all add: caught_up_def client_is_alive_def)
  then show "\<exists>c. cursor_of (db (store_message env m s)) who = Some c \<and> ?i \<le> c"
    using advances_reach [OF assms(1)] by (simp add: st follow_head_def Let_def)
qed

lemma inbox_store_message [simp]: "inbox (store_message env m s) c = inbox s c"
  using face_store_message [of env m s] by (simp add: face_def inbox_def)

section \<open>The echo of a channel message\<close>

text \<open>C20. When the radio accepts a client's message to a channel, every other connected client gets
  it as a received channel message in its own layout, with the channel, the time stamp and the
  text as the mesh receives it (the node's name in front, cut at 160 bytes if the name leaves
  room), and the sender does not. It is stored with that frame and never replayed to the sender.\<close>

theorem channel_echo:
  assumes "on_command_accepted env f s = Some t" and "flight_client f = Some cid"
    and "flight_payload f = [0x03, kind, ch] @ ts @ txt" and "length ts = 4" and "txt \<noteq> []"
    and "radio_pubkey s = Some pk" and "radio_name s = Some name" and "length name \<le> 158"
    and "\<And>c. db_ok env c" and "message_seq (db s) < max_rowid"
  shows "\<exists>body m. length body \<le> 160 \<and> body = take 160 (as_bytes (name @ '': '') @ txt) \<and>
    (\<forall>c. inbox t c = map_option (\<lambda>q. if c = cid then q
       else q @ [message_frame_for (protocol_version s c) ([0x08, ch, 0, 0] @ ts @ body)]) (inbox s c)) \<and>
    messages (db t) = messages (db s) @ [m] \<and> row_frame m = Some ([0x08, ch, 0, 0] @ ts @ body) \<and>
    (\<forall>who. flight_origin f = Some who \<longrightarrow> \<not> replayable_to who m)"
proof -
  let ?p = "flight_payload f"
  let ?body = "channel_text_on_air (Some name) txt"
  let ?fake = "[0x08, ch, 0, 0] @ ts @ ?body"
  have sl: "index ?p 0 = Some 0x03" "index ?p 2 = Some ch" "slice ?p 3 7 = Some ts" "slice_from ?p 7 = Some txt"
    "length ?p \<ge> 8"
    using assms(3-5) by (simp_all add: index_def slice_def slice_from_def Suc_le_eq)
  obtain sk m0 where t: "t = store_message env m0 (broadcast_to_others (Some cid) ?fake s)"
    and m0: "msg_frame m0 = ?fake" "origin m0 = flight_origin f"
    using assms(1,2,6,7) sl
    by (auto simp: on_command_accepted_def accepted_contacts_def accepted_echo_def Let_def
        synthesize_channel_echo_def channel_echo_frame_def byte_at_def text_message_def
        bind_eq_Some_conv)
  let ?m = "message_row_of (message_seq (db s) + 1) (unix_now env) m0"
  have b: "?body = take 160 (as_bytes (name @ '': '') @ txt)"
    using assms(8) by (simp add: channel_text_on_air_def MAX_TEXT_LEN_def Let_def min_def)
  have i: "inbox t c = map_option (\<lambda>q. if c = cid then q
       else q @ [message_frame_for (protocol_version s c) ?fake]) (inbox s c)" for c
    by (cases "inbox s c") (auto simp: t inbox_broadcast_to_others as_sent_def)
  have d: "db (broadcast_to_others (Some cid) ?fake s) = db s"
    by (simp add: broadcast_to_others_def)
  have m: "messages (db t) = messages (db s) @ [?m]"
    using store_message_ok(1) [OF assms(9), of "broadcast_to_others (Some cid) ?fake s" m0] assms(10)
    by (simp only: t d)
  have r: "\<not> replayable_to who ?m" if "flight_origin f = Some who" for who
    using m0(2) that by (cases who) (simp add: replayable_to_def message_row_of_def)
  have "row_frame ?m = Some ?fake" by (simp add: message_row_of_def m0)
  with i m r show ?thesis
    by (intro exI [of _ ?body] exI [of _ ?m]) (auto simp: b)
qed

text \<open>Two clients; the first has sent "hi" to channel 1.\<close>

definition echo_core :: core where
  "echo_core = (client_connected (ClientId 2) client_core)\<lparr>radio_pubkey := Some (replicate 32 7),
     radio_name := Some ''Node''\<rparr>"

definition sent_hi :: in_flight_request where
  "sent_hi = \<lparr>flight_client = Some (ClientId 1), flight_payload = [0x03, 0, 1, 9, 9, 9, 9] @ as_bytes ''hi'',
     last_activity = 10000, sent_unix = 1000, awaiting_reply = OneOf [0x00],
     flight_origin = Some (5000, ''app'')\<rparr>"

theorem channel_echo_witness:
  "\<exists>t. on_command_accepted test_env sent_hi echo_core = Some t \<and>
     inbox t (ClientId 1) = Some [] \<and>
     inbox t (ClientId 2) = Some [[0x08, 1, 0, 0, 9, 9, 9, 9] @ as_bytes ''Node: hi'']"
proof -
  have n: "radio_pubkey echo_core = Some (replicate 32 7)" "radio_name echo_core = Some ''Node''"
    by (simp_all add: echo_core_def)
  obtain t where t: "on_command_accepted test_env sent_hi echo_core = Some t"
    by (simp add: on_command_accepted_def accepted_contacts_def accepted_echo_def Let_def
        synthesize_channel_echo_def channel_echo_frame_def byte_at_def n index_def slice_def
        slice_from_def sent_hi_def)
  have i: "inbox echo_core (ClientId 1) = Some []" "inbox echo_core (ClientId 2) = Some []"
    "protocol_version echo_core c = 0" "message_seq (db echo_core) < max_rowid" for c
    by (simp_all add: echo_core_def inbox_def protocol_version_def test_core_defs hm_simps max_rowid_def
        migrate_def empty_state_def hm_retain_def)
  have p: "flight_client sent_hi = Some (ClientId 1)" "flight_payload sent_hi = [0x03, 0, 1] @ [9, 9, 9, 9] @ as_bytes ''hi''"
    by (simp_all add: sent_hi_def)
  from channel_echo [OF t p _ _ n _ test_env_db i(4)] show ?thesis
    using t i(1-3) by (auto simp: as_bytes_def message_frame_for_def)
qed

section \<open>A message nobody waits for\<close>

text \<open>The frames that are messages: of a contact or a channel, in the old layout or that of version 3,
  with all fields before the text.\<close>

definition message_received :: "frame \<Rightarrow> bool" where
  "message_received p \<longleftrightarrow> p \<noteq> [] \<and>
     (hd p = 0x07 \<and> length p \<ge> 13 \<or> hd p = 0x08 \<and> length p \<ge> 9 \<or>
      hd p = 0x10 \<and> length p \<ge> 16 \<or> hd p = 0x11 \<and> length p \<ge> 11)"

lemma insert_all_nonempty: "insert_all (kv # kvs) m \<noteq> []"
proof -
  have "fold (\<lambda>(k, v). hm_insert k v) l x \<noteq> []" if "x \<noteq> []" for l and x :: decoded
    using that
  proof (induction l arbitrary: x)
    case (Cons kv l)
    have "hm_insert (fst kv) (snd kv) x \<noteq> []" by (cases x) (auto simp: hm_insert_def)
    from Cons.IH [OF this] show ?case by (simp add: split_def)
  qed simp
  moreover have "hm_insert (fst kv) (snd kv) m \<noteq> []" by (cases m) (auto simp: hm_insert_def)
  ultimately show ?thesis by (simp add: insert_all_def split_def)
qed

lemma as_stored:
  "\<exists>m. store_message env (text_message ty k ch txt ts p who) s = store_message env m s \<and> msg_frame m = p"
  by (rule exI [of _ "text_message ty k ch txt ts p who"]) (simp add: text_message_def)

lemma message_is_stored:
  assumes "cache_response env (hd p) p s = Some u" and "message_received p"
  shows "\<exists>m. u = store_message env m s \<and> msg_frame m = p"
proof -
  consider "hd p = 0x07" "length p \<ge> 13" | "hd p = 0x08" "length p \<ge> 9"
    | "hd p = 0x10" "length p \<ge> 16" | "hd p = 0x11" "length p \<ge> 11"
    using assms(2) by (auto simp: message_received_def)
  then show ?thesis
  proof cases
    case 1
    then have "decode_response_payload (hex env) 0x07 p \<noteq> Some None"
      by (auto simp: decode_response_payload_def decode_response_arms_def dec_contact_msg_def nonempty_map_def
          bind_eq_Some_conv insert_all_nonempty)
    moreover have "decode_response_payload (hex env) 0x07 p \<noteq> None"
      using assms(1) 1 by (auto simp: cache_response_def cache_contact_msg_def bind_eq_Some_conv)
    ultimately obtain m where "decode_response_payload (hex env) 0x07 p = Some (Some m)" by fastforce
    then show ?thesis
      using assms(1) 1 as_stored by (auto simp: cache_response_def cache_contact_msg_def bind_eq_Some_conv)
  next
    case 2
    then have "decode_response_payload (hex env) 0x08 p \<noteq> Some None"
      by (auto simp: decode_response_payload_def decode_response_arms_def dec_channel_msg_def nonempty_map_def
          bind_eq_Some_conv insert_all_nonempty)
    moreover have "decode_response_payload (hex env) 0x08 p \<noteq> None"
      using assms(1) 2 by (auto simp: cache_response_def cache_channel_msg_def bind_eq_Some_conv)
    ultimately obtain m where "decode_response_payload (hex env) 0x08 p = Some (Some m)" by fastforce
    then show ?thesis
      using assms(1) 2 as_stored by (auto simp: cache_response_def cache_channel_msg_def bind_eq_Some_conv)
  next
    case 3
    then show ?thesis
      using assms(1) by (auto simp: cache_response_def cache_contact_msg_v3_def bind_eq_Some_conv
          Let_def intro: as_stored)
  next
    case 4
    then show ?thesis
      using assms(1) by (auto simp: cache_response_def cache_channel_msg_v3_def bind_eq_Some_conv
          intro: as_stored)
  qed
qed

text \<open>C23. A message that the radio delivers after the GET_MSG that fetched it was given up is lost for
  the clients that are up to date, whichever of the four message frames it is: it is stored and
  their cursors move past it, but it is put on no client's channel and will not be among the
  messages replayed to them.\<close>

theorem late_message_lost:
  assumes "core_inv s" and "handle_radio_rx env p s = Some t" and "message_received p"
    and "\<And>f. in_flight s = Some f \<Longrightarrow> \<not> fst (classify (awaiting_reply f) (hd p))"
    and "caught_up s cid who" and "\<And>c. db_ok env c" and "message_seq (db s) < max_rowid"
  shows "(\<forall>c. inbox t c = inbox s c) \<and> broadcast_out t = broadcast_out s \<and>
    (\<exists>m c. messages (db t) = messages (db s) @ [m] \<and> row_frame m = Some p \<and>
       client_cursor env who (db t) = Inr (Some c) \<and>
       (\<forall>ids. message_ids_after env c who (db t) = Inr ids \<longrightarrow> msg_id m \<notin> set ids))"
proof -
  obtain code rest where p: "p = code # rest" and k: "code \<in> {0x07, 0x08, 0x10, 0x11}"
    using assms(3) by (cases p) (auto simp: message_received_def)
  have push: "\<not> is_push_event code" using k by (auto simp: is_push_event_def)
  let ?i = "message_seq (db s) + 1"
  have late: "client_channels t = client_channels s" "broadcast_out t = broadcast_out s"
    using unawaited_reply [of env code rest s t] assms(2,4) push by (simp_all add: p)
  obtain u where u: "cache_response env code p s = Some u"
    and t: "route_frame env code p (record_raw env code p u) = Some t"
    using assms(2) p by (auto simp: handle_radio_rx_eq bind_eq_Some_conv split: if_splits)
  let ?v = "record_raw env code p u"
  have "wire ?v = wire s" using wire_cache_response [OF u] by simp
  then have "try_route_to_in_flight env code p ?v = Some (False, ?v)"
    using assms(4) p by (auto simp: try_route_to_in_flight_def wire_def split: option.split prod.split)
  then have "t = ?v" using t k push by (auto simp: route_frame_def try_route_ack_def)
  moreover obtain m0 where m0: "u = store_message env m0 s" "msg_frame m0 = p"
    using message_is_stored [of env p s u] assms(3) u p by auto
  ultimately have db: "messages (db t) = messages (db (store_message env m0 s))"
    "clients (db t) = clients (db (store_message env m0 s))"
    by (auto simp: record_raw_def write_db_def insert_raw_rx_def run_query_def split: sum.split)
  let ?m = "message_row_of ?i (unix_now env) m0"
  have m: "messages (db t) = messages (db s) @ [?m]"
    using store_message_ok(1) [OF assms(6,7)] db(1) by simp
  have "hm_invar (sessions s)" using assms(1) by (simp add: core_inv_defs)
  then obtain c where c: "cursor_of (db t) who = Some c" "?i \<le> c"
    using store_message_ok(2) [OF assms(6,7,5), of m0] db(2) by (auto simp: cursor_of_def)
  have f: "row_frame ?m = Some p" "msg_id ?m = ?i" by (simp_all add: message_row_of_def m0)
  have "msg_id ?m \<notin> set ids" if "message_ids_after env c who (db t) = Inr ids" for ids
    using that c(2) f(2)
    by (auto simp: message_ids_after_def run_query_def replayable_ids_set split: if_splits)
  moreover have "client_cursor env who (db t) = Inr (Some c)"
    using c(1) assms(6) by (simp add: client_cursor_eq run_query_def)
  ultimately show ?thesis
    using late m f(1) by (simp add: inbox_def)
qed

text \<open>A client that is up to date, and no request in flight.\<close>

definition up_to_date_core :: core where
  "up_to_date_core = client_core\<lparr>sessions :=
     [(ClientId 1, \<lparr>session_port = 5000, session_app = ''app'', session_pending = []\<rparr>)]\<rparr>"

theorem late_message_lost_witness:
  "\<exists>t m. handle_radio_rx test_env [0x11, 0, 0, 0, 1, 0, 0, 9, 9, 9, 9, 104] up_to_date_core = Some t \<and>
     inbox t (ClientId 1) = Some [] \<and> messages (db t) = [m] \<and>
     row_frame m = Some [0x11, 0, 0, 0, 1, 0, 0, 9, 9, 9, 9, 104]"
proof -
  let ?s = up_to_date_core and ?rest = "[0, 0, 0, 1, 0, 0, 9, 9, 9, 9, 104]"
  have p: "message_received (0x11 # ?rest)" by (simp add: message_received_def)
  have inv: "core_inv ?s"
    using reachable_inv [OF reachable_client]
    by (simp add: up_to_date_core_def core_inv_defs hm_invar_def hm_get_def pending_ok_def)
  have "\<not> log_panics (conf ?s) ''<-'' 0x11 (0x11 # ?rest)" by (simp add: log_panics_def)
  then obtain t where t: "handle_radio_rx test_env (0x11 # ?rest) ?s = Some t"
    using goes_handle_radio_rx [OF test_env_ok, of "0x11 # ?rest" ?s] inv by (auto simp: fx.goes_def)
  have c: "caught_up ?s (ClientId 1) (5000, ''app'')"
    by (simp add: caught_up_def up_to_date_core_def client_is_alive_def hm_contains_def
        client_core_def client_connected_def hm_simps) (simp add: hm_get_def)
  have s: "message_seq (db ?s) < max_rowid" "in_flight ?s = None" "inbox ?s (ClientId 1) = Some []"
    "messages (db ?s) = []"
    by (simp_all add: up_to_date_core_def test_core_defs max_rowid_def migrate_def empty_state_def inbox_def
        hm_simps hm_retain_def)
  from late_message_lost [OF inv t p _ c test_env_db s(1)] show ?thesis
    using t s by auto
qed

end
