(* ===== verification/Core_Answers.thy ===== *)
theory Core_Answers
  imports Core_Channels
begin

text \<open>
  What a command of a client comes to: the proxy answers it itself, from the missed messages or from
  the cache, or puts it through to the radio. Which of the two is decided by what the proxy has
  (\<open>cached_answer\<close>), and nobody but the client that asked is told anything.
\<close>

section \<open>Frames for one client\<close>

definition told :: "client_id \<Rightarrow> frame list \<Rightarrow> core \<Rightarrow> core \<Rightarrow> bool" where
  "told cid ps s t \<longleftrightarrow> broadcast_out t = broadcast_out s \<and>
     (\<forall>c. inbox t c = map_option (\<lambda>q. if c = cid then q @ ps else q) (inbox s c))"

lemma told_face: "face t = face s \<Longrightarrow> told cid [] s t"
  by (simp add: told_def face_def inbox_def option.map_ident cong: if_cong)

lemma told_send: "told cid [as_sent s cid p] s (send_to_client cid p s)"
  by (auto simp: told_def inbox_send_to_client option.map_ident) (simp add: send_to_client_def split: option.split)

lemma told_trans:
  assumes "told cid ps s t" and "told cid qs t u"
  shows "told cid (ps @ qs) s u"
  using assms by (auto simp: told_def option.map_comp comp_def intro!: option.map_cong)

text \<open>Something is said, and more may follow.\<close>

definition answered :: "client_id \<Rightarrow> core \<Rightarrow> core \<Rightarrow> bool" where
  "answered cid s t \<longleftrightarrow> wire t = wire s \<and> (\<exists>ps. ps \<noteq> [] \<and> told cid ps s t)"

lemma answered_send: "answered cid s (send_to_client cid p s)"
  using told_send by (auto simp: answered_def)

lemma answered_then:
  assumes "answered cid s t" and "told cid qs t u" and "wire u = wire t"
  shows "answered cid s u"
proof -
  obtain ps where ps: "ps \<noteq> []" "told cid ps s t" "wire t = wire s" using assms(1) by (auto simp: answered_def)
  from told_trans [OF ps(2) assms(2)] ps(1,3) assms(3) show ?thesis
    unfolding answered_def by (intro conjI exI [of _ "ps @ qs"]) simp_all
qed

lemma answered_after:
  assumes "face t = face s" and "answered cid t u"
  shows "answered cid s u"
proof -
  obtain ps where ps: "ps \<noteq> []" "told cid ps t u" "wire u = wire t" using assms(2) by (auto simp: answered_def)
  from told_trans [OF told_face [OF assms(1)] ps(2)] ps face_wire [OF assms(1)] show ?thesis
    unfolding answered_def by (intro conjI exI [of _ ps]) simp_all
qed

section \<open>Which commands are answered\<close>

text \<open>The proxy knows the radio's SELF_INFO, DEVICE_INFO or battery state, has contacts, the channel
  asked for, or a message the client missed.\<close>

definition cached_channel_for :: "env \<Rightarrow> frame \<Rightarrow> core \<Rightarrow> bool" where
  "cached_channel_for env payload s \<longleftrightarrow>
     (case get_channels env (db s) of
        Inl e \<Rightarrow> False
      | Inr chs \<Rightarrow> \<exists>ch \<in> set chs. idx ch = (if length payload > 1 then uint (payload ! 1) else - 1))"

definition missed_message :: "env \<Rightarrow> client_id \<Rightarrow> core \<Rightarrow> bool" where
  "missed_message env cid s \<longleftrightarrow>
     (case hm_get (sessions s) cid of
        None \<Rightarrow> False
      | Some x \<Rightarrow> \<exists>i \<in> set (session_pending x). \<exists>f. message_frame env i (db s) = Inr (Some f))"

definition cached_answer :: "env \<Rightarrow> client_command \<Rightarrow> core \<Rightarrow> bool" where
  "cached_answer env cmd s \<longleftrightarrow>
     (let payload = command_payload cmd
      in if hd payload = 0x01 then self_info_raw s \<noteq> None
         else if hd payload = 0x16 then device_info_raw s \<noteq> None
         else if hd payload = 0x14 then battery_info_raw s \<noteq> None
         else if hd payload = 0x04 then (\<exists>c cs. get_contacts env (db s) = Inr (c # cs))
         else if hd payload = 0x1F then cached_channel_for env payload s
         else if hd payload = 0x0A then missed_message env (command_client cmd) s
         else False)"

section \<open>The answers\<close>

lemma told_contacts_each: "send_contacts cid since cs r s = Some (n, t) \<Longrightarrow> \<exists>ps. told cid ps s t"
proof (induction cs arbitrary: r s)
  case Nil
  then show ?case using told_face by auto
next
  case (Cons c cs)
  then obtain s' r' where "send_contacts cid since cs r' s' = Some (n, t)"
    "s' = s \<or> s' = send_to_client cid (contact_frame c) s"
    by (auto simp: Let_def bind_eq_Some_conv split: if_splits)
  then show ?case using Cons.IH told_send told_trans by blast
qed

lemma answered_contacts:
  assumes "respond_contacts cid cs since s = Some t"
  shows "answered cid s t"
proof -
  obtain p n u q where u: "send_contacts cid since cs 0 (send_to_client cid p s) = Some (n, u)"
    and t: "t = send_to_client cid q u"
    using assms by (auto simp: respond_contacts_def Let_def bind_eq_Some_conv)
  obtain ps where "told cid ps (send_to_client cid p s) u" using told_contacts_each [OF u] by blast
  from answered_then [OF answered_send told_trans [OF this told_send]] show ?thesis
    using wire_send_contacts [OF u] t by simp
qed

lemma serve_cached:
  assumes "try_serve_from_cache env (hd (command_payload cmd)) cmd s = Some (served, t)"
    and "hd (command_payload cmd) \<noteq> 0x0A"
  shows "served = cached_answer env cmd s" and "if served then answered (command_client cmd) s t else t = s"
proof -
  have c: "served = cached_channel_for env p s \<and> (if served then answered cid s t else t = s)"
    if sv: "serve_channel env cid p s = Some (served, t)" for cid p
  proof (cases "get_channels env (db s)")
    case (Inr chs)
    let ?is = "\<lambda>c. idx c = (if length p > 1 then uint (p ! 1) else - 1)"
    have r: "(served, t) = (case find ?is chs of None \<Rightarrow> (False, s) | Some ch \<Rightarrow> (True, respond_channel_info cid ch s))"
      using sv Inr by (auto simp: serve_channel_def bind_eq_Some_conv byte_at_def index_def split: if_splits)
    show ?thesis
    proof (cases "find ?is chs")
      case None
      then have "\<not> (\<exists>ch \<in> set chs. ?is ch)" by (auto simp: find_None_iff)
      then show ?thesis using r None Inr by (simp add: cached_channel_for_def)
    next
      case (Some ch)
      then have "ch \<in> set chs" "?is ch" by (auto simp: find_Some_iff)
      then show ?thesis
        using r Some Inr answered_send by (auto simp: cached_channel_for_def respond_channel_info_def)
    qed
  qed (use sv in \<open>auto simp: serve_channel_def cached_channel_for_def bind_eq_Some_conv\<close>)
  have k: "served = (\<exists>c cs. get_contacts env (db s) = Inr (c # cs)) \<and>
      (if served then answered cid s t else t = s)"
    if "serve_contacts env cid p s = Some (served, t)" for cid p
    using that answered_contacts by (auto simp: serve_contacts_def neq_Nil_conv split: sum.splits if_splits)
  show "served = cached_answer env cmd s" "if served then answered (command_client cmd) s t else t = s"
    using assms c k answered_send
    by (auto simp: try_serve_from_cache_def cached_answer_def serve_blob_def Let_def
        split: option.splits if_splits)
qed

text \<open>A missed message is sent, or nothing is.\<close>

lemma pop_missed_hit:
  "pop_missed env d ids = (hit, rest) \<Longrightarrow>
   hit \<noteq> None \<longleftrightarrow> (\<exists>i \<in> set ids. \<exists>f. message_frame env i d = Inr (Some f))"
  by (induction env d ids rule: pop_missed.induct) (auto split: sum.splits option.splits)

lemma replay_missed:
  assumes "replay_next_missed env cid s = (b, t)"
  shows "b = missed_message env cid s" and "if b then answered cid s t else face t = face s"
proof -
  have "b = missed_message env cid s \<and> (if b then answered cid s t else face t = face s)"
  proof (cases "hm_get (sessions s) cid")
    case None
    then show ?thesis using assms by (simp add: replay_next_missed_def missed_message_def)
  next
    case (Some x)
    obtain hit rest where h: "pop_missed env (db s) (session_pending x) = (hit, rest)" by fastforce
    let ?s1 = "set_pending cid x rest s"
    have b: "b = (hit \<noteq> None)" and
      t: "face t = face (case hit of None \<Rightarrow> ?s1 | Some (i, f) \<Rightarrow> send_to_client cid f ?s1)"
      using assms Some h by (auto simp: replay_next_missed_def Let_def split: option.splits sum.splits if_splits)
    have "answered cid s t" if hit: "hit = Some (i, f)" for i f
    proof (rule answered_after [OF _ answered_then [OF answered_send told_face]])
      show "face t = face (send_to_client cid f ?s1)" using t hit by simp
      then show "wire t = wire (send_to_client cid f ?s1)" by (rule face_wire)
    qed simp
    then show ?thesis
      using b t pop_missed_hit [OF h] Some by (cases hit) (auto simp: missed_message_def)
  qed
  then show "b = missed_message env cid s" "if b then answered cid s t else face t = face s" by simp_all
qed

lemma noted_cache [simp]:
  "self_info_raw (note_version cid code p s) = self_info_raw s"
  "device_info_raw (note_version cid code p s) = device_info_raw s"
  "battery_info_raw (note_version cid code p s) = battery_info_raw s"
  "db (note_version cid code p s) = db s"
  by (simp_all add: note_version_def)

lemma self_info_registered: "self_info_raw (register_session env cmd s) = self_info_raw s"
  by (simp add: register_session_def Let_def write_db_def split: sum.split)

lemma command_outcome:
  assumes "handle_client_command env cmd s = Some t" and "command_payload cmd = code # rest"
    and "client_is_alive s (command_client cmd)"
  shows "if cached_answer env cmd s then answered (command_client cmd) s t
    else \<exists>u. face u = face s \<and>
      enqueue_or_dispatch env (Some (command_client cmd)) (forwarded_payload code (code # rest)) u = Some t"
proof -
  let ?cid = "command_client cmd"
  have sc: "serve_command env cmd code s = Some t"
    using assms by (auto simp: handle_client_command_eq split: if_splits)
  let ?s1 = "if code = 0x01 then register_session env cmd s else s"
  let ?s2 = "note_version ?cid code (code # rest) ?s1"
  have f2: "face ?s2 = face s" by simp
  show ?thesis
  proof (cases "code = 0x0A")
    case True
    obtain b s3 where r: "replay_next_missed env ?cid s = (b, s3)" by fastforce
    then show ?thesis
      using sc True replay_missed [OF r] assms(2)
      by (auto simp: serve_command_def Let_def note_version_def cached_answer_def try_serve_from_cache_def
          split: if_splits)
  next
    case False
    obtain served s4 where s4: "try_serve_from_cache env code cmd ?s2 = Some (served, s4)"
      and t: "(if served then Some (if code = 0x01 then notify_missed ?cid s4 else s4)
        else enqueue_or_dispatch env (Some ?cid) (forwarded_payload code (code # rest)) s4) = Some t"
      using sc False assms(2) by (auto simp: serve_command_def Let_def bind_eq_Some_conv)
    have c: "cached_answer env cmd ?s2 = cached_answer env cmd s"
      using assms(2) False
      by (cases "code = 0x01") (simp_all add: cached_answer_def cached_channel_for_def self_info_registered)
    note v = serve_cached [of env cmd ?s2 served s4]
    show ?thesis
    proof (cases served)
      case True
      then have a: "answered ?cid s s4" using v s4 False assms(2) answered_after [OF f2] by simp
      have "\<exists>ps. told ?cid ps s4 (notify_missed ?cid s4)"
      proof (cases "notify_missed ?cid s4 = s4")
        case True
        then show ?thesis using told_face [of s4 s4] by auto
      next
        case False
        then have "notify_missed ?cid s4 = send_to_client ?cid [0x83] s4"
          by (auto simp: notify_missed_def split: option.splits if_splits)
        then show ?thesis using told_send by metis
      qed
      then have "answered ?cid s (notify_missed ?cid s4)" using answered_then [OF a] by auto
      then have "answered ?cid s t" using t True a by (simp split: if_splits)
      then show ?thesis using v(1) s4 True c False assms(2) by simp
    next
      case no: False
      then have "s4 = ?s2" using v(2) s4 False assms(2) by simp
      then have "enqueue_or_dispatch env (Some ?cid) (forwarded_payload code (code # rest)) ?s2 = Some t"
        using t no by simp
      moreover have "\<not> cached_answer env cmd s" using v(1) s4 no c False assms(2) by simp
      ultimately show ?thesis using f2 by (simp only: if_False) blast
    qed
  qed
qed

section \<open>While the radio is busy\<close>

text \<open>C21. While a request is in flight, a client's command is never sent to the radio and does not
  disturb the request. If the proxy has the answer, the client gets it and the queue stays as it
  is; otherwise the command, as it is to be sent, is the new last entry of the queue and nobody is
  told anything. The other clients get nothing either way.\<close>

theorem busy_radio_undisturbed:
  assumes "handle_client_command env cmd s = Some t" and "in_flight s \<noteq> None"
    and "command_payload cmd = code # rest" and "inbox s (command_client cmd) = Some q"
  shows "radio_out t = radio_out s \<and> in_flight t = in_flight s \<and> broadcast_out t = broadcast_out s \<and>
    (\<forall>c. c \<noteq> command_client cmd \<longrightarrow> inbox t c = inbox s c) \<and>
    (if cached_answer env cmd s
     then pending_queue t = pending_queue s \<and>
       (\<exists>ps. ps \<noteq> [] \<and> inbox t (command_client cmd) = Some (q @ ps))
     else pending_queue t = pending_queue s @ [\<lparr>queued_client = Some (command_client cmd),
         queued_payload = (if code = 0x16 then [0x16, RADIO_PROTOCOL_VERSION] else code # rest)\<rparr>] \<and>
       inbox t (command_client cmd) = Some q)"
proof (cases "cached_answer env cmd s")
  case True
  then obtain ps where "ps \<noteq> []" "told (command_client cmd) ps s t" "wire t = wire s"
    using command_outcome [OF assms(1,3)] assms(4) by (auto simp: answered_def alive_inbox)
  then show ?thesis
    using True assms(4) by (auto simp: told_def wire_def option.map_ident)
next
  case False
  then obtain u where u: "face u = face s"
    "enqueue_or_dispatch env (Some (command_client cmd)) (forwarded_payload code (code # rest)) u = Some t"
    using command_outcome [OF assms(1,3)] assms(4) by (auto simp: alive_inbox)
  then have "t = push_queue \<lparr>queued_client = Some (command_client cmd),
      queued_payload = forwarded_payload code (code # rest)\<rparr> u"
    using assms(2) by (simp add: enqueue_or_dispatch_def face_def wire_def split: if_splits)
  then show ?thesis
    using u(1) False assms(4) by (simp add: push_queue_def face_def wire_def inbox_def forwarded_payload_def)
qed

text \<open>A radio that is busy with a GET_DEVICE_TIME, and a client that asks for something else.\<close>

theorem busy_radio_undisturbed_witness:
  "\<exists>t. handle_client_command test_env
     \<lparr>command_client = ClientId 1, command_port = 5000, command_payload = [0x16, 3]\<rparr> flying_core = Some t \<and>
     radio_out t = [[0x05]] \<and>
     pending_queue t = [\<lparr>queued_client = Some (ClientId 1), queued_payload = [0x16, 3]\<rparr>]"
proof -
  have "in_flight flying_core \<noteq> None" "inbox flying_core (ClientId 1) = Some []" "radio_out flying_core = [[0x05]]"
    "pending_queue flying_core = []" "device_info_raw flying_core = None"
    by (simp_all add: flying_core_def inbox_def test_core_defs hm_insert_def hm_get_def)
  with busy_radio_undisturbed [OF flying_core_version, of "0x16" "[3]" "[]"] flying_core_version show ?thesis
    by (simp add: cached_answer_def RADIO_PROTOCOL_VERSION_def)
qed

end
