(* ===== verification/Core_Missed.thy ===== *)
theory Core_Missed
  imports Core_Serving Core_Answers
begin

text \<open>
  What a client that comes back gets: the abstract list of the messages it missed, and that an
  APP_START followed by as many GET_MSG commands delivers exactly these.
\<close>

section \<open>The messages a client missed\<close>

text \<open>In the order they were stored: all after its cursor, or for a new client what the backlog setting
  allows; never those without a frame or sent from the same port and app.\<close>

definition missed_messages :: "env \<Rightarrow> identity \<Rightarrow> core \<Rightarrow> message_row list" where
  "missed_messages env who s =
     (let ms = filter (replayable_to who) (messages (db s))
      in case cursor_of (db s) who of
           Some c \<Rightarrow> filter (\<lambda>m. c < msg_id m) ms
         | None \<Rightarrow>
             (case new_client_backlog (conf s) of
                Off \<Rightarrow> []
              | Messages n \<Rightarrow> drop (length ms - n) ms
              | Seconds secs \<Rightarrow> filter (\<lambda>m. case received_at m of None \<Rightarrow> False
                                            | Some t \<Rightarrow> unix_now env - secs \<le> t) ms))"

lemma missed_stored: "set (missed_messages env who s) \<subseteq> {m \<in> set (messages (db s)). replayable_to who m}"
  by (auto simp: missed_messages_def Let_def dest: in_set_dropD split: option.splits backlog.splits)

lemma sorted_ids: "store_inv d \<Longrightarrow> sorted_wrt (<) (map msg_id (filter P (messages d)))"
  by (simp add: store_inv_def sorted_wrt_map sorted_wrt_filter)

lemma missed_sorted:
  assumes "store_inv (db s)"
  shows "sorted_wrt (<) (map msg_id (missed_messages env who s))"
  using sorted_ids [OF assms]
  by (auto simp: missed_messages_def Let_def sorted_wrt_drop simp flip: drop_map
      split: option.split backlog.split)

lemma replayable_ids_map:
  assumes "store_inv d"
  shows "replayable_ids P who d = map msg_id (filter (\<lambda>m. P m \<and> replayable_to who m) (messages d))"
  using sorted_ids [OF assms, of "\<lambda>m. P m \<and> replayable_to who m"]
  by (simp add: replayable_ids_def strict_sorted_iff sorted_sort_id)

lemma newest_ids:
  assumes "sorted_wrt (<) (ids :: int list)"
  shows "sort (take n (rev ids)) = drop (length ids - n) ids"
proof -
  have "sorted_wrt (<) (drop (length ids - n) ids)" by (rule sorted_wrt_drop [OF assms])
  then have d: "sorted (drop (length ids - n) ids)" "distinct (drop (length ids - n) ids)"
    by (simp_all add: strict_sorted_iff)
  have "sort (rev (drop (length ids - n) ids)) = drop (length ids - n) ids"
    by (rule sorted_distinct_set_unique) (use d in simp_all)
  then show ?thesis by (simp add: take_rev)
qed

lemma missed_ids_spec:
  assumes "store_inv (db s)" and "\<And>c. db_ok env c"
  shows "missed_ids env who s = Inr (map msg_id (missed_messages env who s))"
proof -
  let ?ms = "filter (replayable_to who) (messages (db s))"
  have "sort (take n (rev (map msg_id ?ms))) = map msg_id (drop (length ?ms - n) ?ms)" for n
    using newest_ids [OF sorted_ids [OF assms(1)], of n "replayable_to who"] by (simp add: drop_map)
  then show ?thesis
    by (simp add: missed_ids_def client_cursor_eq run_query_def assms message_ids_after_def
        backlog_message_ids_def replayable_ids_map missed_messages_def Let_def conj_commute
        split: option.split backlog.split)
qed

text \<open>They are all stored, so none is skipped.\<close>

lemma stored_messages:
  assumes "store_inv d" and "\<And>c. db_ok env c"
    and "set ms \<subseteq> {m \<in> set (messages d). replayable_to who m}"
  shows "stored_frames env d (map msg_id ms) = map (\<lambda>m. the (row_frame m)) ms"
  using assms(3)
proof (induction ms)
  case (Cons m ms)
  then have m: "m \<in> set (messages d)" "row_frame m \<noteq> None" by (simp_all add: replayable_to_def)
  obtain m' where m': "find (\<lambda>x. msg_id x = msg_id m \<and> row_frame x \<noteq> None) (messages d) = Some m'"
    using m by (cases "find (\<lambda>x. msg_id x = msg_id m \<and> row_frame x \<noteq> None) (messages d)")
      (auto simp: find_None_iff)
  then have "m' \<in> set (messages d)" "msg_id m' = msg_id m" by (auto simp: find_Some_iff)
  then have "m' = m" using msg_id_unique [OF assms(1)] m(1) by blast
  then have "stored_frame env d (msg_id m) = row_frame m"
    using m' by (simp add: stored_frame_def message_frame_def run_query_def assms(2))
  then show ?case using Cons m(2) by auto
qed simp

section \<open>Asking for them\<close>

fun get_messages :: "env \<Rightarrow> client_command \<Rightarrow> nat \<Rightarrow> core \<Rightarrow> core or_panic" where
  "get_messages env cmd 0 s = Some s"
| "get_messages env cmd (Suc n) s = Option.bind (handle_client_command env cmd s) (get_messages env cmd n)"

lemma get_message:
  assumes "command_payload cmd = [0x0A]" and "client_is_alive s (command_client cmd)" and "hex_ok env"
    and "replay_next_missed env (command_client cmd) s = (True, t)"
  shows "handle_client_command env cmd s = Some t"
  using assms(1,2,4)
  by (simp add: handle_client_command_eq log_event_None_iff [OF assms(3)] log_panics_def serve_command_def
      note_version_def Let_def)

lemma stored_frames_all:
  "length (stored_frames env d ids) = length ids \<Longrightarrow> i \<in> set ids \<Longrightarrow>
   \<exists>f. message_frame env i d = Inr (Some f)"
proof (induction ids)
  case (Cons j js)
  have "length (stored_frames env d js) \<le> length js"
    by (simp add: stored_frames_def le_trans [OF length_filter_le])
  with Cons show ?case by (auto simp: stored_frame_def split: option.splits sum.splits)
qed simp

lemma get_messages_deliver:
  assumes "\<And>c. db_ok env c" and "hex_ok env" and p: "command_payload cmd = [0x0A]"
    and cid: "cid = command_client cmd"
  shows "hm_get (sessions s) cid = Some x \<Longrightarrow> inbox s cid = Some q \<Longrightarrow>
    length (stored_frames env (db s) (session_pending x)) = length (session_pending x) \<Longrightarrow>
    \<exists>t. get_messages env cmd (length (session_pending x)) s = Some t \<and>
      inbox t cid = Some (q @ map (as_sent s cid) (stored_frames env (db s) (session_pending x))) \<and>
      (\<forall>c. c \<noteq> cid \<longrightarrow> inbox t c = inbox s c) \<and> wire t = wire s \<and>
      (\<exists>x'. hm_get (sessions t) cid = Some x' \<and> session_pending x' = []) \<and>
      (session_pending x \<noteq> [] \<longrightarrow> (\<exists>c. cursor_of (db t) (session_port x, session_app x) = Some c \<and>
         max_message_id (messages (db s)) \<le> c))"
proof (induction "length (session_pending x)" arbitrary: s x q)
  case (Suc n)
  obtain b u where r: "replay_next_missed env cid s = (b, u)" by fastforce
  have ne: "session_pending x \<noteq> []" using Suc(2) by auto
  then have "missed_message env cid s"
    using stored_frames_all [OF Suc.prems(3)] Suc.prems(1) by (auto simp: missed_message_def intro: hd_in_set)
  then have b: b "wire u = wire s" using replay_missed [OF r] by (auto simp: answered_def)
  obtain rest sent where
    f: "stored_frames env (db s) (session_pending x) = sent @ stored_frames env (db s) rest"
    and i: "inbox u cid = Some (q @ map (as_sent s cid) sent)"
    and others: "\<And>c. c \<noteq> cid \<Longrightarrow> inbox u c = inbox s c"
    and x: "hm_get (sessions u) cid = Some (x\<lparr>session_pending := rest\<rparr>)"
    and m: "messages (db u) = messages (db s)" and v: "protocol_versions u = protocol_versions s"
    and c: "rest = [] \<Longrightarrow> \<exists>c. cursor_of (db u) (session_port x, session_app x) = Some c \<and>
      max_message_id (messages (db s)) \<le> c"
    and hit: "b \<Longrightarrow> \<exists>i f skipped. sent = [f] \<and> session_pending x = skipped @ i # rest \<and>
      message_frame env i (db s) = Inr (Some f)"
    by (rule replay_step [OF Suc.prems(1,2) assms(1) r], rule that)
  obtain g skipped j where h: "sent = [g]" "session_pending x = skipped @ j # rest" using hit b by blast
  have "length (stored_frames env (db s) rest) \<le> length rest"
    by (simp add: stored_frames_def le_trans [OF length_filter_le])
  then have l: "length rest = n" "length (stored_frames env (db s) rest) = length rest"
    using Suc(2) Suc.prems(3) f h by auto
  let ?x = "x\<lparr>session_pending := rest\<rparr>"
  have a: "as_sent u cid = as_sent s cid" by (rule ext, rule as_sent_cong) (rule v)
  have step: "handle_client_command env cmd s = Some u"
    using get_message [OF p _ assms(2)] r b(1) Suc.prems(2) by (simp add: cid alive_inbox)
  obtain t where t: "get_messages env cmd n u = Some t"
    "inbox t cid = Some ((q @ map (as_sent s cid) sent) @ map (as_sent s cid) (stored_frames env (db s) rest))"
    "\<And>c. c \<noteq> cid \<Longrightarrow> inbox t c = inbox u c" "wire t = wire u"
    "\<exists>x'. hm_get (sessions t) cid = Some x' \<and> session_pending x' = []"
    "rest \<noteq> [] \<Longrightarrow> \<exists>c. cursor_of (db t) (session_port x, session_app x) = Some c \<and>
       max_message_id (messages (db s)) \<le> c"
    using Suc(1) [of ?x u, OF _ x i] l by (auto simp: a m stored_frames_cong [OF m])
  have "\<exists>c. cursor_of (db t) (session_port x, session_app x) = Some c \<and> max_message_id (messages (db s)) \<le> c"
    using c t(1,6) l(1) by (cases "rest = []") auto
  then show ?case
    unfolding Suc(2) [symmetric] using step t f others b(2) by (intro exI [of _ t]) simp
qed auto

section \<open>Coming back\<close>

text \<open>What APP_START leaves of the session and the messages, however it is answered.\<close>

lemma app_start_registers:
  assumes "handle_client_command env cmd s = Some u" and "command_payload cmd = 0x01 # rest"
    and "client_is_alive s (command_client cmd)"
  shows "sessions u = sessions (register_session env cmd s) \<and> db u = db (register_session env cmd s) \<and>
    protocol_versions u = protocol_versions s"
proof -
  let ?s = "register_session env cmd s"
  have v: "protocol_versions ?s = protocol_versions s"
    by (simp add: register_session_def Let_def write_db_def split: sum.split)
  have sc: "serve_command env cmd 0x01 s = Some u"
    using assms by (auto simp: handle_client_command_eq split: if_splits)
  show ?thesis
  proof (cases "self_info_raw ?s")
    case None
    then have "enqueue_or_dispatch env (Some (command_client cmd)) (0x01 # rest) ?s = Some u"
      using sc assms(2) by (simp add: serve_command_def note_version_def try_serve_from_cache_def serve_blob_def
          forwarded_payload_def Let_def)
    then show ?thesis
      using v by (auto simp: enqueue_or_dispatch_def dispatch_to_radio_def send_to_radio_def forward_effects_def
          push_queue_def send_opt_def bind_eq_Some_conv split: if_splits option.splits channel_end.splits sum.splits)
  next
    case (Some b)
    then have "u = notify_missed (command_client cmd) (send_to_client (command_client cmd) b ?s)"
      using sc assms(2) by (simp add: serve_command_def note_version_def try_serve_from_cache_def serve_blob_def Let_def)
    then show ?thesis using v by (simp add: notify_missed_def split: option.split)
  qed
qed

lemma registered_session:
  assumes "store_inv (db s)" and "\<And>c. db_ok env c" and "who = (command_port cmd, app_name_of (command_payload cmd))"
  shows "hm_get (sessions (register_session env cmd s)) (command_client cmd) =
      Some \<lparr>session_port = fst who, session_app = snd who,
        session_pending = map msg_id (missed_messages env who s)\<rparr>"
    and "messages (db (register_session env cmd s)) = messages (db s)"
    and "missed_messages env who s = [] \<Longrightarrow> \<exists>c. cursor_of (db (register_session env cmd s)) who = Some c \<and>
      max_message_id (messages (db s)) \<le> c"
proof -
  let ?ids = "map msg_id (missed_messages env who s)"
  have m: "missed_ids env who s = Inr ?ids" by (rule missed_ids_spec [OF assms(1,2)])
  then have d: "db (register_session env cmd s) =
      advance_cursor (unix_now env) who (start_cursor env ?ids s) (db s)"
    by (simp add: register_session_def Let_def assms(2,3) advance_client_cursor_def run_query_def write_db_def)
  show "hm_get (sessions (register_session env cmd s)) (command_client cmd) =
      Some \<lparr>session_port = fst who, session_app = snd who, session_pending = ?ids\<rparr>"
    using m by (simp add: register_session_def Let_def assms(3) hm_simps)
  show "messages (db (register_session env cmd s)) = messages (db s)" by (simp add: d advance_cursor_def)
  assume "missed_messages env who s = []"
  then have "start_cursor env ?ids s = max_message_id (messages (db s))"
    by (simp add: start_cursor_def message_head_def run_query_def assms(2))
  then show "\<exists>c. cursor_of (db (register_session env cmd s)) who = Some c \<and> max_message_id (messages (db s)) \<le> c"
    using cursors.advance_reaches [of "unix_now env" who "max_message_id (messages (db s))" "db s"] by (simp add: d)
qed

text \<open>C12. A client that comes back gets every message it missed. It identifies itself with APP_START;
  then, with no failing statement, as many GET_MSGs as it missed messages are all answered by the
  proxy, with the frames of exactly these messages in its layout, each once, in the order of their
  ids, on its channel and no other's, and the radio is asked nothing. What it missed is every stored
  message after its cursor that it may be sent, or the backlog if it is new. Then nothing is
  pending and its cursor is at or above the last stored message.\<close>

theorem poll_delivers_missed:
  assumes "core_inv s" and "\<And>c. db_ok env c" and "hex_ok env"
    and "handle_client_command env start s = Some u" and "command_payload start = 0x01 # rest"
    and "inbox s (command_client start) \<noteq> None" and "inbox u (command_client start) = Some q"
    and "who = (command_port start, app_name_of (command_payload start))"
    and "ms = missed_messages env who s"
  shows "\<exists>t. get_messages env (start\<lparr>command_payload := [0x0A]\<rparr>) (length ms) u = Some t \<and>
    inbox t (command_client start) =
      Some (q @ map (\<lambda>m. message_frame_for (protocol_version s (command_client start)) (the (row_frame m))) ms) \<and>
    sorted_wrt (<) (map msg_id ms) \<and>
    (\<forall>c. c \<noteq> command_client start \<longrightarrow> inbox t c = inbox u c) \<and>
    radio_out t = radio_out u \<and> pending_queue t = pending_queue u \<and>
    (\<exists>x. hm_get (sessions t) (command_client start) = Some x \<and> session_pending x = []) \<and>
    (\<exists>c. cursor_of (db t) who = Some c \<and> max_message_id (messages (db s)) \<le> c)"
proof -
  let ?cid = "command_client start" and ?get = "start\<lparr>command_payload := [0x0A]\<rparr>"
  let ?x = "\<lparr>session_port = fst who, session_app = snd who, session_pending = map msg_id ms\<rparr>"
  have st: "store_inv (db s)" using assms(1) by (simp add: core_inv_def)
  note reg = registered_session [OF st assms(2,8)]
  have u: "sessions u = sessions (register_session env start s)" "db u = db (register_session env start s)"
    "protocol_versions u = protocol_versions s"
    using app_start_registers [OF assms(4,5)] assms(6) by (simp_all add: alive_inbox)
  have x: "hm_get (sessions u) ?cid = Some ?x" using reg(1) by (simp add: u assms(9))
  have f: "stored_frames env (db u) (map msg_id ms) = map (\<lambda>m. the (row_frame m)) ms"
    using stored_messages [OF st assms(2) missed_stored] stored_frames_cong [of "db u" "db s"] reg(2)
    by (simp add: u(2) assms(9))
  have a: "as_sent u ?cid = message_frame_for (protocol_version s ?cid)"
    by (simp add: fun_eq_iff as_sent_def protocol_version_def u(3))
  obtain t where t: "get_messages env ?get (length ms) u = Some t"
    "inbox t ?cid = Some (q @ map (as_sent u ?cid) (map (\<lambda>m. the (row_frame m)) ms))"
    "\<And>c. c \<noteq> ?cid \<Longrightarrow> inbox t c = inbox u c" "wire t = wire u"
    "\<exists>x'. hm_get (sessions t) ?cid = Some x' \<and> session_pending x' = []"
    "ms \<noteq> [] \<Longrightarrow> \<exists>c. cursor_of (db t) who = Some c \<and> max_message_id (messages (db u)) \<le> c"
    using get_messages_deliver [OF assms(2,3), of ?get ?cid u ?x q] x assms(7) by (auto simp: f)
  have "\<exists>c. cursor_of (db t) who = Some c \<and> max_message_id (messages (db s)) \<le> c"
  proof (cases "ms = []")
    case True
    then have "t = u" using t(1) by simp
    then show ?thesis using reg(3) True by (simp add: u(2) assms(9))
  next
    case False
    then show ?thesis using t(6) reg(2) by (simp add: u(2))
  qed
  moreover have "sorted_wrt (<) (map msg_id ms)" using missed_sorted [OF st] by (simp add: assms(9))
  ultimately show ?thesis
    using t by (intro exI [of _ t]) (simp add: a wire_def comp_def)
qed

text \<open>A new client whose backlog has two messages; the third of the log it sent itself.\<close>

theorem poll_delivers_missed_witness:
  "\<exists>t. get_messages test_env (app_start\<lparr>command_payload := [0x0A]\<rparr>) 2 started_core = Some t \<and>
     inbox t (ClientId 1) = Some [error_frame, [8, 1], [8, 3]]"
proof -
  have inv: "core_inv log_core" using reachable_inv [OF reachable_log_core] by simp
  obtain rest where p: "command_payload app_start = 0x01 # rest" by (simp add: app_start_def)
  have c: "command_client app_start = ClientId 1" "command_port app_start = 5000" by (simp_all add: app_start_def)
  have i: "inbox log_core (command_client app_start) \<noteq> None"
    "inbox started_core (command_client app_start) = Some [error_frame]"
    by (simp_all add: c log_core_facts started_core_def inbox_send_to_client registered_core_facts)
  have "cursor_of sample_log (5000, ''app'') = None"
    by (simp add: cursor_of_def sample_log_def empty_state_def hm_simps)
  then have m: "missed_messages test_env (5000, ''app'') log_core = [sample_message 1 None, sample_message 3 (Some (5000, ''other''))]"
    by (simp add: missed_messages_def log_core_facts) (simp add: sample_log_def sample_message_def message_row_of_def replayable_to_def)
  have v: "protocol_version log_core c = 0" for c by (simp add: protocol_version_def log_core_facts hm_simps)
  have w: "(5000, ''app'') = (command_port app_start, app_name_of (command_payload app_start))"
    by (simp add: c app_start_name)
  have f: "message_frame_for 0 (the (row_frame (sample_message 1 None))) = [8, 1]"
    "message_frame_for 0 (the (row_frame (sample_message 3 (Some (5000, ''other''))))) = [8, 3]"
    by code_simp+
  from poll_delivers_missed [OF inv test_env_db test_env_ok app_start_handled p i w m [symmetric]] obtain t where
    "get_messages test_env (app_start\<lparr>command_payload := [0x0A]\<rparr>) 2 started_core = Some t"
    "inbox t (ClientId 1) = Some [error_frame, [8, 1], [8, 3]]"
    by (auto simp: c v f numeral_2_eq_2 simp del: get_messages.simps)
  then show ?thesis by blast
qed

end
