(* ===== verification/Core_Acks.thy ===== *)
theory Core_Acks
  imports Core_Channels
begin

text \<open>
  Delivery acknowledgements. The SENT reply to a message carries the code the radio will report when
  the message is delivered; \<open>record_ack\<close> keeps it with the client, and \<open>try_route_ack\<close> takes it out
  when the acknowledgement comes. An acknowledgement never ends the request in flight, since every
  request awaits what its command is answered with.
\<close>

section \<open>What the request in flight awaits\<close>

definition awaits_its_reply :: "core \<Rightarrow> bool" where
  "awaits_its_reply s \<longleftrightarrow>
     (\<forall>f. in_flight s = Some f \<longrightarrow> awaiting_for (flight_payload f) = Some (awaiting_reply f))"

definition keeps_awaiting :: "core \<Rightarrow> core \<Rightarrow> bool" where
  "keeps_awaiting s t \<longleftrightarrow> (awaits_its_reply s \<longrightarrow> awaits_its_reply t)"

lemma keeps_awaiting_trans: "keeps_awaiting s t \<Longrightarrow> keeps_awaiting t u \<Longrightarrow> keeps_awaiting s u"
  by (simp add: keeps_awaiting_def)

lemma awaiting_wire: "wire t = wire s \<Longrightarrow> keeps_awaiting s t"
  by (simp add: keeps_awaiting_def awaits_its_reply_def wire_def)

lemma awaiting_flight: "new_flight env c p u = Some f \<Longrightarrow> in_flight t = Some f \<Longrightarrow> keeps_awaiting s t"
  by (auto simp: keeps_awaiting_def awaits_its_reply_def new_flight_def bind_eq_Some_conv)

lemma awaiting_dispatch:
  assumes "dispatch_to_radio env c p s = Some t"
  shows "keeps_awaiting s t"
proof (cases "send_to_radio p s")
  case (Inl e)
  then have "wire t = wire s" using assms by (auto simp: dispatch_to_radio_def bind_eq_Some_conv)
  then show ?thesis by (rule awaiting_wire)
next
  case (Inr s1)
  then obtain u f where "new_flight env c p u = Some f" "in_flight t = Some f"
    using assms by (auto simp: dispatch_to_radio_def bind_eq_Some_conv)
  then show ?thesis using awaiting_flight by blast
qed

lemma awaiting_queue: "keeps_awaiting s (s\<lparr>pending_queue := q\<rparr>)" "keeps_awaiting s (push_queue x s)"
  by (simp_all add: keeps_awaiting_def awaits_its_reply_def push_queue_def)

lemma awaiting_enqueue: "enqueue_or_dispatch env c p s = Some t \<Longrightarrow> keeps_awaiting s t"
  using awaiting_dispatch awaiting_queue(2) by (auto simp: enqueue_or_dispatch_def split: if_splits)

lemma awaiting_advance: "advance_queue env s = Some t \<Longrightarrow> keeps_awaiting s t"
proof (induction s t rule: advance_queue_induct)
  case (Gone s q rest t)
  then show ?case using keeps_awaiting_trans awaiting_queue(1) by blast
next
  case (Sent s q rest t)
  then show ?case using keeps_awaiting_trans awaiting_dispatch awaiting_queue(1) by blast
next
  case (Failed s q rest s2 t)
  then show ?case using keeps_awaiting_trans awaiting_dispatch awaiting_queue(1) by blast
qed (simp add: awaiting_wire)

lemma awaiting_sync: "advance_queue_sync env s = Some t \<Longrightarrow> keeps_awaiting s t"
proof (induction s t rule: advance_sync_induct)
  case (Gone s q rest t)
  then show ?case using keeps_awaiting_trans awaiting_queue(1) by blast
next
  case (Unsent s q rest c)
  then show ?case using keeps_awaiting_trans [OF awaiting_queue(1) awaiting_wire [OF wire_simps(4)]] by blast
next
  case (Sent s q rest f)
  then show ?case by (simp add: keeps_awaiting_def awaits_its_reply_def)
qed (simp add: awaiting_wire)

lemma awaiting_link: "link t = link s \<Longrightarrow> keeps_awaiting s t"
  by (simp add: keeps_awaiting_def awaits_its_reply_def link_def)

lemma awaiting_updates: "keeps_awaiting s (s\<lparr>radio_send_tx := c\<rparr>)" "keeps_awaiting s (s\<lparr>radio_up := u\<rparr>)"
  "keeps_awaiting s (broadcast p s)"
  by (simp_all add: keeps_awaiting_def awaits_its_reply_def broadcast_def)

interpretation awaits_commands: command_relation keeps_awaiting
  by unfold_locales
    (erule keeps_awaiting_trans, assumption, rule awaiting_wire, erule face_wire, simp add: awaiting_wire,
     erule awaiting_enqueue)

interpretation awaits_walk: event_relation keeps_awaiting
proof
  show "keeps_awaiting s ((deliver_reply env (flight_client f) cmd code p s)\<lparr>in_flight := Some (f\<lparr>last_activity := n\<rparr>)\<rparr>)"
    "keeps_awaiting s ((deliver_reply env (flight_client f) cmd code p s)\<lparr>in_flight := None\<rparr>)"
    "keeps_awaiting s (send_opt (flight_client f) error_frame (s\<lparr>in_flight := None\<rparr>))"
    if "in_flight s = Some f" for s f env cmd code p n
    using that awaiting_wire [OF wire_simps(4) [of "flight_client f" error_frame "s\<lparr>in_flight := None\<rparr>"]]
    by (auto simp: keeps_awaiting_def awaits_its_reply_def)
  show "keeps_awaiting s (fail_all s)" for s
    using link_fail_all [of s] by (simp add: keeps_awaiting_def awaits_its_reply_def link_def)
  show "keeps_awaiting s t" if "sync_from_radio env s = Some t" for env s t
    using that awaiting_sync [of env "queue_sync s" t]
    by (auto simp: sync_from_radio_def Let_def queue_sync_def keeps_awaiting_def awaits_its_reply_def split: if_splits)
  show "keeps_awaiting s t" if "connect_backend env dial s = Inr t" for env dial s t
    using connect_backend_link [OF that] by (simp add: keeps_awaiting_def awaits_its_reply_def link_def)
  show "keeps_awaiting s (snd r)" if "initialize_radio env evs s = Some r" for env evs s r
    by (rule awaiting_link [OF link_initialize_radio [OF that]])
qed (auto intro: awaiting_wire awaiting_advance awaiting_queue awaiting_updates)

lemma reachable_awaits: "reachable s \<Longrightarrow> awaits_its_reply s"
proof (induction rule: reachable.induct)
  case (start d env evs as dial cfg r s)
  then show ?case using awaits_walk.startup_rel [OF start(5)] by (simp add: keeps_awaiting_def awaits_its_reply_def new_core_def)
next
  case (step s env ev t)
  show ?case
  proof (cases "from_frontend ev")
    case True
    then have "wire t = wire s" using step(4)
      by (cases ev) (auto simp: client_connected_def client_disconnected_def wire_def)
    then show ?thesis using awaiting_wire step(5) by (simp add: keeps_awaiting_def)
  next
    case False
    have "keeps_awaiting s t"
    proof (cases "\<exists>cmd. ev = ClientCommandEvent cmd")
      case True
      then show ?thesis using step(4) awaits_commands.client_command_rel by auto
    next
      case no: False
      then show ?thesis using False by (intro awaits_walk.event_rel [OF step(4)]) auto
    qed
    then show ?thesis using step(5) by (simp add: keeps_awaiting_def)
  qed
qed

lemma push_not_awaited:
  assumes "awaits_its_reply s" and "in_flight s = Some f" and "is_push_event k" and "k \<noteq> 0x8B"
  shows "\<not> fst (classify (awaiting_reply f) k)"
proof -
  have a: "awaiting_for (flight_payload f) = Some (awaiting_reply f)"
    using assms(1,2) by (simp add: awaits_its_reply_def)
  then obtain c p where "flight_payload f = c # p" "awaiting_reply f = awaiting_of c (c # p)"
    by (cases "flight_payload f") (auto simp: awaiting_for_None [THEN iffD2])
  then show ?thesis using classify_push [OF assms(3), of c "c # p"] assms(4) by simp
qed

section \<open>Who waits for which acknowledgement\<close>

lemma acks_kept [simp]:
  "pending_acks (send_to_client cid p s) = pending_acks s" "pending_acks (send_opt c p s) = pending_acks s"
  "pending_acks (broadcast_to_others x p s) = pending_acks s" "pending_acks (write_db r s) = pending_acks s"
  "pending_acks (notify_missed cid s) = pending_acks s" "pending_acks (push_queue q s) = pending_acks s"
  "pending_acks (record_raw env code p s) = pending_acks s"
  by (simp_all add: send_to_client_def send_opt_def broadcast_to_others_def write_db_def notify_missed_def
      push_queue_def record_raw_def split: option.split sum.split)

lemma acks_store [simp]: "pending_acks (store_message env m s) = pending_acks s"
proof -
  have "pending_acks (fold (advance_identity env i) whos u) = pending_acks u" for i whos u
    by (rule fold_same [where g = pending_acks]) (simp add: advance_identity_def)
  then show ?thesis
    by (simp add: store_message_def follow_head_def Let_def drop_disconnected_def split: sum.split)
qed

lemma acks_dispatch: "dispatch_to_radio env c p s = Some t \<Longrightarrow> pending_acks t = pending_acks s"
  by (auto simp: dispatch_to_radio_def forward_effects_def send_to_radio_def bind_eq_Some_conv
      split: sum.splits option.splits channel_end.splits if_splits)

lemma acks_advance: "advance_queue env s = Some t \<Longrightarrow> pending_acks t = pending_acks s"
  by (induction s t rule: advance_queue_induct) (auto dest: acks_dispatch)

lemma acks_accepted: "on_command_accepted env f s = Some t \<Longrightarrow> pending_acks t = pending_acks s"
  by (auto simp: on_command_accepted_def accepted_contacts_def accepted_echo_def synthesize_contact_echo_def
      synthesize_channel_echo_def queue_contact_refresh_def bind_eq_Some_conv Let_def
      split: option.splits if_splits)

lemma acks_cache: "cache_response env 0x06 p s = Some t \<Longrightarrow> t = s" "cache_response env 0x82 p s = Some t \<Longrightarrow> t = s"
  by (simp_all add: cache_response_def)

text \<open>The SENT reply to a message of a client.\<close>

lemma sent_records:
  assumes "handle_radio_rx env ([0x06, kind] @ ack @ tail) s = Some t" and "length ack = 4"
    and "in_flight s = Some f" and "flight_client f = Some cid" and "fst (classify (awaiting_reply f) 0x06)"
    and "hm_invar (pending_acks s)"
  shows "hm_get (pending_acks t) ack = Some (cid, instant_now env)"
proof -
  let ?p = "[0x06, kind] @ ack @ tail"
  let ?s = "record_raw env 0x06 ?p s"
  have r: "route_frame env 0x06 ?p ?s = Some t"
    using assms(1) by (auto simp: handle_radio_rx_eq bind_eq_Some_conv dest!: acks_cache split: if_splits)
  have "wire ?s = wire s" by simp
  then have f: "in_flight ?s = Some f" using assms(3) by (simp add: wire_def)
  obtain cmd where cmd: "index (flight_payload f) 0 = Some cmd"
    using r f assms(5) by (auto simp: route_frame_def try_route_to_in_flight_def bind_eq_Some_conv split: prod.splits)
  have "slice ?p 2 6 = Some ack" using assms(2) by (simp add: slice_def)
  then have "hm_get (pending_acks (deliver_reply env (Some cid) cmd 0x06 ?p ?s)) ack = Some (cid, instant_now env)"
    using assms(2,6) by (simp add: deliver_reply_def record_ack_def is_incoming_message_def Let_def hm_simps)
  then show ?thesis
    using r f cmd assms(4,5)
    by (auto simp: route_frame_def try_route_to_in_flight_def bind_eq_Some_conv Let_def
        dest!: acks_advance acks_accepted split: prod.splits if_splits)
qed

text \<open>An acknowledgement: nobody waits for it as a reply.\<close>

lemma ack_routes:
  assumes "handle_radio_rx env (0x82 # p) s = Some t" and "awaits_its_reply s"
  shows "t = (case try_route_ack 0x82 (0x82 # p) (record_raw env 0x82 (0x82 # p) s) of
    (True, u) \<Rightarrow> u | (False, u) \<Rightarrow> broadcast (0x82 # p) u)"
proof -
  let ?s = "record_raw env 0x82 (0x82 # p) s"
  have r: "route_frame env 0x82 (0x82 # p) ?s = Some t"
    using assms(1) by (auto simp: handle_radio_rx_eq bind_eq_Some_conv dest!: acks_cache split: if_splits)
  have "wire ?s = wire s" by simp
  then have "in_flight ?s = in_flight s" by (simp add: wire_def)
  then have "try_route_to_in_flight env 0x82 (0x82 # p) ?s = Some (False, ?s)"
    using push_not_awaited [OF assms(2), of _ "0x82"]
    by (auto simp: try_route_to_in_flight_def is_push_event_def split: option.split prod.split)
  then show ?thesis
    using r by (auto simp: route_frame_def refresh_advertised_def is_push_event_def split: prod.splits bool.splits if_splits)
qed

text \<open>C30. A delivery acknowledgement goes to the client whose message it confirms. When the radio answers
  a client's message with SENT, the code in it is recorded for that client, at the time of the reply.
  Whatever happens next, as long as the entry is there, the acknowledgement with this code is put on
  that client's channel and told to nobody else. That uses up the entry: the same acknowledgement
  again is put on no client's own channel; it is broadcast, as any push frame. The conditions on the
  states hold in every reachable one (\<open>reachable_inv\<close>, \<open>reachable_awaits\<close>).\<close>

theorem ack_routed_once:
  assumes "core_inv s" and "in_flight s = Some f" and "flight_client f = Some cid"
    and "fst (classify (awaiting_reply f) 0x06)"
    and "handle_radio_rx env ([0x06, kind] @ ack @ tail) s = Some s'" and "length ack = 4"
    and "core_inv u" and "awaits_its_reply u" and "hm_get (pending_acks u) ack = hm_get (pending_acks s') ack"
    and "handle_radio_rx env1 (0x82 # ack @ extra) u = Some v"
    and "handle_radio_rx env2 (0x82 # ack @ extra) v = Some w"
  shows "hm_get (pending_acks s') ack = Some (cid, instant_now env) \<and>
    (\<forall>c. inbox v c = map_option (\<lambda>q. if c = cid then q @ [0x82 # ack @ extra] else q) (inbox u c)) \<and>
    broadcast_out v = broadcast_out u \<and>
    (\<forall>c. inbox w c = inbox v c) \<and> broadcast_out w = broadcast_out v @ [0x82 # ack @ extra]"
proof -
  let ?p = "0x82 # ack @ extra"
  have inv: "hm_invar (pending_acks s)" "hm_invar (pending_acks u)"
    using assms(1,7) by (simp_all add: core_inv_defs)
  have e: "hm_get (pending_acks s') ack = Some (cid, instant_now env)"
    by (rule sent_records [OF assms(5,6,2,3,4) inv(1)])
  have sl: "slice ?p 1 5 = Some ack" using assms(6) by (simp add: slice_def)
  let ?u = "record_raw env1 0x82 ?p u"
  let ?u1 = "?u\<lparr>pending_acks := hm_remove ack (pending_acks u)\<rparr>"
  have "try_route_ack 0x82 ?p ?u = (True, send_to_client cid ?p ?u1)"
    using sl e assms(6,9) by (simp add: try_route_ack_def)
  then have v: "v = send_to_client cid ?p ?u1"
    using ack_routes [OF assms(10,8)] by simp
  have a: "as_sent ?u1 cid ?p = ?p" by (simp add: as_sent_def message_frame_for_other)
  have fu: "face ?u1 = face u" by simp
  then have i: "inbox ?u1 c = inbox u c" "broadcast_out ?u1 = broadcast_out u" for c
    by (simp_all add: face_def inbox_def)
  have "wire v = wire u" using v face_wire [OF fu] by simp
  then have aw: "awaits_its_reply v"
    using awaiting_wire assms(8) by (simp add: keeps_awaiting_def)
  let ?v = "record_raw env2 0x82 ?p v"
  have "hm_get (pending_acks v) ack = None" using inv(2) by (simp add: v hm_simps)
  then have "try_route_ack 0x82 ?p ?v = (False, ?v)" using sl assms(6) by (simp add: try_route_ack_def)
  then have w: "w = broadcast ?p ?v" using ack_routes [OF assms(11) aw] by simp
  have "face ?v = face v" by simp
  then have "inbox w c = inbox v c" "broadcast_out w = broadcast_out v @ [?p]" for c
    by (simp_all add: w broadcast_def face_def inbox_def)
  moreover have "inbox v c = map_option (\<lambda>q. if c = cid then q @ [?p] else q) (inbox u c)" for c
    by (auto simp: v inbox_send_to_client a i option.map_ident)
  moreover have "broadcast_out v = broadcast_out u"
    using i(2) by (simp add: v send_to_client_def split: option.split)
  ultimately show ?thesis using e by blast
qed

text \<open>A client's message is at the radio; SENT comes, then the acknowledgement, twice.\<close>

definition sending_core :: core where
  "sending_core = client_core\<lparr>in_flight := Some \<lparr>flight_client = Some (ClientId 1),
     flight_payload = [0x02, 0, 0], last_activity = 10000, sent_unix = 1000,
     awaiting_reply = OneOf [0x06], flight_origin = None\<rparr>\<rparr>"

theorem ack_routed_once_witness:
  "\<exists>s' v w. handle_radio_rx test_env [0x06, 0, 1, 2, 3, 4, 0, 0, 0, 0] sending_core = Some s' \<and>
     handle_radio_rx test_env [0x82, 1, 2, 3, 4] s' = Some v \<and>
     handle_radio_rx test_env [0x82, 1, 2, 3, 4] v = Some w \<and>
     (\<forall>c. inbox v c = map_option (\<lambda>q. if c = ClientId 1 then q @ [[0x82, 1, 2, 3, 4]] else q) (inbox s' c)) \<and>
     broadcast_out w = broadcast_out v @ [[0x82, 1, 2, 3, 4]]"
proof -
  let ?sent = "[0x06, 0] @ [1, 2, 3, 4] @ [0, 0, 0, 0]" and ?ack = "0x82 # [1, 2, 3, 4] @ []"
  have inv: "core_inv sending_core"
    using reachable_inv [OF reachable_client] by (simp add: core_inv_defs sending_core_def)
  have aw: "awaits_its_reply sending_core"
    by (simp add: awaits_its_reply_def sending_core_def awaiting_of_def)
  have goes: "\<exists>t. handle_radio_rx test_env p s = Some t \<and> core_inv t \<and> (awaits_its_reply s \<longrightarrow> awaits_its_reply t)"
    if c: "core_inv s" "\<not> log_panics (conf s) ''<-'' (hd p) p" for p s
  proof -
    obtain t where t: "handle_radio_rx test_env p s = Some t" "core_inv t"
      using goes_handle_radio_rx [OF test_env_ok, of p s] c by (cases p) (auto simp: fx.goes_def)
    from awaits_walk.radio_rx_rel [OF t(1)] t show ?thesis by (auto simp: keeps_awaiting_def)
  qed
  have quiet: "\<not> log_panics cfg ''<-'' (hd ?sent) ?sent" "\<not> log_panics cfg ''<-'' (hd ?ack) ?ack" for cfg
    by (simp_all add: log_panics_def)
  obtain s' where s': "handle_radio_rx test_env ?sent sending_core = Some s'" "core_inv s'" "awaits_its_reply s'"
    using goes [OF inv quiet(1)] aw by blast
  obtain v where v: "handle_radio_rx test_env ?ack s' = Some v" "core_inv v" using goes [OF s'(2) quiet(2)] by blast
  obtain w where w: "handle_radio_rx test_env ?ack v = Some w" using goes [OF v(2) quiet(2)] by blast
  have f: "\<exists>f. in_flight sending_core = Some f \<and> flight_client f = Some (ClientId 1) \<and> awaiting_reply f = OneOf [0x06]"
    by (simp add: sending_core_def)
  then obtain f where "in_flight sending_core = Some f" "flight_client f = Some (ClientId 1)"
    "fst (classify (awaiting_reply f) 0x06)" by auto
  from ack_routed_once [OF inv this s'(1) _ s'(2,3) refl v(1) w] s'(1) v(1) w show ?thesis
    by (intro exI [of _ s'] exI [of _ v] exI [of _ w]) (simp cong: if_cong)
qed

end
