(* ===== verification/Core_Removal.thy ===== *)
theory Core_Removal
  imports Core_Channels
begin

text \<open>
  What becomes of the cached row when a client removes a contact: the row is deleted when the
  command is handed to the radio, and nothing restores it when the radio refuses.
\<close>

lemma contacts_send [simp]: "db (send_to_client cid p s) = db s" "db (send_opt c p s) = db s"
  "db (broadcast_to_others x p s) = db s" "db (record_ack env cid code p s) = db s"
  by (auto simp: send_opt_def send_to_client_def broadcast_to_others_def record_ack_def split: option.split)

lemma contacts_deliver [simp]: "db (deliver_reply env c cmd code p s) = db s"
  by (simp add: deliver_reply_def Let_def split: option.split)

text \<open>Sending the requests of the queue takes contacts out of the cache and adds none.\<close>

lemma contacts_dispatch:
  "dispatch_to_radio env c p s = Some t \<Longrightarrow> set (contacts (db t)) \<subseteq> set (contacts (db s))"
  by (auto simp: dispatch_to_radio_def send_to_radio_def forward_effects_def bind_eq_Some_conv write_db_def
      delete_contact_def delete_channel_def run_query_def delete_row_def
      split: option.splits sum.splits channel_end.splits if_splits)

lemma contacts_advance:
  "advance_queue env s = Some t \<Longrightarrow> set (contacts (db t)) \<subseteq> set (contacts (db s))"
proof (induction s t rule: advance_queue_induct)
  case (Sent s q rest t)
  then show ?case using contacts_dispatch by fastforce
next
  case (Failed s q rest s2 t)
  then show ?case using contacts_dispatch by fastforce
qed auto

text \<open>An ERROR ends the request in flight; the client it came from is told, and the next is sent.\<close>

lemma error_reply:
  assumes "handle_radio_rx env (0x01 # why) s = Some t" and "in_flight s = Some f"
    and "flight_payload f = cmd # args"
  obtains u where "advance_queue env ((deliver_reply env (flight_client f) cmd 0x01 (0x01 # why) u)\<lparr>in_flight := None\<rparr>) = Some t"
    and "client_channels u = client_channels s" and "protocol_versions u = protocol_versions s"
    and "contacts (db u) = contacts (db s)"
proof -
  let ?u = "record_raw env 0x01 (0x01 # why) s"
  have c: "cache_response env 0x01 (0x01 # why) s = Some s" by (simp add: cache_response_def)
  have f: "in_flight ?u = Some f" using assms(2) by (simp add: record_raw_def write_db_def split: sum.split)
  have e: "classify a 0x01 = (True, True)" for a by (cases a) (auto simp: is_push_event_def word_le_nat_alt)
  have i: "index (cmd # args) 0 = Some cmd" by (simp add: index_def)
  have "try_route_to_in_flight env 0x01 (0x01 # why) ?u =
      Option.bind (advance_queue env ((deliver_reply env (flight_client f) cmd 0x01 (0x01 # why) ?u)\<lparr>in_flight := None\<rparr>))
        (\<lambda>s3. Some (True, s3))"
    using f assms(3) by (simp add: try_route_to_in_flight_def e i Let_def)
  then have "advance_queue env ((deliver_reply env (flight_client f) cmd 0x01 (0x01 # why) ?u)\<lparr>in_flight := None\<rparr>) = Some t"
    using assms(1) c by (auto simp: handle_radio_rx_eq route_frame_def bind_eq_Some_conv split: if_splits)
  moreover have "client_channels ?u = client_channels s" "protocol_versions ?u = protocol_versions s"
    "contacts (db ?u) = contacts (db s)"
    by (simp_all add: record_raw_def write_db_def insert_raw_rx_def run_query_def)
  ultimately show ?thesis by (rule that)
qed

text \<open>C24. A REMOVE_CONTACT the radio refuses still removes the contact from the cache: the row goes when
  the command is sent, the client is told that the command failed, and the cached contact list no
  longer has the contact that the radio keeps.\<close>

theorem refused_removal_forgets:
  assumes "dispatch_to_radio env (Some cid) (0x0F # pk @ rest) s = Some t" and "length pk = 32"
    and "radio_send_tx s = Some Open" and "db_ok env (DeleteContact pk)"
    and "handle_radio_rx env' (0x01 # why) t = Some u"
  shows "radio_out t = radio_out s @ [0x0F # pk @ rest] \<and>
    (\<exists>more. inbox u cid = map_option (\<lambda>q. q @ (0x01 # why) # more) (inbox s cid)) \<and>
    find_row contact_key (contacts (db u)) pk = None"
proof -
  have sent: "radio_out t = radio_out s @ [0x0F # pk @ rest]" "client_channels t = client_channels s"
    and fl: "\<exists>f. in_flight t = Some f \<and> flight_payload f = 0x0F # pk @ rest \<and> flight_client f = Some cid"
    using dispatch_cases [OF assms(1)] assms(3) by auto
  have gone: "\<forall>r \<in> set (contacts (db t)). contact_key r \<noteq> pk"
    using assms(1-4) by (auto simp: dispatch_to_radio_def send_to_radio_def forward_effects_def index_def slice_def
        bind_eq_Some_conv write_db_def delete_contact_def run_query_def delete_row_def)
  obtain f where f: "in_flight t = Some f" "flight_payload f = 0x0F # pk @ rest" "flight_client f = Some cid"
    using fl by blast
  obtain v where adv: "advance_queue env' ((deliver_reply env' (Some cid) 0x0F 0x01 (0x01 # why) v)\<lparr>in_flight := None\<rparr>) = Some u"
    and v: "client_channels v = client_channels t" "contacts (db v) = contacts (db t)"
    by (rule error_reply [OF assms(5) f(1,2), unfolded f(3)])
  let ?w = "(deliver_reply env' (Some cid) 0x0F 0x01 (0x01 # why) v)\<lparr>in_flight := None\<rparr>"
  have "inbox v cid = inbox s cid" using v sent by (simp add: inbox_def)
  moreover have "inbox ?w cid = inbox (deliver_reply env' (Some cid) 0x0F 0x01 (0x01 # why) v) cid"
    by (simp add: inbox_def)
  ultimately have "inbox ?w cid = map_option (\<lambda>q. q @ [0x01 # why]) (inbox s cid)"
    by (cases "inbox s cid") (simp_all add: inbox_deliver_reply as_sent_def message_frame_for_def)
  moreover obtain more where "inbox u cid = map_option (\<lambda>q. q @ more) (inbox ?w cid)"
    using extends_advance_queue [OF adv] by (auto simp: extends_def)
  ultimately have "inbox u cid = map_option (\<lambda>q. q @ (0x01 # why) # more) (inbox s cid)"
    by (simp add: option.map_comp comp_def)
  moreover have "find_row contact_key (contacts (db u)) pk = None"
    using contacts_advance [OF adv] gone v(2) by (auto simp: find_row_def find_None_iff)
  ultimately show ?thesis using sent(1) by blast
qed

text \<open>A client removes a contact the cache has, and the radio answers that it does not know it.\<close>

definition one_contact :: core where
  "one_contact = client_core\<lparr>radio_send_tx := Some Open, db := empty_state\<lparr>contacts := [\<lparr>contact =
     \<lparr>public_key = replicate 32 7, contact_name = ''Ann'', contact_type = 1, last_advert = None,
      contact_lat = None, contact_lon = None, raw = None\<rparr>, seen_at = Some 1000\<rparr>]\<rparr>\<rparr>"

theorem refused_removal_forgets_witness:
  "\<exists>t u more. find_row contact_key (contacts (db one_contact)) (replicate 32 7) \<noteq> None \<and>
     dispatch_to_radio test_env (Some (ClientId 1)) (0x0F # replicate 32 7) one_contact = Some t \<and>
     handle_radio_rx test_env [0x01, 2] t = Some u \<and>
     inbox u (ClientId 1) = Some ([0x01, 2] # more) \<and>
     find_row contact_key (contacts (db u)) (replicate 32 7) = None"
proof -
  let ?p = "0x0F # replicate 32 7 :: frame"
  have d: "db_ok test_env c" for c by (simp add: test_env_def)
  have o: "radio_send_tx one_contact = Some Open" by (simp add: one_contact_def)
  have i: "inbox one_contact (ClientId 1) = Some []"
    by (simp add: one_contact_def inbox_def test_core_defs hm_simps)
  obtain t where t: "dispatch_to_radio test_env (Some (ClientId 1)) ?p one_contact = Some t"
    and q: "pending_queue t = []" and c: "conf t = test_config"
    and f: "\<exists>f. in_flight t = Some f \<and> awaiting_reply f = OneOf [0x00] \<and> flight_payload f = ?p"
    by (simp add: dispatch_to_radio_def index_def send_to_radio_def o forward_effects_def slice_def new_flight_def
        awaiting_of_def)
      (simp add: one_contact_def test_core_defs write_db_def delete_contact_def run_query_def d)
  have "\<exists>u. handle_radio_rx test_env [0x01, 2] t = Some u"
    using f q c
    by (auto simp: handle_radio_rx_eq log_event_None_iff [OF test_env_ok] log_panics_def cache_response_def
        record_raw_def test_config_def route_frame_def try_route_to_in_flight_def index_def Let_def
        deliver_reply_def advance_queue_Nil is_incoming_message_def record_ack_def split: option.split)
  then obtain u where u: "handle_radio_rx test_env [0x01, 2] t = Some u" by blast
  have "find_row contact_key (contacts (db one_contact)) (replicate 32 7) \<noteq> None"
    by (simp add: one_contact_def find_row_def)
  moreover note refused_removal_forgets [of test_env "ClientId 1" "replicate 32 7" "[]" one_contact t test_env "[2]" u]
  ultimately show ?thesis using t u o d i by fastforce
qed

end
