(* ===== verification/Core_Loop.thy ===== *)
theory Core_Loop
  imports Core_Channels "HOL-Library.Sublist"
begin

text \<open>
  The \<open>select!\<close> of the loop in \<open>Core::run\<close>. It is biased: of the sources
  that are ready the first one in the order of the code is served. What arrives while the actor is
  busy is given from outside, with the clock of each turn; what is served is decided here. Every
  run is a run of the loop on the events so chosen, and the order of the sources shows in which
  they are.
\<close>

section \<open>The sources\<close>

text \<open>
  What the other tasks give the loop: the shutdown flag, the command channel, the radio's channel
  and, when its other end is gone, how the reconnection will go. The sources are these and the
  deadlines of the two intervals.
\<close>

record arrivals =
  signalled :: bool
  commands_ready :: "client_command list"
  frames_ready :: "frame list"
  radio_ended :: "attempt list option"

record sources = arrivals +
  timeout_tick :: nat
  maintenance_tick :: nat

definition TIMEOUT_CHECK_INTERVAL :: nat where
  "TIMEOUT_CHECK_INTERVAL = 1000"

definition MAINTENANCE_INTERVAL :: nat where
  "MAINTENANCE_INTERVAL = 24 * 3600 * 1000"

definition no_arrivals :: arrivals where
  "no_arrivals = \<lparr>signalled = False, commands_ready = [], frames_ready = [], radio_ended = None\<rparr>"

text \<open>The first tick of an interval is due at once. A tick that is late does not make the next ones
  come closer together: \<open>MissedTickBehavior::Skip\<close> leaves out those that were missed.\<close>

definition new_sources :: "nat \<Rightarrow> sources" where
  "new_sources now = arrivals.extend no_arrivals \<lparr>timeout_tick = now, maintenance_tick = now\<rparr>"

definition next_tick :: "nat \<Rightarrow> nat \<Rightarrow> nat \<Rightarrow> nat" where
  "next_tick period tick now = tick + period * ((now - tick) div period + 1)"

text \<open>What comes in before the next turn of the loop. The channels are queues.\<close>

definition arrive :: "arrivals \<Rightarrow> sources \<Rightarrow> sources" where
  "arrive new w =
     w\<lparr>signalled := signalled w \<or> signalled new,
       commands_ready := commands_ready w @ commands_ready new,
       frames_ready := frames_ready w @ frames_ready new,
       radio_ended := (case radio_ended w of None \<Rightarrow> radio_ended new | Some as \<Rightarrow> Some as)\<rparr>"

section \<open>One turn\<close>

text \<open>The arm that is taken, and the sources after it. Reconnecting replaces the radio's channel.\<close>

definition select_event :: "nat \<Rightarrow> sources \<Rightarrow> (core_event \<times> sources) option" where
  "select_event now w =
     (if signalled w then Some (ShutdownSignal, w)
      else case commands_ready w of
        cmd # rest \<Rightarrow> Some (ClientCommandEvent cmd, w\<lparr>commands_ready := rest\<rparr>)
      | [] \<Rightarrow>
          (case frames_ready w of
             p # rest \<Rightarrow> Some (RadioFrame p, w\<lparr>frames_ready := rest\<rparr>)
           | [] \<Rightarrow>
               (case radio_ended w of
                  Some attempts \<Rightarrow> Some (RadioLost attempts, w\<lparr>radio_ended := None\<rparr>)
                | None \<Rightarrow>
                    if timeout_tick w \<le> now
                    then Some (TimeoutTick,
                      w\<lparr>timeout_tick := next_tick TIMEOUT_CHECK_INTERVAL (timeout_tick w) now\<rparr>)
                    else if maintenance_tick w \<le> now
                    then Some (MaintenanceTick,
                      w\<lparr>maintenance_tick := next_tick MAINTENANCE_INTERVAL (maintenance_tick w) now\<rparr>)
                    else None)))"

text \<open>The events served along a list of turns, each with its environment and what has arrived.\<close>

fun served :: "(env \<times> arrivals) list \<Rightarrow> sources \<Rightarrow> (env \<times> core_event) list" where
  "served [] w = []"
| "served ((env, new) # turns) w =
     (case select_event (instant_now env) (arrive new w) of
        None \<Rightarrow> served turns (arrive new w)
      | Some (ev, w') \<Rightarrow> (env, ev) # (if ev = ShutdownSignal then [] else served turns w'))"

fun biased_loop :: "(env \<times> arrivals) list \<Rightarrow> sources \<Rightarrow> core \<Rightarrow> core or_panic" where
  "biased_loop [] w s = Some s"
| "biased_loop ((env, new) # turns) w s =
     (case select_event (instant_now env) (arrive new w) of
        None \<Rightarrow> biased_loop turns (arrive new w) s
      | Some (ev, w') \<Rightarrow>
          (case ev of
             ShutdownSignal \<Rightarrow> Some (shutdown s)
           | _ \<Rightarrow> Option.bind (handle_event env ev s) (biased_loop turns w')))"

text \<open>It is the loop on the events that are served.\<close>

lemma biased_loop_is_run: "biased_loop turns w s = run_loop (served turns w) s"
proof (induction turns w arbitrary: s rule: served.induct)
  case (2 env new turns w)
  show ?case
  proof (cases "select_event (instant_now env) (arrive new w)")
    case (Some x)
    obtain ev w' where x: "x = (ev, w')" by fastforce
    show ?thesis
    proof (cases "ev = ShutdownSignal")
      case False
      then have "biased_loop turns w' = run_loop (served turns w')" using 2 Some x by (intro ext) auto
      then show ?thesis using Some x False by (cases ev) auto
    qed (use Some x in simp)
  qed (use 2 in simp)
qed simp

section \<open>What is served when\<close>

lemma select_commands:
  "\<not> signalled w \<Longrightarrow> commands_ready w = cmd # rest \<Longrightarrow>
   select_event now w = Some (ClientCommandEvent cmd, w\<lparr>commands_ready := rest\<rparr>)"
  by (simp add: select_event_def)

lemma arrive_simps [simp]:
  "signalled (arrive new w) \<longleftrightarrow> signalled w \<or> signalled new"
  "commands_ready (arrive new w) = commands_ready w @ commands_ready new"
  "frames_ready (arrive new w) = frames_ready w @ frames_ready new"
  by (simp_all add: arrive_def)

fun command_served :: "env \<times> core_event \<Rightarrow> client_command list" where
  "command_served (env, ClientCommandEvent cmd) = [cmd]"
| "command_served x = []"

fun frame_served :: "env \<times> core_event \<Rightarrow> frame list" where
  "frame_served (env, RadioFrame p) = [p]"
| "frame_served x = []"

definition all_commands :: "(env \<times> arrivals) list \<Rightarrow> client_command list" where
  "all_commands turns = concat (map (\<lambda>(env, new). commands_ready new) turns)"

definition all_frames :: "(env \<times> arrivals) list \<Rightarrow> frame list" where
  "all_frames turns = concat (map (\<lambda>(env, new). frames_ready new) turns)"

text \<open>A turn takes at most one entry off a channel, and only its first.\<close>

lemma select_cases:
  assumes "select_event now w = Some (ev, w')"
  shows "command_served (env, ev) @ commands_ready w' = commands_ready w \<and>
    frame_served (env, ev) @ frames_ready w' = frames_ready w"
  using assms by (auto simp: select_event_def split: if_splits list.splits option.splits)

lemma served_in_order:
  "prefix (concat (map command_served (served turns w))) (commands_ready w @ all_commands turns) \<and>
   prefix (concat (map frame_served (served turns w))) (frames_ready w @ all_frames turns)"
proof (induction turns w rule: served.induct)
  case (2 env new turns w)
  show ?case
  proof (cases "select_event (instant_now env) (arrive new w)")
    case None
    then show ?thesis using 2(1) by (simp add: all_commands_def all_frames_def)
  next
    case (Some x)
    obtain ev w' where x: "x = (ev, w')" by fastforce
    have "commands_ready w @ commands_ready new = command_served (env, ev) @ commands_ready w'"
      "frames_ready w @ frames_ready new = frame_served (env, ev) @ frames_ready w'"
      using select_cases [of "instant_now env" "arrive new w" ev w' env] Some x by simp_all
    then have c: "commands_ready w @ commands_ready new @ cs = command_served (env, ev) @ commands_ready w' @ cs"
      "frames_ready w @ frames_ready new @ fs = frame_served (env, ev) @ frames_ready w' @ fs" for cs fs
      by (metis append_assoc)+
    show ?thesis
    proof (cases "ev = ShutdownSignal")
      case False
      have "served ((env, new) # turns) w = (env, ev) # served turns w'" using Some x False by simp
      then show ?thesis
        using 2(2) [OF Some x [symmetric] False] by (simp add: all_commands_def all_frames_def c)
    qed (use Some x in simp)
  qed
qed simp

section \<open>Starvation\<close>

definition busy_turns :: "(env \<times> arrivals) list \<Rightarrow> bool" where
  "busy_turns turns \<longleftrightarrow> (\<forall>(env, new) \<in> set turns. commands_ready new \<noteq> [] \<and> \<not> signalled new)"

text \<open>C26. Clients come first, always. As long as a command of some client has arrived by every turn of
  the loop, only commands are handled: no frame of the radio, no timeout and no maintenance. The
  request in flight stays in flight, answered or not, for however long, and nothing more is sent
  to the radio.\<close>

theorem commands_starve_radio:
  assumes "biased_loop turns w s = Some t" and "in_flight s = Some f"
    and "\<not> signalled w" and "busy_turns turns"
  shows "in_flight t = Some f \<and> radio_out t = radio_out s \<and>
    length (served turns w) = length turns \<and> (\<forall>x \<in> set (served turns w). command_served x \<noteq> [])"
  using assms
proof (induction turns w arbitrary: s rule: served.induct)
  case (2 env new turns w)
  let ?w = "arrive new w"
  have a: "\<not> signalled ?w" "busy_turns turns" using 2(4,5,6) by (auto simp: busy_turns_def)
  obtain cmd rest where c: "commands_ready ?w = cmd # rest"
    using 2(6) by (cases "commands_ready ?w") (auto simp: busy_turns_def)
  note sel = select_commands [OF a(1) c]
  obtain u where u: "handle_client_command env cmd s = Some u" "biased_loop turns (?w\<lparr>commands_ready := rest\<rparr>) u = Some t"
    using 2(3) by (auto simp: sel bind_eq_Some_conv)
  have "in_flight u = Some f" "radio_out u = radio_out s" using busy_command [OF u(1)] 2(4) by auto
  then show ?case using 2(2) [OF sel refl _ u(2)] a by (simp add: sel)
qed simp

text \<open>A radio busy with a GET_DEVICE_TIME, whose answer has arrived; and a client that asks too.\<close>

definition eager_turns :: "(env \<times> arrivals) list" where
  "eager_turns = [(test_env, no_arrivals\<lparr>frames_ready := [[0x09, 0, 0, 0, 0]],
     commands_ready := [\<lparr>command_client = ClientId 1, command_port = 5000, command_payload = [0x16, 3]\<rparr>]\<rparr>)]"

lemmas loop_start_defs = new_sources_def no_arrivals_def arrivals.defs arrive_def

theorem commands_starve_radio_witness:
  "\<exists>t. biased_loop eager_turns (new_sources 10000) flying_core = Some t \<and>
     in_flight t = in_flight flying_core \<and>
     concat (map frame_served (served eager_turns (new_sources 10000))) = []"
proof -
  obtain t f where t: "biased_loop eager_turns (new_sources 10000) flying_core = Some t"
    and f: "in_flight flying_core = Some f"
    by (simp add: eager_turns_def select_event_def loop_start_defs flying_core_version)
      (simp add: flying_core_def)
  have "busy_turns eager_turns" "\<not> signalled (new_sources 10000)"
    by (simp_all add: busy_turns_def eager_turns_def loop_start_defs)
  from commands_starve_radio [OF t f this(2,1)] t f show ?thesis
    by (simp add: eager_turns_def loop_start_defs select_event_def)
qed

section \<open>The timers\<close>

lemma next_tick_bounds:
  assumes "tick \<le> now" and "0 < period"
  shows "now < next_tick period tick now" "next_tick period tick now \<le> now + period"
    "period dvd next_tick period tick now - tick"
proof -
  have "tick + period * ((now - tick) div period) \<le> now" "now - tick < period * ((now - tick) div period) + period"
    using assms dividend_less_times_div [of period "now - tick"] times_div_less_eq_dividend [of period "now - tick"]
    by linarith+
  with assms show "now < next_tick period tick now" "next_tick period tick now \<le> now + period"
    by (simp_all add: next_tick_def)
  show "period dvd next_tick period tick now - tick" by (simp add: next_tick_def)
qed

definition idle_sources :: "sources \<Rightarrow> bool" where
  "idle_sources w \<longleftrightarrow> \<not> signalled w \<and> commands_ready w = [] \<and> frames_ready w = [] \<and> radio_ended w = None"

definition quiet_turns :: "(env \<times> arrivals) list \<Rightarrow> bool" where
  "quiet_turns turns \<longleftrightarrow> (\<forall>x \<in> set turns. snd x = no_arrivals)"

lemma quiet_turns_Cons: "quiet_turns ((env, new) # turns) \<longleftrightarrow> new = no_arrivals \<and> quiet_turns turns"
  by (auto simp: quiet_turns_def)

lemma arrive_nothing: "arrive no_arrivals w = w"
  by (simp add: arrive_def no_arrivals_def split: option.split)

lemma select_idle:
  assumes "idle_sources w"
  shows "select_event now w =
    (if timeout_tick w \<le> now
     then Some (TimeoutTick, w\<lparr>timeout_tick := next_tick TIMEOUT_CHECK_INTERVAL (timeout_tick w) now\<rparr>)
     else if maintenance_tick w \<le> now
     then Some (MaintenanceTick, w\<lparr>maintenance_tick := next_tick MAINTENANCE_INTERVAL (maintenance_tick w) now\<rparr>)
     else None)"
  using assms by (simp add: select_event_def idle_sources_def)

lemma idle_ticks [simp]:
  "idle_sources (w\<lparr>timeout_tick := a\<rparr>) = idle_sources w"
  "idle_sources (w\<lparr>maintenance_tick := a\<rparr>) = idle_sources w"
  by (simp_all add: idle_sources_def)

text \<open>A turn with nothing to serve but the timers.\<close>

abbreviation timeout_served :: "nat \<Rightarrow> sources \<Rightarrow> sources" where
  "timeout_served now w \<equiv> w\<lparr>timeout_tick := next_tick TIMEOUT_CHECK_INTERVAL (timeout_tick w) now\<rparr>"

abbreviation maintenance_served :: "nat \<Rightarrow> sources \<Rightarrow> sources" where
  "maintenance_served now w \<equiv> w\<lparr>maintenance_tick := next_tick MAINTENANCE_INTERVAL (maintenance_tick w) now\<rparr>"

lemma idle_turn:
  assumes "idle_sources w"
  shows "biased_loop ((env, no_arrivals) # turns) w s =
    (if timeout_tick w \<le> instant_now env
     then Option.bind (check_in_flight_timeout env s) (biased_loop turns (timeout_served (instant_now env) w))
     else if maintenance_tick w \<le> instant_now env
     then Option.bind (run_maintenance env s) (biased_loop turns (maintenance_served (instant_now env) w))
     else biased_loop turns w s)"
  by (simp add: arrive_nothing select_idle [OF assms])

lemma quiet_loop_returns:
  "quiet_turns turns \<Longrightarrow> idle_sources w \<Longrightarrow> core_inv s \<Longrightarrow>
   \<exists>t. biased_loop turns w s = Some t \<and> extends s t"
proof (induction turns arbitrary: w s)
  case (Cons x turns)
  obtain env where x: "x = (env, no_arrivals)" and q: "quiet_turns turns"
    using Cons.prems(1) by (cases x) (auto simp: quiet_turns_Cons)
  obtain u where u: "check_in_flight_timeout env s = Some u" "core_inv u" "extends s u"
    using goes_check_timeout [of s env] Cons.prems(3) extends_event [of env TimeoutTick s]
    by (auto simp: fx.goes_def)
  obtain v where v: "run_maintenance env s = Some v" "core_inv v" "extends s v"
    using run_maintenance_inv [of s env] Cons.prems(3) extends_event [of env MaintenanceTick s] by auto
  show ?case
    using Cons.IH [OF q _ u(2), of "timeout_served (instant_now env) w"]
      Cons.IH [OF q _ v(2), of "maintenance_served (instant_now env) w"] Cons.IH [OF q Cons.prems(2,3)]
      extends_trans [OF u(3)] extends_trans [OF v(3)] Cons.prems(2)
    by (auto simp: x idle_turn [OF Cons.prems(2)] u(1) v(1) simp del: biased_loop.simps)
qed (simp add: extends_refl)

lemma maintenance_busy:
  assumes "run_maintenance env s = Some t" and "in_flight s = Some f"
  shows "in_flight t = Some f" "inbox t cid = inbox s cid"
  using assms
  by (auto simp: run_maintenance_def request_full_sync_def bind_eq_Some_conv Let_def push_queue_def inbox_def
      split: if_splits)

lemma timeout_gives_up:
  assumes "check_in_flight_timeout env s = Some t" and "in_flight s = Some f"
    and "flight_client f = Some cid" and "inbox s cid = Some q"
  shows "if instant_now env < last_activity f + 5000 then t = s
    else \<exists>more. inbox t cid = Some (q @ error_frame # more)"
proof (cases "instant_now env < last_activity f + 5000")
  case False
  let ?u = "send_to_client cid error_frame (s\<lparr>in_flight := None\<rparr>)"
  have i: "inbox ?u cid = Some (q @ [error_frame])"
    using assms(4) by (simp add: inbox_send_to_client) (simp add: inbox_def)
  have "5000 \<le> instant_now env - last_activity f" using False by simp
  then have "advance_queue env ?u = Some t"
    using assms(1,2,3) by (simp add: check_in_flight_timeout_def IN_FLIGHT_TIMEOUT_def send_opt_def)
  then obtain more where "inbox t cid = Some ((q @ [error_frame]) @ more)"
    using extends_inbox [OF extends_advance_queue i] by blast
  then show ?thesis using False by simp
next
  case True
  then have "\<not> 5000 \<le> instant_now env - last_activity f" by arith
  then show ?thesis using assms(1,2) True by (simp add: check_in_flight_timeout_def IN_FLIGHT_TIMEOUT_def)
qed

text \<open>C17. A request is given up at most six seconds after the last sign of the radio: five for the
  timeout and one for the interval. When the loop turns with nothing else to serve, the client that
  waits is sent an ERROR by the turn at that time, before any other frame.\<close>

theorem unanswered_gets_error:
  assumes "core_inv s" and "in_flight s = Some f" and "flight_client f = Some cid" and "inbox s cid = Some q"
    and "idle_sources w" and "timeout_tick w \<le> last_activity f + 6000"
    and "quiet_turns turns" and "\<exists>x \<in> set turns. last_activity f + 6000 \<le> instant_now (fst x)"
  shows "\<exists>t more. biased_loop turns w s = Some t \<and> inbox t cid = Some (q @ error_frame # more)"
  using assms
proof (induction turns arbitrary: w s)
  case (Cons x turns)
  obtain env where x: "x = (env, no_arrivals)" and quiet: "quiet_turns turns"
    using Cons.prems(7) by (cases x) (auto simp: quiet_turns_Cons)
  let ?now = "instant_now env"
  note turn = idle_turn [OF Cons.prems(5), of env turns s]
  show ?case
  proof (cases "timeout_tick w \<le> ?now")
    case due: True
    let ?w = "timeout_served ?now w"
    have w: "idle_sources ?w" using Cons.prems(5) by simp
    obtain u where u: "check_in_flight_timeout env s = Some u" "core_inv u"
      using goes_check_timeout [of s env] Cons.prems(1) by (auto simp: fx.goes_def)
    note given = timeout_gives_up [OF u(1) Cons.prems(2-4)]
    show ?thesis
    proof (cases "?now < last_activity f + 5000")
      case True
      moreover have "timeout_tick ?w \<le> last_activity f + 6000"
        using next_tick_bounds(2) [OF due, of TIMEOUT_CHECK_INTERVAL] True
        by (simp add: TIMEOUT_CHECK_INTERVAL_def)
      ultimately have "\<exists>t more. biased_loop turns ?w s = Some t \<and> inbox t cid = Some (q @ error_frame # more)"
        using Cons.prems(8) by (intro Cons.IH [OF Cons.prems(1-4) w _ quiet]) (auto simp: x)
      then show ?thesis using turn due u(1) given True by (simp add: x del: biased_loop.simps)
    next
      case False
      then obtain more where more: "inbox u cid = Some ((q @ [error_frame]) @ more)"
        using given by auto
      obtain t where "biased_loop turns ?w u = Some t" "extends u t"
        using quiet_loop_returns [OF quiet w u(2)] by blast
      then show ?thesis using turn due u(1) extends_inbox [OF _ more] by (fastforce simp: x simp del: biased_loop.simps)
    qed
  next
    case False
    then have later: "\<exists>x \<in> set turns. last_activity f + 6000 \<le> instant_now (fst x)"
      using Cons.prems(6,8) by (auto simp: x)
    obtain v where v: "run_maintenance env s = Some v" "core_inv v"
      using run_maintenance_inv [of s env] Cons.prems(1) by auto
    have "inbox v cid = Some q" using maintenance_busy(2) [OF v(1) Cons.prems(2)] Cons.prems(4) by simp
    then have "\<exists>t more. biased_loop turns (maintenance_served ?now w) v = Some t \<and>
        inbox t cid = Some (q @ error_frame # more)"
      using Cons.prems(5,6)
      by (intro Cons.IH [OF v(2) maintenance_busy(1) [OF v(1) Cons.prems(2)] Cons.prems(3) _ _ _ quiet later]) simp_all
    then show ?thesis
      using turn False v(1) Cons.IH [OF Cons.prems(1-6) quiet later] by (simp add: x del: biased_loop.simps)
  qed
qed simp

text \<open>The loop turns at 10 s, when the request is sent, and at 16 s.\<close>

theorem unanswered_gets_error_witness:
  "\<exists>t more. biased_loop [(test_env, no_arrivals), (test_env\<lparr>instant_now := 16000\<rparr>, no_arrivals)]
       (new_sources 10000) flying_core = Some t \<and>
     inbox t (ClientId 1) = Some (error_frame # more)"
proof -
  obtain f where f: "in_flight flying_core = Some f" "flight_client f = Some (ClientId 1)" "last_activity f = 10000"
    by (simp add: flying_core_def)
  have i: "inbox flying_core (ClientId 1) = Some []"
    by (simp add: flying_core_def inbox_def test_core_defs hm_insert_def hm_get_def)
  from unanswered_gets_error [OF core_inv_flying(1) f(1,2) i, of "new_sources 10000"] f(3) show ?thesis
    by (simp add: idle_sources_def loop_start_defs quiet_turns_def del: biased_loop.simps)
qed

end
