(* ===== verification/Frame.thy ===== *)
theory Frame
  imports Prelude
begin

text \<open>
  \<open>src/protocol/frame.rs\<close>: the serial/TCP framing (header byte, 16-bit little-endian
  length, payload) and the incremental \<open>FrameParser\<close>, with its refinement of a parser
  that sees the whole stream at once.
\<close>

section \<open>Encoding\<close>

definition FRAME_HEADER_CLIENT :: u8 where
  "FRAME_HEADER_CLIENT = 0x3c"

definition FRAME_HEADER_SERVER :: u8 where
  "FRAME_HEADER_SERVER = 0x3e"

definition encode :: "u8 \<Rightarrow> frame \<Rightarrow> frame" where
  "encode header payload =
     (let len = (word_of_nat (length payload) :: u16)
      in [header] @ u16_to_le_bytes len @ payload)"

definition encode_response :: "frame \<Rightarrow> frame" where
  "encode_response payload = encode FRAME_HEADER_SERVER payload"

definition encode_command :: "frame \<Rightarrow> frame" where
  "encode_command payload = encode FRAME_HEADER_CLIENT payload"

definition is_header :: "u8 \<Rightarrow> bool" where
  "is_header h \<longleftrightarrow> h = FRAME_HEADER_CLIENT \<or> h = FRAME_HEADER_SERVER"

section \<open>The incremental parser\<close>

record frame_parser =
  header_byte :: "u8 option"
  expected_len :: "u16 option"
  buffer :: frame

definition new_parser :: frame_parser where
  "new_parser = \<lparr>header_byte = None, expected_len = None, buffer = []\<rparr>"

text \<open>How one pass through the body of the loop of \<open>feed\<close> ends.\<close>

datatype pass = Break frame_parser | Continue frame_parser | Push frame frame_parser

text \<open>The second half of the body: a header byte is known.\<close>

definition read_length :: "frame_parser \<Rightarrow> frame_parser option" where
  "read_length p =
     (case expected_len p of
        Some _ \<Rightarrow> Some p
      | None \<Rightarrow>
          if length (buffer p) < 2 then None
          else Some (p\<lparr>expected_len := Some (u16_from_le_bytes (take 2 (buffer p))),
                       buffer := drop 2 (buffer p)\<rparr>))"

definition read_payload :: "frame_parser \<Rightarrow> pass" where
  "read_payload p =
     (case read_length p of
        None \<Rightarrow> Break p
      | Some q \<Rightarrow>
          (let needed = unat (the (expected_len q))
           in if length (buffer q) < needed then Break q
              else Push (take needed (buffer q))
                     (q\<lparr>header_byte := None, expected_len := None,
                        buffer := drop needed (buffer q)\<rparr>)))"

definition loop_body :: "frame_parser \<Rightarrow> pass" where
  "loop_body p =
     (case header_byte p of
        None \<Rightarrow>
          (case buffer p of
             [] \<Rightarrow> Break p
           | h # rest \<Rightarrow>
               if \<not> is_header h then Continue (p\<lparr>buffer := rest\<rparr>)
               else read_payload (p\<lparr>header_byte := Some h, buffer := rest\<rparr>))
      | Some _ \<Rightarrow> read_payload p)"

text \<open>
  The loop shrinks the bytes still to be looked at: a pass that goes on has consumed a byte
  of the buffer or, for an empty payload, the header it had already read.
\<close>

definition parser_work :: "frame_parser \<Rightarrow> nat" where
  "parser_work p = 2 * length (buffer p) + (if header_byte p = None then 0 else 1)"

lemma read_length_buffer:
  "read_length p = Some q \<Longrightarrow>
   length (buffer q) \<le> length (buffer p) \<and> header_byte q = header_byte p \<and> expected_len q \<noteq> None"
  by (auto simp: read_length_def split: option.splits if_splits)

lemma read_payload_Push:
  "read_payload p = Push f q \<Longrightarrow>
   length (buffer q) \<le> length (buffer p) \<and> header_byte q = None \<and> expected_len q = None"
  by (auto simp: read_payload_def Let_def split: option.splits if_splits dest!: read_length_buffer)

lemma read_payload_not_Continue: "read_payload p \<noteq> Continue q"
  by (auto simp: read_payload_def Let_def split: option.splits)

lemma loop_body_work:
  "loop_body p = Continue q \<Longrightarrow> parser_work q < parser_work p"
  "loop_body p = Push f q \<Longrightarrow> parser_work q < parser_work p"
  by (auto simp: loop_body_def parser_work_def read_payload_not_Continue
      split: option.splits list.splits if_splits dest!: read_payload_Push)

function feed_loop :: "frame_parser \<Rightarrow> frame list \<Rightarrow> frame_parser \<times> frame list" where
  "feed_loop p frames =
     (case loop_body p of
        Break q \<Rightarrow> (q, frames)
      | Continue q \<Rightarrow> feed_loop q frames
      | Push f q \<Rightarrow> feed_loop q (frames @ [f]))"
  by pat_completeness auto
termination
  by (relation "measure (\<lambda>(p, frames). parser_work p)") (auto intro: loop_body_work)

declare feed_loop.simps [simp del]

definition feed :: "frame_parser \<Rightarrow> frame \<Rightarrow> frame_parser \<times> frame list" where
  "feed p data = feed_loop (p\<lparr>buffer := buffer p @ data\<rparr>) []"

text \<open>
  A reader task feeds the chunks as \<open>read\<close> returns them and forwards the frames in
  order. \<open>run_chunks\<close> is that loop for any incremental decoder.
\<close>

fun run_chunks :: "('p \<Rightarrow> 'c \<Rightarrow> 'p \<times> 'f list) \<Rightarrow> 'p \<Rightarrow> 'c list \<Rightarrow> 'p \<times> 'f list" where
  "run_chunks step p [] = (p, [])"
| "run_chunks step p (c # cs) =
     (let (p1, fs1) = step p c; (p2, fs2) = run_chunks step p1 cs in (p2, fs1 @ fs2))"

definition read_loop :: "frame_parser \<Rightarrow> frame list \<Rightarrow> frame_parser \<times> frame list" where
  "read_loop p chunks = run_chunks feed p chunks"

section \<open>The reference: a parser of the whole stream\<close>

text \<open>
  \<open>parse_stream bs\<close> is the list of complete frames of \<open>bs\<close> and the bytes that
  remain (from the header of an incomplete frame on).
\<close>

function parse_stream :: "frame \<Rightarrow> frame list \<times> frame" where
  "parse_stream [] = ([], [])"
| "parse_stream (h # rest) =
     (if \<not> is_header h then parse_stream rest
      else if length rest < 2 then ([], h # rest)
      else let n = le_nat (take 2 rest)
           in if length rest < 2 + n then ([], h # rest)
              else let (fs, r) = parse_stream (drop (2 + n) rest)
                   in (take n (drop 2 rest) # fs, r))"
  by pat_completeness auto
termination
  by (relation "measure length") auto

text \<open>The bytes a parser state stands for: those consumed of an incomplete frame, and its buffer.\<close>

definition undecoded :: "frame_parser \<Rightarrow> frame" where
  "undecoded p =
     (case header_byte p of None \<Rightarrow> [] | Some h \<Rightarrow> [h]) @
     (case expected_len p of None \<Rightarrow> [] | Some n \<Rightarrow> u16_to_le_bytes n) @ buffer p"

definition parser_wf :: "frame_parser \<Rightarrow> bool" where
  "parser_wf p \<longleftrightarrow>
     (case header_byte p of None \<Rightarrow> expected_len p = None | Some h \<Rightarrow> is_header h)"

section \<open>The interface of an incremental decoder\<close>

text \<open>
  What a reader needs of a decoder: a reference on the whole stream that can be resumed from
  its remainder, and steps that decode the state's bytes followed by the new ones.
\<close>

locale incremental_decoder =
  fixes step :: "'p \<Rightarrow> 'b list \<Rightarrow> 'p \<times> 'f list"
    and abs :: "'p \<Rightarrow> 'b list"
    and parse :: "'b list \<Rightarrow> 'f list \<times> 'b list"
    and invar :: "'p \<Rightarrow> bool"
  assumes parse_append:
      "parse xs = (fs, r) \<Longrightarrow> parse (xs @ ys) = (fs @ fst (parse (r @ ys)), snd (parse (r @ ys)))"
    and step_refines:
      "invar p \<Longrightarrow> step p d = (q, fs) \<Longrightarrow> invar q \<and> parse (abs p @ d) = (fs, abs q)"
begin

lemma run_chunks_refines:
  "invar p \<Longrightarrow> parse (abs p) = ([], abs p) \<Longrightarrow> run_chunks step p cs = (q, fs) \<Longrightarrow>
   invar q \<and> parse (abs p @ concat cs) = (fs, abs q)"
proof (induction cs arbitrary: p q fs)
  case (Cons c cs)
  obtain p1 fs1 where s: "step p c = (p1, fs1)" by fastforce
  obtain p2 fs2 where r: "run_chunks step p1 cs = (p2, fs2)" by fastforce
  from Cons.prems s r have q: "q = p2" "fs = fs1 @ fs2" by auto
  from step_refines [OF Cons.prems(1) s]
  have i1: "invar p1" and p1: "parse (abs p @ c) = (fs1, abs p1)" by auto
  have "parse (abs p1) = ([], abs p1)"
    using parse_append [OF p1, of "[]"] p1 by (cases "parse (abs p1)") auto
  from Cons.IH [OF i1 this r]
  have "invar p2" and "parse (abs p1 @ concat cs) = (fs2, abs p2)" by auto
  with parse_append [OF p1, of "concat cs"] q show ?case by simp
qed simp

text \<open>How the stream is cut into chunks does not matter.\<close>

lemma chunks_irrelevant:
  assumes "invar p" and "parse (abs p) = ([], abs p)" and "concat cs = concat ds"
    and "run_chunks step p cs = (q, fs)" and "run_chunks step p ds = (q', fs')"
  shows "fs = fs'" and "abs q = abs q'"
  using run_chunks_refines [OF assms(1,2,4)] run_chunks_refines [OF assms(1,2,5)] assms(3)
  by auto

end

section \<open>The parser refines the reference\<close>

lemma parse_stream_append:
  "parse_stream xs = (fs, r) \<Longrightarrow>
   parse_stream (xs @ ys) = (fs @ fst (parse_stream (r @ ys)), snd (parse_stream (r @ ys)))"
proof (induction xs arbitrary: fs r rule: parse_stream.induct)
  case (2 h rest)
  let ?n = "le_nat (take 2 rest)"
  show ?case
  proof (cases "is_header h \<and> 2 \<le> length rest \<and> 2 + ?n \<le> length rest")
    case True
    then obtain gs where gs: "parse_stream (drop (2 + ?n) rest) = (gs, r)"
      and fs: "fs = take ?n (drop 2 rest) # gs"
      using "2.prems" by (auto simp: Let_def not_less split: prod.splits)
    have "parse_stream (drop (2 + ?n) rest @ ys)
        = (gs @ fst (parse_stream (r @ ys)), snd (parse_stream (r @ ys)))"
      using "2.IH"(2) True gs by (simp add: not_less)
    with True fs show ?thesis by (simp add: not_less Let_def)
  next
    case False
    then show ?thesis
      using "2.prems" "2.IH"(1) by (cases "is_header h") (auto simp: Let_def not_less split: if_splits)
  qed
qed simp

lemma undecoded_None [simp]:
  "header_byte p = None \<Longrightarrow> expected_len p = None \<Longrightarrow> undecoded p = buffer p"
  by (simp add: undecoded_def)

lemma undecoded_header:
  "header_byte p = Some h \<Longrightarrow> expected_len p = None \<Longrightarrow> undecoded p = h # buffer p"
  by (simp add: undecoded_def)

lemma undecoded_length:
  "header_byte p = Some h \<Longrightarrow> expected_len p = Some n \<Longrightarrow>
   undecoded p = h # u16_to_le_bytes n @ buffer p"
  by (simp add: undecoded_def)

lemma le_nat_u16_to_le_bytes: "le_nat (u16_to_le_bytes n) = unat n"
  using unat_u16_from_le_bytes [of "u16_to_le_bytes n"] by (simp add: u16_le_roundtrip)

lemma read_length_undecoded:
  assumes "header_byte p = Some h" and "read_length p = Some q"
  shows "undecoded q = undecoded p"
proof (cases "expected_len p")
  case None
  with assms have q: "q = p\<lparr>expected_len := Some (u16_from_le_bytes (take 2 (buffer p))),
      buffer := drop 2 (buffer p)\<rparr>" and l: "2 \<le> length (buffer p)"
    by (auto simp: read_length_def not_less split: if_splits)
  have "u16_to_le_bytes (u16_from_le_bytes (take 2 (buffer p))) = take 2 (buffer p)"
    using l by (intro u16_to_from_le_bytes) simp
  with None assms(1) q show ?thesis
    by (simp add: undecoded_def)
qed (use assms in \<open>simp add: read_length_def\<close>)

lemma parse_stream_known:
  assumes "header_byte q = Some h" and "is_header h" and "expected_len q = Some n"
  shows "parse_stream (undecoded q) =
    (if length (buffer q) < unat n then ([], undecoded q)
     else (take (unat n) (buffer q) # fst (parse_stream (drop (unat n) (buffer q))),
           snd (parse_stream (drop (unat n) (buffer q)))))"
  using assms by (simp add: undecoded_length le_nat_u16_to_le_bytes Let_def split_def)

lemma read_payload_refines:
  assumes h: "header_byte p = Some h" and hd: "is_header h"
  shows "case read_payload p of
      Break q \<Rightarrow> parser_wf q \<and> undecoded q = undecoded p \<and>
        parse_stream (undecoded p) = ([], undecoded p)
    | Continue q \<Rightarrow> False
    | Push f q \<Rightarrow> parser_wf q \<and>
        parse_stream (undecoded p) = (f # fst (parse_stream (undecoded q)), snd (parse_stream (undecoded q)))"
proof (cases "read_length p")
  case None
  then have "expected_len p = None" "length (buffer p) < 2"
    by (auto simp: read_length_def split: option.splits if_splits)
  with None h hd show ?thesis by (simp add: read_payload_def parser_wf_def undecoded_header)
next
  case (Some q)
  from read_length_buffer [OF this] h obtain n
    where hq: "header_byte q = Some h" and n: "expected_len q = Some n" by auto
  have u: "undecoded q = undecoded p"
    using h Some by (rule read_length_undecoded)
  show ?thesis
    using parse_stream_known [OF hq hd n] Some hq hd n u
    by (auto simp: read_payload_def parser_wf_def Let_def)
qed

lemma loop_body_refines:
  assumes "parser_wf p"
  shows "case loop_body p of
      Break q \<Rightarrow> parser_wf q \<and> undecoded q = undecoded p \<and>
        parse_stream (undecoded p) = ([], undecoded p)
    | Continue q \<Rightarrow> parser_wf q \<and> parse_stream (undecoded p) = parse_stream (undecoded q)
    | Push f q \<Rightarrow> parser_wf q \<and>
        parse_stream (undecoded p) = (f # fst (parse_stream (undecoded q)), snd (parse_stream (undecoded q)))"
proof (cases "header_byte p")
  case (Some h)
  with assms have "is_header h" by (simp add: parser_wf_def)
  from read_payload_refines [OF Some this] Some show ?thesis
    by (simp add: loop_body_def split: pass.splits)
next
  case None
  with assms have e: "expected_len p = None" by (simp add: parser_wf_def)
  show ?thesis
  proof (cases "buffer p")
    case Nil
    with None e assms show ?thesis by (simp add: loop_body_def)
  next
    case (Cons h rest)
    let ?p' = "p\<lparr>header_byte := Some h, buffer := rest\<rparr>"
    have u: "undecoded ?p' = undecoded p"
      using None e Cons by (simp add: undecoded_def)
    show ?thesis
    proof (cases "is_header h")
      case True
      have "header_byte ?p' = Some h" by simp
      from read_payload_refines [OF this True] None Cons True show ?thesis
        unfolding u by (simp add: loop_body_def split: pass.splits)
    next
      case False
      with None e Cons show ?thesis by (simp add: loop_body_def parser_wf_def)
    qed
  qed
qed

lemma feed_loop_refines:
  "parser_wf p \<Longrightarrow> feed_loop p frames = (q, out) \<Longrightarrow>
   parser_wf q \<and> (\<exists>fs. out = frames @ fs \<and> parse_stream (undecoded p) = (fs, undecoded q))"
proof (induction p frames arbitrary: q out rule: feed_loop.induct)
  case (1 p frames)
  note ref = loop_body_refines [OF "1.prems"(1)]
  show ?case
  proof (cases "loop_body p")
    case (Break p')
    with ref "1.prems"(2) show ?thesis by (simp add: feed_loop.simps [of p])
  next
    case (Continue p')
    with ref "1.prems"(2) "1.IH"(1) [OF Continue] show ?thesis
      by (simp add: feed_loop.simps [of p])
  next
    case (Push f p')
    from "1.prems"(2) Push have "feed_loop p' (frames @ [f]) = (q, out)"
      by (simp add: feed_loop.simps [of p])
    with "1.IH"(2) [OF Push] ref Push show ?thesis by fastforce
  qed
qed

lemma undecoded_buffer_append:
  "undecoded (p\<lparr>buffer := buffer p @ d\<rparr>) = undecoded p @ d"
  by (simp add: undecoded_def)

lemma feed_refines:
  assumes "parser_wf p" and "feed p d = (q, fs)"
  shows "parser_wf q \<and> parse_stream (undecoded p @ d) = (fs, undecoded q)"
proof -
  have "parser_wf (p\<lparr>buffer := buffer p @ d\<rparr>)"
    using assms(1) by (auto simp: parser_wf_def split: option.splits)
  from feed_loop_refines [OF this, of "[]" q fs] assms(2) show ?thesis
    by (simp add: feed_def undecoded_buffer_append)
qed

interpretation decoder: incremental_decoder feed undecoded parse_stream parser_wf
  by unfold_locales (rule parse_stream_append, assumption, erule feed_refines, assumption)

lemma parser_wf_new [simp]: "parser_wf new_parser"
  by (simp add: parser_wf_def new_parser_def)

lemma undecoded_new [simp]: "undecoded new_parser = []"
  by (simp add: undecoded_def new_parser_def)

section \<open>Encoded frames are decoded\<close>

lemma parse_stream_garbage:
  "\<forall>b \<in> set g. \<not> is_header b \<Longrightarrow> parse_stream (g @ xs) = parse_stream xs"
  by (induction g) auto

lemma parse_stream_encode:
  assumes "is_header h" and "length f < 2 ^ 16"
  shows "parse_stream (encode h f @ xs) = (f # fst (parse_stream xs), snd (parse_stream xs))"
proof -
  have n: "unat (word_of_nat (length f) :: u16) = length f"
    using assms(2) by (simp add: unat_of_nat)
  then have "le_nat (u16_to_le_bytes (word_of_nat (length f))) = length f"
    by (simp add: le_nat_u16_to_le_bytes)
  then show ?thesis
    using assms(1) by (simp add: encode_def Let_def split_def)
qed

section \<open>Properties\<close>

lemma read_loop_refines:
  "read_loop new_parser cs = (q, fs) \<Longrightarrow> parse_stream (concat cs) = (fs, undecoded q)"
  unfolding read_loop_def
  using decoder.run_chunks_refines [of new_parser cs q fs] by simp

text \<open>The frames a reader gets from a byte stream, and the bytes it keeps for later, do not
  depend on how the reads cut the stream into chunks.\<close>

theorem read_loop_chunking:
  assumes "concat cs = concat ds"
  shows "snd (read_loop new_parser cs) = snd (read_loop new_parser ds) \<and>
    undecoded (fst (read_loop new_parser cs)) = undecoded (fst (read_loop new_parser ds))"
  using assms read_loop_refines [of cs] read_loop_refines [of ds]
  by (metis prod.collapse prod.inject)

theorem read_loop_chunking_witness:
  "snd (read_loop new_parser [[0x3e], [1, 0, 7]]) = snd (read_loop new_parser [[0x3e, 1], [0, 7]])"
  using read_loop_chunking [of "[[0x3e], [1, 0, 7]]" "[[0x3e, 1], [0, 7]]"] by simp

text \<open>A stream of encoded frames, each after some bytes that are no header.\<close>

definition framed :: "(frame \<times> u8 \<times> frame) list \<Rightarrow> frame" where
  "framed items = concat (map (\<lambda>(g, h, f). g @ encode h f) items)"

lemma parse_stream_framed:
  "\<forall>(g, h, f) \<in> set items. (\<forall>b \<in> set g. \<not> is_header b) \<and> is_header h \<and> length f < 2 ^ 16 \<Longrightarrow>
   parse_stream (framed items @ rest) =
     (map (\<lambda>(g, h, f). f) items @ fst (parse_stream rest), snd (parse_stream rest))"
  by (induction items) (auto simp: framed_def parse_stream_garbage parse_stream_encode)

text \<open>C35. Round trip and resynchronization: a reader that gets encoded frames of fewer than
  65,536 bytes, with arbitrary non-header bytes between them and in chunks of any size, gets
  exactly the payloads, in order, and is left with nothing undecoded.\<close>

theorem read_loop_framed:
  assumes "\<forall>(g, h, f) \<in> set items. (\<forall>b \<in> set g. \<not> is_header b) \<and> is_header h \<and> length f < 2 ^ 16"
    and "concat cs = framed items"
  shows "snd (read_loop new_parser cs) = map (\<lambda>(g, h, f). f) items \<and>
    undecoded (fst (read_loop new_parser cs)) = []"
  using parse_stream_framed [OF assms(1), of "[]"] read_loop_refines [of cs] assms(2)
  by (metis append_Nil2 fst_conv parse_stream.simps(1) prod.collapse snd_conv)

theorem read_loop_framed_witness:
  "snd (read_loop new_parser [[9, 0x3e, 2], [0, 5], [6, 0x3c, 0, 0]]) = [[5, 6], []]"
proof -
  have "concat [[9, 0x3e, 2], [0, 5], [6, 0x3c, 0, 0]] =
      framed [([9], 0x3e, [5, 6]), ([], 0x3c, [])]" by code_simp
  from read_loop_framed [OF _ this] show ?thesis
    by (simp add: is_header_def FRAME_HEADER_CLIENT_def FRAME_HEADER_SERVER_def)
qed

text \<open>A payload of 65,536 bytes or more does not survive the framing: its length field
  wraps, so the first frame the peer reads is a proper prefix of it.\<close>

theorem encode_long_payload:
  assumes "2 ^ 16 \<le> length f" and "is_header h"
  shows "hd (fst (parse_stream (encode h f))) = take (length f mod 2 ^ 16) f \<and>
    fst (parse_stream (encode h f)) \<noteq> []"
proof -
  let ?n = "length f mod 2 ^ 16"
  have n: "le_nat (u16_to_le_bytes (word_of_nat (length f))) = ?n"
    by (simp add: le_nat_u16_to_le_bytes unat_of_nat)
  have "?n \<le> length f" by simp
  then show ?thesis
    using assms(2) n by (simp add: encode_def Let_def split_def)
qed

theorem encode_long_payload_witness:
  "hd (fst (parse_stream (encode 0x3e (replicate (2 ^ 16) 7)))) = []"
  using encode_long_payload [of "replicate (2 ^ 16) 7" "0x3e"]
  by (simp add: is_header_def FRAME_HEADER_SERVER_def)

end
