(* ===== verification/Frontend.thy ===== *)
theory Frontend
  imports Core_Run Frame
begin

text \<open>
  The TCP frontend, \<open>src/frontend/tcp.rs\<close>: the phases of \<open>TcpFrontend::run\<close>, binding the
  listeners, and the life of a client connection (\<open>handle_client\<close>) with its reading and its
  writing task. A task's progress between two points where it waits is one operation. Sockets
  are the bytes that arrive and the bytes handed to \<open>write_all\<close>.

  The channels are unbounded queues: the direct channel of a client is the frames the actor has
  put on it, of which the connection remembers how many it has taken; the broadcast channel is
  the frames sent so far, of which it remembers the position of its receiver.
\<close>

section \<open>State\<close>

datatype frontend_phase = WaitingForRadio | Listening | Stopped

record connection =
  conn_port :: u16
  conn_parser :: frame_parser
  direct_taken :: nat
  broadcast_pos :: nat
  conn_written :: frame

text \<open>A handler that was spawned and has not run yet: it has its receiver of the broadcast channel.\<close>

record spawned =
  spawned_port :: u16
  spawned_pos :: nat

record frontend =
  bind_addrs :: "string list"
  phase :: frontend_phase
  listeners :: "string list"
  spawned_handlers :: "spawned list"
  next_client_id :: u64
  connections :: "(client_id, connection) hmap"
  command_queue :: "client_command list"

text \<open>The frontend and the actor share the map of client channels, the broadcast channel and the
  flag that says whether the radio is up; all three are in the state of the actor.\<close>

record system =
  actor :: core
  front :: frontend

definition BROADCAST_CAPACITY :: nat where
  "BROADCAST_CAPACITY = 256"

definition frontend_addrs :: "core_config \<Rightarrow> string list" where
  "frontend_addrs cfg =
     map (\<lambda>port. tcp_frontend_host cfg @ '':'' @ int_to_string (uint port)) (tcp_frontend_ports cfg)"

definition new_frontend :: "string list \<Rightarrow> frontend" where
  "new_frontend addrs =
     \<lparr>bind_addrs = addrs, phase = WaitingForRadio, listeners = [], spawned_handlers = [],
      next_client_id = 1, connections = [], command_queue = []\<rparr>"

section \<open>Listening\<close>

text \<open>Every address or none: the first that cannot be bound gives up.\<close>

fun bind_all :: "(string \<Rightarrow> bool) \<Rightarrow> string list \<Rightarrow> string list \<Rightarrow> string list option" where
  "bind_all can_bind bound [] = Some bound"
| "bind_all can_bind bound (a # as) =
     (if can_bind a then bind_all can_bind (bound @ [a]) as else None)"

text \<open>The radio was seen up: bind, or go back to waiting after the retry delay.\<close>

definition open_frontend :: "(string \<Rightarrow> bool) \<Rightarrow> frontend \<Rightarrow> frontend" where
  "open_frontend can_bind f =
     (case bind_all can_bind [] (bind_addrs f) of
        None \<Rightarrow> f
      | Some ls \<Rightarrow> f\<lparr>phase := Listening, listeners := ls\<rparr>)"

text \<open>Leaving the accept loop drops the listeners.\<close>

definition close_frontend :: "frontend \<Rightarrow> frontend" where
  "close_frontend f = f\<lparr>phase := WaitingForRadio, listeners := []\<rparr>"

definition stop_frontend :: "frontend \<Rightarrow> frontend" where
  "stop_frontend f = f\<lparr>phase := Stopped, listeners := []\<rparr>"

text \<open>An accepted connection: a handler is spawned, subscribed to the broadcasts from now on.\<close>

definition accept_client :: "u16 \<Rightarrow> system \<Rightarrow> system" where
  "accept_client port s =
     s\<lparr>front := (front s)\<lparr>spawned_handlers := spawned_handlers (front s) @
         [\<lparr>spawned_port = port, spawned_pos = length (broadcast_out (actor s))\<rparr>]\<rparr>\<rparr>"

section \<open>A client connection\<close>

definition new_connection :: "spawned \<Rightarrow> connection" where
  "new_connection h =
     \<lparr>conn_port = spawned_port h, conn_parser = new_parser, direct_taken = 0,
      broadcast_pos = spawned_pos h, conn_written = []\<rparr>"

definition put_connection :: "client_id \<Rightarrow> connection \<Rightarrow> frontend \<Rightarrow> frontend" where
  "put_connection cid k f = f\<lparr>connections := hm_insert cid k (connections f)\<rparr>"

text \<open>\<open>fetch_add\<close> returns the value before and wraps around.\<close>

definition client_id_new :: "frontend \<Rightarrow> client_id \<times> frontend" where
  "client_id_new f = (ClientId (next_client_id f), f\<lparr>next_client_id := next_client_id f + 1\<rparr>)"

text \<open>The start of \<open>handle_client\<close>: a fresh id, a parser, and a direct channel in the shared map.\<close>

definition start_client :: "nat \<Rightarrow> system \<Rightarrow> system" where
  "start_client n s =
     (let h = spawned_handlers (front s) ! n;
          (cid, f) = client_id_new (front s);
          f' = put_connection cid (new_connection h)
            (f\<lparr>spawned_handlers := take n (spawned_handlers f) @ drop (Suc n) (spawned_handlers f)\<rparr>)
      in s\<lparr>actor := client_connected cid (actor s), front := f'\<rparr>)"

text \<open>The reading task: the bytes of one \<open>read\<close> are fed to the parser, and every frame becomes a
  command in the actor's queue.\<close>

definition command_of :: "client_id \<Rightarrow> u16 \<Rightarrow> frame \<Rightarrow> client_command" where
  "command_of cid port payload =
     \<lparr>command_client = cid, command_port = port, command_payload = payload\<rparr>"

definition read_client :: "client_id \<Rightarrow> connection \<Rightarrow> frame \<Rightarrow> frontend \<Rightarrow> frontend" where
  "read_client cid k data f =
     (let (p, frames) = feed (conn_parser k) data
      in (put_connection cid (k\<lparr>conn_parser := p\<rparr>) f)
           \<lparr>command_queue := command_queue f @ map (command_of cid (conn_port k)) frames\<rparr>)"

text \<open>The writing task: the next frame of the direct channel, or of the broadcast channel; a
  receiver that has fallen behind by more than the capacity goes on with the oldest frame kept.\<close>

definition write_direct :: "client_id \<Rightarrow> connection \<Rightarrow> frame \<Rightarrow> frontend \<Rightarrow> frontend" where
  "write_direct cid k payload f =
     put_connection cid (k\<lparr>direct_taken := direct_taken k + 1,
       conn_written := conn_written k @ encode_response payload\<rparr>) f"

definition lagged :: "connection \<Rightarrow> core \<Rightarrow> bool" where
  "lagged k s \<longleftrightarrow> broadcast_pos k + BROADCAST_CAPACITY < length (broadcast_out s)"

definition write_broadcast :: "client_id \<Rightarrow> connection \<Rightarrow> core \<Rightarrow> frontend \<Rightarrow> frontend" where
  "write_broadcast cid k s f =
     put_connection cid
       (if lagged k s then k\<lparr>broadcast_pos := length (broadcast_out s) - BROADCAST_CAPACITY\<rparr>
        else k\<lparr>broadcast_pos := broadcast_pos k + 1,
          conn_written := conn_written k @ encode_response (broadcast_out s ! broadcast_pos k)\<rparr>) f"

text \<open>A task that ended, or the radio that went down: both tasks are aborted and the direct channel
  leaves the map.\<close>

definition close_client :: "client_id \<Rightarrow> system \<Rightarrow> system" where
  "close_client cid s =
     s\<lparr>actor := client_disconnected cid (actor s),
       front := (front s)\<lparr>connections := hm_remove cid (connections (front s))\<rparr>\<rparr>"

lemma bind_all_Some: "bind_all can_bind bound as = Some ls \<longleftrightarrow> ls = bound @ as \<and> (\<forall>a \<in> set as. can_bind a)"
  by (induction can_bind bound as rule: bind_all.induct) auto

end
