(* ===== verification/System.thy ===== *)
theory System
  imports Core_Channels Frontend "HOL-Library.Sublist"
begin

text \<open>
  The program as one system: the actor, the frontend with its client connections, and the
  channels between them, as a step relation whose labels record what the outside does. The
  tasks interleave in any order, an event of the actor being one step. The relation has more
  runs than the program, so what holds of all of them holds of the program: it goes on handling
  events after a shutdown signal, and as the flag of the radio goes down and up again within the
  one event that reconnects, it lets the frontend see the radio down at any time.
\<close>

section \<open>Steps\<close>

datatype label =
    RadioSeenUp "string \<Rightarrow> bool"
  | RadioSeenDown
  | FrontendShutdown
  | Accepts u16
  | HandlerStarts client_id
  | ClientSends client_id frame
  | DirectWrite client_id
  | BroadcastWrite client_id
  | ConnectionEnds client_id
  | ActorTakes env client_command
  | ActorHandles env core_event

abbreviation connection_of :: "system \<Rightarrow> client_id \<Rightarrow> connection option" where
  "connection_of s cid \<equiv> hm_get (connections (front s)) cid"

text \<open>The commands of clients come through the frontend's queue, and only it connects them.\<close>

definition own_event :: "core_event \<Rightarrow> bool" where
  "own_event ev \<longleftrightarrow> \<not> from_frontend ev \<and> (\<forall>cmd. ev \<noteq> ClientCommandEvent cmd)"

inductive sys_step :: "label \<Rightarrow> system \<Rightarrow> system \<Rightarrow> bool" where
  opens: "phase (front s) = WaitingForRadio \<Longrightarrow> radio_up (actor s) \<Longrightarrow>
    sys_step (RadioSeenUp can_bind) s (s\<lparr>front := open_frontend can_bind (front s)\<rparr>)"
| closes: "phase (front s) = Listening \<Longrightarrow>
    sys_step RadioSeenDown s (s\<lparr>front := close_frontend (front s)\<rparr>)"
| stops: "phase (front s) \<noteq> Stopped \<Longrightarrow>
    sys_step FrontendShutdown s (s\<lparr>front := stop_frontend (front s)\<rparr>)"
| accepts: "phase (front s) = Listening \<Longrightarrow> port \<in> set (tcp_frontend_ports (conf (actor s))) \<Longrightarrow>
    sys_step (Accepts port) s (accept_client port s)"
| starts: "n < length (spawned_handlers (front s)) \<Longrightarrow> cid = fst (client_id_new (front s)) \<Longrightarrow>
    sys_step (HandlerStarts cid) s (start_client n s)"
| reads: "connection_of s cid = Some k \<Longrightarrow> data \<noteq> [] \<Longrightarrow> length data \<le> 4096 \<Longrightarrow>
    sys_step (ClientSends cid data) s (s\<lparr>front := read_client cid k data (front s)\<rparr>)"
| writes_direct: "connection_of s cid = Some k \<Longrightarrow> inbox (actor s) cid = Some q \<Longrightarrow> direct_taken k < length q \<Longrightarrow>
    sys_step (DirectWrite cid) s (s\<lparr>front := write_direct cid k (q ! direct_taken k) (front s)\<rparr>)"
| writes_broadcast: "connection_of s cid = Some k \<Longrightarrow> broadcast_pos k < length (broadcast_out (actor s)) \<Longrightarrow>
    sys_step (BroadcastWrite cid) s (s\<lparr>front := write_broadcast cid k (actor s) (front s)\<rparr>)"
| ends: "connection_of s cid = Some k \<Longrightarrow> sys_step (ConnectionEnds cid) s (close_client cid s)"
| takes: "command_queue (front s) = cmd # rest \<Longrightarrow> hex_ok env \<Longrightarrow>
    \<not> event_panics env (ClientCommandEvent cmd) (actor s) \<Longrightarrow>
    handle_client_command env cmd (actor s) = Some t \<Longrightarrow>
    sys_step (ActorTakes env cmd) s (s\<lparr>actor := t, front := (front s)\<lparr>command_queue := rest\<rparr>\<rparr>)"
| handles: "own_event ev \<Longrightarrow> hex_ok env \<Longrightarrow> \<not> event_panics env ev (actor s) \<Longrightarrow>
    handle_event env ev (actor s) = Some t \<Longrightarrow> sys_step (ActorHandles env ev) s (s\<lparr>actor := t\<rparr>)"

inductive_cases sys_stepE: "sys_step l s t"
inductive_simps sends_iff: "sys_step (ClientSends cid data) s t"
inductive_simps takes_iff: "sys_step (ActorTakes env cmd) s t"

inductive runs :: "system \<Rightarrow> label list \<Rightarrow> system \<Rightarrow> bool" for s where
  none: "runs s [] s"
| next_step: "runs s ls t \<Longrightarrow> sys_step l t u \<Longrightarrow> runs s (ls @ [l]) u"

text \<open>The actor when the frontend is spawned: started, without clients.\<close>

definition booted :: "core \<Rightarrow> bool" where
  "booted c \<longleftrightarrow> reachable c \<and> (\<forall>cid. \<not> client_is_alive c cid)"

definition new_system :: "core \<Rightarrow> system" where
  "new_system c = \<lparr>actor = c, front = new_frontend (frontend_addrs (conf c))\<rparr>"

text \<open>Every startup that gets to the loop gives such an actor.\<close>

lemma startup_booted:
  assumes "store_inv d" "hex_ok env" "quiet env evs" "quiet_attempts as"
    "startup env dial evs as (new_core cfg d) = Some (r, c)" "r \<noteq> StillTrying"
  shows "booted c"
proof -
  have "\<not> client_is_alive (new_core cfg d) cid" for cid
    by (simp add: new_core_def client_is_alive_def hm_contains_def hm_get_def)
  then show ?thesis
    using reachable.start [OF assms] extends_alive [OF io_walk.startup_rel [OF assms(5)]]
    by (simp add: booted_def new_core_def)
qed

section \<open>A run\<close>

text \<open>The radio comes up, a client connects and sends a frame and the start of another, and the
  radio announces a message, which the client is told.\<close>

definition answered :: "attempt list" where
  "answered = [Dial test_env (\<lambda>t. True) [(10001, Received [0x05]), (10002, Received [0x01])]]"

definition demo_labels :: "label list" where
  "demo_labels = [ActorHandles test_env (RadioLost answered), RadioSeenUp (\<lambda>a. True), Accepts 5000,
     HandlerStarts (ClientId 1), ClientSends (ClientId 1) [0x3c, 1, 0, 0x0a, 0x3c],
     ActorHandles test_env (RadioFrame [0x83]), BroadcastWrite (ClientId 1)]"

definition demo_connection :: connection where
  "demo_connection = \<lparr>conn_port = 5000, conn_parser = \<lparr>header_byte = Some 0x3c, expected_len = None, buffer = []\<rparr>,
     direct_taken = 0, broadcast_pos = 1, conn_written = [0x3e, 1, 0, 0x83]\<rparr>"

definition radio_answers :: "core \<Rightarrow> bool" where
  "radio_answers c \<longleftrightarrow> radio_up c \<and> client_channels c = [] \<and> broadcast_out c = [] \<and> conf c = test_config \<and>
     sessions c = [] \<and>
     map_option awaiting_reply (in_flight c) = Some (Stream [0x02, 0x03] 0x04)"

lemma radio_comes_up:
  "\<exists>c. handle_event test_env (RadioLost answered) idle_core = Some c \<and> radio_answers c"
proof -
  have d: "decode_response_payload two_chars 5 [5] = Some None"
    by (simp add: decode_response_payload_def decode_response_arms_def nonempty_map_def)
  show ?thesis
    by (simp add: reconnect_radio_def answered_def connect_backend_def backend_target_def initialize_radio_def
        send_to_radio_def fail_all_def Let_def idle_core_def new_core_def test_config_def test_env_def
        cache_response_def extract_radio_identity_def d write_db_def kv_set_def run_query_def
        SELF_INFO_TIMEOUT_def DEVICE_INFO_TIMEOUT_def sync_from_radio_def queue_sync_def
        advance_queue_sync.simps client_gone_def internal_def new_flight_def radio_answers_def
        awaiting_for_def awaiting_of_def)
qed

lemma push_is_broadcast:
  assumes "conf c = test_config" and "map_option awaiting_reply (in_flight c) = Some (Stream [0x02, 0x03] 0x04)"
  shows "handle_radio_rx test_env [0x83] c = Some (broadcast [0x83] c)"
proof -
  have "\<exists>x. log_event two_chars test_config ''<-'' 0x83 [0x83] = Some x"
    by (simp add: log_event_def test_config_def decode_response_payload_def decode_response_arms_def Let_def)
  then show ?thesis
    using assms
    by (auto simp: handle_radio_rx_def test_env_def cache_response_def record_raw_def test_config_def
        try_route_to_in_flight_def try_route_ack_def refresh_advertised_def is_push_event_def Let_def)
qed

lemma demo_feed:
  "feed new_parser [0x3c, 1, 0, 0x0a, 0x3c] = (conn_parser demo_connection, [[0x0a]])"
  by code_simp

lemma booted_idle: "booted idle_core"
  by (simp add: booted_def reachable_idle) (simp add: idle_core_def new_core_def client_is_alive_def hm_contains_def hm_simps)

lemma demo_run:
  "\<exists>s. runs (new_system idle_core) demo_labels s \<and> connection_of s (ClientId 1) = Some demo_connection \<and>
     inbox (actor s) (ClientId 1) = Some [] \<and> broadcast_out (actor s) = [[0x83]] \<and>
     command_queue (front s) = [command_of (ClientId 1) 5000 [0x0a]] \<and>
     in_flight (actor s) \<noteq> None \<and> sessions (actor s) = [] \<and> conf (actor s) = test_config"
proof -
  obtain c where c: "handle_event test_env (RadioLost answered) idle_core = Some c" and a: "radio_answers c"
    using radio_comes_up by blast
  let ?run = "runs (new_system idle_core)" and ?cid = "ClientId 1" and ?b = "broadcast [0x83] (client_connected (ClientId 1) c)"
  let ?f = "new_frontend (frontend_addrs (conf idle_core))" and ?h = "\<lparr>spawned_port = 5000, spawned_pos = 0\<rparr> :: spawned"
  let ?k = "\<lambda>p. \<lparr>conn_port = 5000, conn_parser = p, direct_taken = 0, broadcast_pos = 0, conn_written = []\<rparr>"
  define s1 where "s1 = \<lparr>actor = c, front = ?f\<rparr>"
  define s2 where "s2 = s1\<lparr>front := (front s1)\<lparr>phase := Listening, listeners := bind_addrs ?f\<rparr>\<rparr>"
  define s3 where "s3 = s2\<lparr>front := (front s2)\<lparr>spawned_handlers := [?h]\<rparr>\<rparr>"
  define s4 where "s4 = \<lparr>actor = client_connected ?cid c, front = (front s3)\<lparr>spawned_handlers := [],
    next_client_id := 2, connections := [(?cid, ?k new_parser)]\<rparr>\<rparr>"
  define s5 where "s5 = s4\<lparr>front := (front s4)\<lparr>connections := [(?cid, ?k (conn_parser demo_connection))],
    command_queue := [command_of ?cid 5000 [0x0a]]\<rparr>\<rparr>"
  define s6 where "s6 = s5\<lparr>actor := ?b\<rparr>"
  define s7 where "s7 = s6\<lparr>front := (front s6)\<lparr>connections := [(?cid, demo_connection)]\<rparr>\<rparr>"
  note defs = s1_def s2_def s3_def s4_def s5_def s6_def s7_def new_system_def new_frontend_def
  have b: "bind_all (\<lambda>a. True) [] as = Some as" for as by (simp add: bind_all_Some)
  have e: "encode_response [0x83] = [0x3e, 1, 0, 0x83]" by code_simp
  note ca = a [unfolded radio_answers_def]
  have "sys_step (ActorHandles test_env (RadioLost answered)) (new_system idle_core) s1"
    using sys_step.handles [of "RadioLost answered" test_env "new_system idle_core" c] c test_env_ok
    by (simp add: defs own_event_def quiet_attempts_def answered_def quiet_def)
  from next_step [OF none this] have r: "?run [ActorHandles test_env (RadioLost answered)] s1" by simp
  have "sys_step (RadioSeenUp (\<lambda>a. True)) s1 s2"
    using sys_step.opens [of s1 "\<lambda>a. True"] ca by (simp add: defs open_frontend_def b)
  note r = next_step [OF r this]
  have "sys_step (Accepts 5000) s2 s3"
    using sys_step.accepts [of s2 5000] ca by (simp add: defs accept_client_def test_config_def)
  note r = next_step [OF r this]
  have "sys_step (HandlerStarts ?cid) s3 s4"
    using sys_step.starts [of 0 s3 ?cid]
    by (simp add: defs start_client_def client_id_new_def put_connection_def new_connection_def hm_insert_def)
  note r = next_step [OF r this]
  have "sys_step (ClientSends ?cid [0x3c, 1, 0, 0x0a, 0x3c]) s4 s5"
    using sys_step.reads [of s4 ?cid "?k new_parser" "[0x3c, 1, 0, 0x0a, 0x3c]"]
    by (simp add: defs read_client_def put_connection_def demo_feed hm_insert_def hm_get_def)
  note r = next_step [OF r this]
  have "handle_event test_env (RadioFrame [0x83]) (actor s5) = Some ?b"
    using push_is_broadcast [of "client_connected ?cid c"] ca by (simp add: defs client_connected_def)
  moreover have "\<not> event_panics test_env (RadioFrame [0x83]) (actor s5)"
    by (simp add: log_panics_def)
  ultimately have "sys_step (ActorHandles test_env (RadioFrame [0x83])) s5 s6"
    using sys_step.handles [of "RadioFrame [0x83]" test_env s5 ?b] test_env_ok by (simp add: s6_def own_event_def)
  note r = next_step [OF r this]
  have "sys_step (BroadcastWrite ?cid) s6 s7"
    using sys_step.writes_broadcast [of s6 ?cid "?k (conn_parser demo_connection)"] ca
    by (simp add: defs write_broadcast_def put_connection_def hm_insert_def hm_get_def broadcast_def lagged_def
        client_connected_def
        BROADCAST_CAPACITY_def demo_connection_def e)
  note r = next_step [OF r this]
  have "?run demo_labels s7" using r by (simp add: demo_labels_def)
  moreover have "inbox (actor s7) ?cid = Some [] \<and> broadcast_out (actor s7) = [[0x83]]"
    using ca by (simp add: defs inbox_def broadcast_def client_connected_def hm_simps)
  moreover have "in_flight (actor s7) \<noteq> None \<and> sessions (actor s7) = [] \<and> conf (actor s7) = test_config"
    using ca by (auto simp: defs broadcast_def client_connected_def)
  ultimately show ?thesis by (intro exI [of _ s7]) (simp add: defs hm_get_def)
qed
section \<open>The actor and the connections agree\<close>

lemma hm_get_remove_key [simp]: "hm_get (hm_remove k m) j = (if j = k then None else hm_get m j)"
  by (simp add: hm_get_def hm_remove_def delete_conv')

lemma channels_ops [simp]:
  "client_channels (client_connected cid c) = hm_insert cid [] (client_channels c)"
  "client_channels (client_disconnected cid c) = hm_remove cid (client_channels c)"
  "broadcast_out (client_connected cid c) = broadcast_out c"
  "broadcast_out (client_disconnected cid c) = broadcast_out c"
  by (simp_all add: client_connected_def client_disconnected_def)

lemma alive_ops [simp]:
  "client_is_alive (client_connected cid c) d \<longleftrightarrow> d = cid \<or> client_is_alive c d"
  "client_is_alive (client_disconnected cid c) d \<longleftrightarrow> d \<noteq> cid \<and> client_is_alive c d"
  by (simp_all add: client_is_alive_def hm_contains_def hm_simps)

lemma inbox_ops [simp]:
  "inbox (client_connected cid c) d = (if d = cid then Some [] else inbox c d)"
  "inbox (client_disconnected cid c) d = (if d = cid then None else inbox c d)"
  by (simp_all add: inbox_def hm_simps)

lemma reachable_connected: "reachable c \<Longrightarrow> reachable (client_connected cid c)"
  by (rule reachable.step [OF _ test_env_ok, where ev = "ClientConnected cid"]) simp_all

lemma reachable_disconnected: "reachable c \<Longrightarrow> reachable (client_disconnected cid c)"
  by (rule reachable.step [OF _ test_env_ok, where ev = "ClientDisconnected cid"]) simp_all

lemma front_ops [simp]:
  "connections (open_frontend b f) = connections f"
  "command_queue (open_frontend b f) = command_queue f"
  "next_client_id (open_frontend b f) = next_client_id f"
  "spawned_handlers (open_frontend b f) = spawned_handlers f"
  by (simp_all add: open_frontend_def split: option.split)

lemma read_client_simps [simp]:
  "connections (read_client cid k d f) = hm_insert cid (k\<lparr>conn_parser := fst (feed (conn_parser k) d)\<rparr>) (connections f)"
  "command_queue (read_client cid k d f) = command_queue f @ map (command_of cid (conn_port k)) (snd (feed (conn_parser k) d))"
  "next_client_id (read_client cid k d f) = next_client_id f"
  "spawned_handlers (read_client cid k d f) = spawned_handlers f"
  by (simp_all add: read_client_def put_connection_def split_def Let_def)

lemmas front_defs = close_frontend_def stop_frontend_def accept_client_def
  start_client_def client_id_new_def write_direct_def write_broadcast_def
  close_client_def put_connection_def new_connection_def

text \<open>What an event of the actor does to the rest.\<close>

lemma actor_steps:
  assumes "sys_step l s t" and "(\<exists>env cmd. l = ActorTakes env cmd) \<or> (\<exists>env ev. l = ActorHandles env ev)"
  shows "extends (actor s) (actor t)" and "connections (front t) = connections (front s)"
    and "next_client_id (front t) = next_client_id (front s)"
    and "spawned_handlers (front t) = spawned_handlers (front s)"
    and "reachable (actor s) \<Longrightarrow> reachable (actor t)"
  using assms reachable.step [of "actor s" _ "ClientCommandEvent _" "actor t"]
  by (auto elim!: sys_stepE simp: own_event_def extends_client_command extends_event intro: reachable.step)

definition agree :: "system \<Rightarrow> bool" where
  "agree s \<longleftrightarrow> reachable (actor s) \<and>
     (\<forall>cid. client_is_alive (actor s) cid \<longleftrightarrow> connection_of s cid \<noteq> None)"

lemma agree_step: "sys_step l s t \<Longrightarrow> agree s \<Longrightarrow> agree t"
proof -
  assume l: "sys_step l s t" and s: "agree s"
  show "agree t"
  proof (cases "(\<exists>env cmd. l = ActorTakes env cmd) \<or> (\<exists>env ev. l = ActorHandles env ev)")
    case True
    then show ?thesis using actor_steps [OF l True] s extends_alive by (auto simp: agree_def)
  next
    case False
    then show ?thesis using l s
      by (auto elim!: sys_stepE simp: agree_def front_defs hm_simps Let_def reachable_connected
          reachable_disconnected split: if_splits)
  qed
qed

lemma agree_new: "booted c \<Longrightarrow> agree (new_system c)"
  by (simp add: agree_def booted_def new_system_def new_frontend_def hm_simps)

lemma runs_invariant:
  "runs s ls t \<Longrightarrow> I s \<Longrightarrow> (\<And>l u v. sys_step l u v \<Longrightarrow> I u \<Longrightarrow> I v) \<Longrightarrow> I t"
  by (induction rule: runs.induct) blast+

text \<open>C10. Every run of the whole program is, seen from the actor, one of the runs the actor was
  verified for: its state is reachable, and the clients it can send to are exactly those with an
  open connection.\<close>

theorem system_refines_actor:
  "booted c \<Longrightarrow> runs (new_system c) ls s \<Longrightarrow>
   reachable (actor s) \<and> (\<forall>cid. client_is_alive (actor s) cid \<longleftrightarrow> hm_contains (connections (front s)) cid)"
  using runs_invariant [of "new_system c" ls s agree] agree_new agree_step
  by (auto simp: agree_def hm_contains_def)

theorem system_refines_actor_witness:
  "\<exists>s. runs (new_system idle_core) demo_labels s \<and> reachable (actor s) \<and>
     client_is_alive (actor s) (ClientId 1)"
proof -
  obtain s where r: "runs (new_system idle_core) demo_labels s"
    and k: "connection_of s (ClientId 1) = Some demo_connection" using demo_run by blast
  from system_refines_actor [OF booted_idle r] k r show ?thesis by (auto simp: hm_contains_def)
qed

section \<open>Ids of clients\<close>

fun started_by :: "label \<Rightarrow> client_id list" where
  "started_by (HandlerStarts cid) = [cid]"
| "started_by l = []"

definition started :: "label list \<Rightarrow> client_id list" where
  "started ls = concat (map started_by ls)"

lemma started_simps [simp]: "started [] = []" "started (ls @ [l]) = started ls @ started_by l"
  by (simp_all add: started_def)

definition nth_client :: "nat \<Rightarrow> client_id" where
  "nth_client n = ClientId (word_of_nat (Suc n))"

lemma nth_client_inj: "i < 2 ^ 64 \<Longrightarrow> j < 2 ^ 64 \<Longrightarrow> nth_client i = nth_client j \<Longrightarrow> i = j"
proof -
  assume l: "i < 2 ^ 64" "j < 2 ^ 64" and "nth_client i = nth_client j"
  then have "(word_of_nat i :: u64) = word_of_nat j" by (simp add: nth_client_def)
  then have "unat (word_of_nat i :: u64) = unat (word_of_nat j :: u64)" by simp
  then show "i = j" using l by (simp add: unat_of_nat)
qed

lemma next_id_step:
  "sys_step l s t \<Longrightarrow> next_client_id (front s) = word_of_nat (Suc n) \<Longrightarrow>
   next_client_id (front t) = word_of_nat (Suc (n + length (started_by l)))"
  by (auto elim!: sys_stepE simp: front_defs Let_def)

lemma ids_counted:
  "runs (new_system c) ls t \<Longrightarrow> next_client_id (front t) = word_of_nat (Suc (length (started ls))) \<and>
     started ls = map nth_client [0..<length (started ls)]"
proof (induction rule: runs.induct)
  case none
  then show ?case by (simp add: new_system_def new_frontend_def)
next
  case (next_step ls t l u)
  have "started_by l = map nth_client [length (started ls)..<length (started ls) + length (started_by l)]"
    using next_step by (auto elim!: sys_stepE simp: client_id_new_def nth_client_def)
  then have "started ls @ started_by l = map nth_client [0..<length (started ls @ started_by l)]"
    using next_step.IH by (metis le0 length_append map_append upt_add_eq_append)
  then show ?case using next_id_step [OF next_step.hyps(2)] next_step.IH by simp
qed

lemma ids_of_runs:
  assumes "runs (new_system c) ls s" and "length (started ls) < 2 ^ 64"
  shows "started ls = map nth_client [0..<length (started ls)] \<and> distinct (started ls)"
proof -
  have s: "started ls = map nth_client [0..<length (started ls)]" using ids_counted [OF assms(1)] by simp
  have "distinct (map nth_client [0..<length (started ls)])"
    using assms(2) nth_client_inj by (auto simp: distinct_map intro!: inj_onI)
  with s show ?thesis by simp
qed

text \<open>C31. The n-th connection ever handled has the id n, and no two connections have the same id
  before the 64-bit counter wraps around.\<close>

theorem ids_never_reused:
  assumes "runs (new_system c) ls s" and "length (started ls) < 2 ^ 64"
  shows "started ls = map nth_client [0..<length (started ls)] \<and> distinct (started ls)"
  by (rule ids_of_runs [OF assms])

theorem ids_never_reused_witness:
  "\<exists>s. runs (new_system idle_core) demo_labels s \<and> started demo_labels = [nth_client 0] \<and>
     distinct (started demo_labels)"
proof -
  obtain s where r: "runs (new_system idle_core) demo_labels s" using demo_run by blast
  have "started demo_labels = [ClientId 1]" by (simp add: started_def demo_labels_def)
  with ids_never_reused [OF r] r show ?thesis by auto
qed

section \<open>What a client sends\<close>

fun sent_by :: "client_id \<Rightarrow> label \<Rightarrow> frame" where
  "sent_by cid (ClientSends c data) = (if c = cid then data else [])"
| "sent_by cid l = []"

definition sent :: "client_id \<Rightarrow> label list \<Rightarrow> frame" where
  "sent cid ls = concat (map (sent_by cid) ls)"

fun taken_by :: "label \<Rightarrow> client_command list" where
  "taken_by (ActorTakes env cmd) = [cmd]"
| "taken_by l = []"

definition taken :: "label list \<Rightarrow> client_command list" where
  "taken ls = concat (map taken_by ls)"

lemma sent_taken_simps [simp]:
  "sent cid [] = []" "sent cid (ls @ [l]) = sent cid ls @ sent_by cid l"
  "taken [] = []" "taken (ls @ [l]) = taken ls @ taken_by l"
  by (simp_all add: sent_def taken_def)

text \<open>The commands of a client: those the actor has taken and those that wait in its queue.\<close>

definition commands_of :: "client_id \<Rightarrow> label list \<Rightarrow> system \<Rightarrow> client_command list" where
  "commands_of cid ls s = filter (\<lambda>cmd. command_client cmd = cid) (taken ls @ command_queue (front s))"

lemma commands_of_command_of [simp]:
  "filter (\<lambda>cmd. command_client cmd = cid) (map (command_of c port) fs) =
     (if c = cid then map (command_of c port) fs else [])"
  by (auto simp: filter_map comp_def command_of_def)

text \<open>Only reading adds a command.\<close>

lemma commands_step:
  assumes "sys_step l s t"
  shows "commands_of cid (ls @ [l]) t = commands_of cid ls s @
    (case l of ClientSends c data \<Rightarrow>
        (if c = cid then map (command_of cid (conn_port (the (connection_of s cid))))
           (snd (feed (conn_parser (the (connection_of s cid))) data)) else [])
      | _ \<Rightarrow> [])"
  using assms by (auto elim!: sys_stepE simp: commands_of_def front_defs Let_def)

definition port_inv :: "label list \<Rightarrow> system \<Rightarrow> bool" where
  "port_inv ls s \<longleftrightarrow> (\<forall>h \<in> set (spawned_handlers (front s)). Accepts (spawned_port h) \<in> set ls)"

lemma port_inv_step: "sys_step l s t \<Longrightarrow> port_inv ls s \<Longrightarrow> port_inv (ls @ [l]) t"
proof (cases "\<exists>cid. l = HandlerStarts cid")
  case True
  assume "sys_step l s t"
  with True obtain n where "spawned_handlers (front t) =
      take n (spawned_handlers (front s)) @ drop (Suc n) (spawned_handlers (front s))"
    by (auto elim!: sys_stepE simp: front_defs Let_def)
  then have "set (spawned_handlers (front t)) \<subseteq> set (spawned_handlers (front s))"
    using set_take_subset [of n "spawned_handlers (front s)"] set_drop_subset [of "Suc n" "spawned_handlers (front s)"]
    by auto
  moreover assume "port_inv ls s"
  ultimately show ?thesis by (auto simp: port_inv_def)
qed (auto elim!: sys_stepE simp: port_inv_def front_defs Let_def)

definition untouched :: "client_id \<Rightarrow> label list \<Rightarrow> system \<Rightarrow> bool" where
  "untouched cid ls s \<longleftrightarrow> connection_of s cid = None \<and> sent cid ls = [] \<and> commands_of cid ls s = []"

definition reads_from :: "client_id \<Rightarrow> u16 \<Rightarrow> label list \<Rightarrow> system \<Rightarrow> bool" where
  "reads_from cid port ls s \<longleftrightarrow> Accepts port \<in> set ls \<and>
     commands_of cid ls s = map (command_of cid port) (fst (parse_stream (sent cid ls))) \<and>
     (\<forall>k. connection_of s cid = Some k \<longrightarrow> conn_port k = port \<and> parser_wf (conn_parser k) \<and>
        undecoded (conn_parser k) = snd (parse_stream (sent cid ls)))"

text \<open>Connections after a step, for all but the labels of their own reading and starting.\<close>

lemma connection_step:
  assumes "sys_step l s t" and "connection_of t cid = Some k" and "l \<noteq> HandlerStarts cid"
    and "\<nexists>data. l = ClientSends cid data"
  shows "\<exists>k'. connection_of s cid = Some k' \<and> conn_port k = conn_port k' \<and> conn_parser k = conn_parser k'"
  using assms by (auto elim!: sys_stepE simp: front_defs Let_def hm_simps split: if_splits)

lemma untouched_step:
  assumes "sys_step l s t" and "untouched cid ls s" and "l \<noteq> HandlerStarts cid"
  shows "untouched cid (ls @ [l]) t"
proof -
  have n: "\<nexists>data. l = ClientSends cid data"
    using assms by (auto simp: untouched_def sends_iff)
  then have "sent_by cid l = []" by (cases l) auto
  moreover have "connection_of t cid = None"
    using connection_step [OF assms(1) _ assms(3) n] assms(2) by (cases "connection_of t cid") (auto simp: untouched_def)
  ultimately show ?thesis
    using assms(2) n commands_step [OF assms(1), of cid ls] by (auto simp: untouched_def split: label.splits)
qed

lemma reads_step:
  assumes l: "sys_step l s t" and r: "reads_from cid port ls s" and "l \<noteq> HandlerStarts cid"
  shows "reads_from cid port (ls @ [l]) t"
proof (cases "\<exists>data. l = ClientSends cid data")
  case True
  then obtain data where d: "l = ClientSends cid data" by blast
  then obtain k where k: "connection_of s cid = Some k"
    and t: "t = s\<lparr>front := read_client cid k data (front s)\<rparr>" using l by (auto simp: sends_iff)
  obtain q fs where f: "feed (conn_parser k) data = (q, fs)" by fastforce
  let ?p = "parse_stream (sent cid ls)"
  have "parser_wf q \<and> parse_stream (snd ?p @ data) = (fs, undecoded q)"
    using decoder.step_refines [OF _ f] r k by (auto simp: reads_from_def)
  then have "parser_wf q" and "parse_stream (sent cid ls @ data) = (fst ?p @ fs, undecoded q)"
    using parse_stream_append [of "sent cid ls" "fst ?p" "snd ?p" data] by simp_all
  then show ?thesis
    using r k f d t commands_step [OF l, of cid ls] by (auto simp: reads_from_def hm_simps)
next
  case False
  then have n: "sent_by cid l = []" "commands_of cid (ls @ [l]) t = commands_of cid ls s"
    using commands_step [OF l, of cid ls] by (cases l; auto)+
  show ?thesis
    using r connection_step [OF l _ assms(3)] False by (fastforce simp: reads_from_def n)
qed

lemma reads_start:
  assumes "sys_step (HandlerStarts cid) s t" and "untouched cid ls s" and "port_inv ls s"
  shows "\<exists>port. reads_from cid port (ls @ [HandlerStarts cid]) t"
proof -
  obtain n where n: "n < length (spawned_handlers (front s))" "t = start_client n s"
    "cid = fst (client_id_new (front s))"
    using assms(1) by (auto elim: sys_stepE)
  let ?h = "spawned_handlers (front s) ! n"
  have "connection_of t cid = Some (new_connection ?h)"
    using n by (simp add: front_defs Let_def hm_simps)
  moreover have "Accepts (spawned_port ?h) \<in> set ls" using n(1) assms(3) by (simp add: port_inv_def)
  moreover have "commands_of cid (ls @ [HandlerStarts cid]) t = []"
    using commands_step [OF assms(1), of cid ls] assms(2) by (simp add: untouched_def)
  ultimately have "reads_from cid (spawned_port ?h) (ls @ [HandlerStarts cid]) t"
    using assms(2) by (simp add: reads_from_def untouched_def new_connection_def)
  then show ?thesis by blast
qed

lemma commands_decoded:
  assumes "runs (new_system c) ls s"
  shows "length (started ls) < 2 ^ 64 \<Longrightarrow> port_inv ls s \<and>
    (if cid \<in> set (started ls) then \<exists>port. reads_from cid port ls s else untouched cid ls s)"
  using assms
proof (induction rule: runs.induct)
  case none
  then show ?case
    by (simp add: port_inv_def untouched_def commands_of_def new_system_def new_frontend_def hm_simps)
next
  case (next_step ls t l u)
  have d: "distinct (started (ls @ [l]))"
    using ids_of_runs [OF runs.next_step [OF next_step.hyps] next_step.prems] by (rule conjunct2)
  note ih = next_step.IH [OF le_less_trans [OF _ next_step.prems]]
  show ?case
  proof (cases "l = HandlerStarts cid")
    case True
    then show ?thesis
      using ih reads_start [of cid t u ls] port_inv_step [of l t u ls] next_step.hyps d by simp
  next
    case False
    then have "cid \<in> set (started (ls @ [l])) \<longleftrightarrow> cid \<in> set (started ls)" by (cases l) auto
    then show ?thesis
      using False ih reads_step [of l t u cid _ ls] untouched_step [of l t u cid ls]
        port_inv_step [of l t u ls] next_step.hyps
      by (simp split: if_splits; blast)
  qed
qed

text \<open>C13. Every command of a client in the actor's queue or already taken from it is a frame the
  client sent, in the order sent, none lost and none mixed up with another client's; it carries
  the port the client connected to.\<close>

theorem client_commands_decoded:
  assumes "runs (new_system c) ls s" and "length (started ls) < 2 ^ 64"
  shows "commands_of cid ls s = [] \<and> sent cid ls = [] \<or>
    (\<exists>port. Accepts port \<in> set ls \<and>
       commands_of cid ls s = map (command_of cid port) (fst (parse_stream (sent cid ls))))"
  using commands_decoded [OF assms, of cid] by (auto simp: untouched_def reads_from_def split: if_splits)

theorem client_commands_decoded_witness:
  "\<exists>s port. runs (new_system idle_core) demo_labels s \<and> Accepts port \<in> set demo_labels \<and>
     commands_of (ClientId 1) demo_labels s = [command_of (ClientId 1) port [0x0a]]"
proof -
  obtain s where r: "runs (new_system idle_core) demo_labels s" using demo_run by blast
  have l: "length (started demo_labels) < 2 ^ 64" by (simp add: started_def demo_labels_def)
  have s: "sent (ClientId 1) demo_labels = [0x3c, 1, 0, 0x0a, 0x3c]" by (simp add: sent_def demo_labels_def)
  have "fst (parse_stream [0x3c, 1, 0, 0x0a, 0x3c]) = [[0x0a]]" by code_simp
  with client_commands_decoded [OF r l, of "ClientId 1"] r s show ?thesis by auto
qed

section \<open>What a client gets\<close>

definition framed_all :: "frame list \<Rightarrow> frame" where
  "framed_all ps = concat (map encode_response ps)"

lemma framed_all_decoded:
  "\<forall>p \<in> set ps. length p < 2 ^ 16 \<Longrightarrow> parse_stream (framed_all ps) = (ps, [])"
  by (induction ps)
    (simp_all add: framed_all_def encode_response_def parse_stream_encode is_header_def)

text \<open>The frames written, each with whether it came from the direct channel.\<close>

definition of_direct :: "(bool \<times> frame) list \<Rightarrow> frame list" where
  "of_direct ws = map snd (filter fst ws)"

definition of_broadcast :: "(bool \<times> frame) list \<Rightarrow> frame list" where
  "of_broadcast ws = map snd (filter (\<lambda>w. \<not> fst w) ws)"

lemma of_simps [simp]:
  "of_direct [] = []" "of_broadcast [] = []"
  "of_direct (ws @ [(True, p)]) = of_direct ws @ [p]" "of_direct (ws @ [(False, p)]) = of_direct ws"
  "of_broadcast (ws @ [(True, p)]) = of_broadcast ws"
  "of_broadcast (ws @ [(False, p)]) = of_broadcast ws @ [p]"
  by (simp_all add: of_direct_def of_broadcast_def)

lemma set_written: "snd ` set ws = set (of_direct ws) \<union> set (of_broadcast ws)"
  by (force simp: of_direct_def of_broadcast_def)

text \<open>The broadcasts of a receiver that started at \<open>start\<close> and is at \<open>pos\<close>: some of those between,
  and all of them while no more than the capacity were ever sent.\<close>

definition receives :: "nat \<Rightarrow> frame list \<Rightarrow> frame list \<Rightarrow> bool" where
  "receives pos out bs \<longleftrightarrow> pos \<le> length out \<and> subseq bs (take pos out) \<and>
     (length out \<le> BROADCAST_CAPACITY \<longrightarrow> (\<exists>start \<le> pos. bs = drop start (take pos out)))"

lemma receives_more: "receives pos out bs \<Longrightarrow> receives pos (out @ new) bs"
  by (auto simp: receives_def)

lemma receives_start: "pos \<le> length out \<Longrightarrow> receives pos out []"
  by (auto simp: receives_def)

lemma receives_next:
  assumes "receives pos out bs" and "pos < length out"
  shows "receives (Suc pos) out (bs @ [out ! pos])"
proof -
  have "\<exists>start \<le> Suc pos. bs @ [out ! pos] = drop start (take pos out @ [out ! pos])"
    if small: "length out \<le> BROADCAST_CAPACITY"
  proof -
    obtain start where "start \<le> pos" "bs = drop start (take pos out)"
      using small assms(1) by (auto simp: receives_def)
    then show ?thesis using assms(2) by (intro exI [of _ start]) simp
  qed
  then show ?thesis using assms by (simp add: receives_def take_Suc_conv_app_nth)
qed

lemma receives_lagged:
  assumes "receives pos out bs" and "pos + BROADCAST_CAPACITY < length out"
  shows "receives (length out - BROADCAST_CAPACITY) out bs"
proof -
  let ?n = "length out - BROADCAST_CAPACITY"
  have "subseq (take pos (take ?n out)) (take ?n out)" by (intro prefix_imp_subseq take_is_prefix)
  moreover have "pos \<le> ?n" using assms(2) by arith
  then have "take pos (take ?n out) = take pos out" by (simp add: min_absorb1)
  ultimately show ?thesis
    using assms subseq_order.trans [of bs "take pos out"] by (simp add: receives_def)
qed

definition written :: "connection \<Rightarrow> frame list \<Rightarrow> frame list \<Rightarrow> (bool \<times> frame) list \<Rightarrow> bool" where
  "written k q out ws \<longleftrightarrow> conn_written k = framed_all (map snd ws) \<and> direct_taken k \<le> length q \<and>
     of_direct ws = take (direct_taken k) q \<and> receives (broadcast_pos k) out (of_broadcast ws)"

lemma written_more: "written k q out ws \<Longrightarrow> written k (q @ q') (out @ out') ws"
  by (simp add: written_def receives_more)

lemma written_same:
  "written k q out ws \<Longrightarrow> written (k\<lparr>conn_parser := p\<rparr>) q out ws"
  by (simp add: written_def)

lemma written_direct:
  "written k q out ws \<Longrightarrow> direct_taken k < length q \<Longrightarrow>
   written (k\<lparr>direct_taken := direct_taken k + 1,
     conn_written := conn_written k @ encode_response (q ! direct_taken k)\<rparr>) q out
     (ws @ [(True, q ! direct_taken k)])"
  by (simp add: written_def framed_all_def take_Suc_conv_app_nth)

lemma written_broadcast:
  "written k q out ws \<Longrightarrow> broadcast_pos k < length out \<Longrightarrow>
   written (k\<lparr>broadcast_pos := broadcast_pos k + 1,
     conn_written := conn_written k @ encode_response (out ! broadcast_pos k)\<rparr>) q out
     (ws @ [(False, out ! broadcast_pos k)])"
  by (simp add: written_def framed_all_def receives_next)

lemma written_lagged:
  "written k q out ws \<Longrightarrow> broadcast_pos k + BROADCAST_CAPACITY < length out \<Longrightarrow>
   written (k\<lparr>broadcast_pos := length out - BROADCAST_CAPACITY\<rparr>) q out ws"
  using receives_lagged [of "broadcast_pos k" out] by (simp add: written_def)

definition write_inv :: "system \<Rightarrow> bool" where
  "write_inv s \<longleftrightarrow>
     (\<forall>h \<in> set (spawned_handlers (front s)). spawned_pos h \<le> length (broadcast_out (actor s))) \<and>
     (\<forall>cid k. connection_of s cid = Some k \<longrightarrow>
        (\<exists>q ws. inbox (actor s) cid = Some q \<and> written k q (broadcast_out (actor s)) ws))"

lemma write_invE:
  assumes "write_inv s" and "connection_of s cid = Some k"
  obtains q ws where "inbox (actor s) cid = Some q" "written k q (broadcast_out (actor s)) ws"
  using assms unfolding write_inv_def by blast

lemma write_inv_new: "write_inv (new_system c)"
  by (simp add: write_inv_def new_system_def new_frontend_def hm_simps)

lemma write_inv_extends:
  assumes "write_inv s" and e: "extends (actor s) (actor t)"
    and f: "connections (front t) = connections (front s)" "spawned_handlers (front t) = spawned_handlers (front s)"
  shows "write_inv t"
proof -
  obtain new where new: "broadcast_out (actor t) = broadcast_out (actor s) @ new"
    using e by (auto simp: extends_def)
  have "\<exists>q ws. inbox (actor t) cid = Some q \<and> written k q (broadcast_out (actor t)) ws"
    if k: "connection_of s cid = Some k" for cid k
  proof -
    obtain q ws where q: "inbox (actor s) cid = Some q" "written k q (broadcast_out (actor s)) ws"
      using write_invE [OF assms(1) k] .
    obtain more' where "inbox (actor t) cid = Some (q @ more')" using extends_inbox [OF e q(1)] .
    then show ?thesis using written_more [OF q(2)] new by auto
  qed
  then show ?thesis using assms(1) new f by (auto simp: write_inv_def intro: trans_le_add1)
qed

text \<open>A step that touches one connection.\<close>

lemma write_inv_put:
  assumes "write_inv s" and "inbox (actor s) cid = Some q" and "written k q (broadcast_out (actor s)) ws"
    and "actor t = actor s" and "spawned_handlers (front t) = spawned_handlers (front s)"
    and "connections (front t) = hm_insert cid k (connections (front s))"
  shows "write_inv t"
  using assms by (auto simp: write_inv_def hm_simps)

lemma write_inv_step: "sys_step l s t \<Longrightarrow> write_inv s \<Longrightarrow> write_inv t"
proof (induction rule: sys_step.induct)
  case (starts n s cid)
  let ?h = "spawned_handlers (front s) ! n"
  have h: "spawned_pos ?h \<le> length (broadcast_out (actor s))"
    using starts by (simp add: write_inv_def)
  then have "written (new_connection ?h) [] (broadcast_out (actor s)) []"
    by (simp add: written_def new_connection_def framed_all_def receives_start)
  moreover have "set (take n xs @ drop (Suc n) xs) \<subseteq> set xs" for xs :: "spawned list"
    using set_take_subset [of n xs] set_drop_subset [of "Suc n" xs] by auto
  ultimately show ?case
    using starts by (auto simp: write_inv_def start_client_def client_id_new_def put_connection_def
        Let_def hm_simps)
next
  case (reads s cid k data)
  obtain q ws where "inbox (actor s) cid = Some q" "written k q (broadcast_out (actor s)) ws"
    using write_invE [OF reads(4,1)] .
  from write_inv_put [OF reads(4) this(1) written_same [OF this(2)]] show ?case by simp
next
  case (writes_direct s cid k q)
  obtain ws where "written k q (broadcast_out (actor s)) ws"
    using write_invE [OF writes_direct(4,1)] writes_direct(2) by auto
  from write_inv_put [OF writes_direct(4,2) written_direct [OF this writes_direct(3)]]
  show ?case by (simp add: write_direct_def put_connection_def)
next
  case (writes_broadcast s cid k)
  obtain q ws where q: "inbox (actor s) cid = Some q" and w: "written k q (broadcast_out (actor s)) ws"
    using write_invE [OF writes_broadcast(3,1)] .
  show ?case
    using write_inv_put [OF writes_broadcast(3) q written_lagged [OF w]]
      write_inv_put [OF writes_broadcast(3) q written_broadcast [OF w writes_broadcast(2)]]
    by (simp add: write_broadcast_def put_connection_def lagged_def)
next
  case (takes s cmd rest env t)
  have "sys_step (ActorTakes env cmd) s (s\<lparr>actor := t, front := front s\<lparr>command_queue := rest\<rparr>\<rparr>)"
    by (rule sys_step.takes) (rule takes)+
  from actor_steps [OF this] write_inv_extends [OF takes(5)] show ?case by simp
next
  case (handles ev env s t)
  have "sys_step (ActorHandles env ev) s (s\<lparr>actor := t\<rparr>)" by (rule sys_step.handles) (rule handles)+
  from actor_steps [OF this] write_inv_extends [OF handles(5)] show ?case by simp
qed (auto simp: write_inv_def front_defs hm_simps split: if_splits)

text \<open>C14. A client that decodes the bytes written to its connection gets exactly the frames the actor
  put on its own channel, in order, and between them broadcast frames in order, with nothing left
  over; none of the broadcasts since it connected is missing as long as no more than 256 were sent.
  No frame may reach 65,536 bytes.\<close>

theorem client_stream_decoded:
  assumes "runs (new_system c) ls s"
    and "connection_of s cid = Some k" and "inbox (actor s) cid = Some q"
    and "\<forall>p \<in> set q \<union> set (broadcast_out (actor s)). length p < 2 ^ 16"
  shows "\<exists>ws. parse_stream (conn_written k) = (map snd ws, []) \<and>
    of_direct ws = take (direct_taken k) q \<and>
    receives (broadcast_pos k) (broadcast_out (actor s)) (of_broadcast ws)"
proof -
  have "write_inv s"
    by (rule runs_invariant [OF assms(1), where I = write_inv]) (rule write_inv_new, rule write_inv_step)
  then obtain ws where w: "written k q (broadcast_out (actor s)) ws"
    using write_invE [OF _ assms(2)] assms(3) by (metis option.inject)
  then have "set (of_broadcast ws) \<subseteq> set (take (broadcast_pos k) (broadcast_out (actor s)))"
    by (auto simp: written_def receives_def dest: list_emb_set)
  then have "set (of_direct ws) \<union> set (of_broadcast ws) \<subseteq> set q \<union> set (broadcast_out (actor s))"
    using w by (auto simp: written_def dest: in_set_takeD)
  then have "\<forall>p \<in> set (map snd ws). length p < 2 ^ 16" using assms(4) set_written [of ws] by auto
  from framed_all_decoded [OF this] w show ?thesis by (auto simp: written_def)
qed

theorem client_stream_decoded_witness:
  "\<exists>s k. runs (new_system idle_core) demo_labels s \<and> connection_of s (ClientId 1) = Some k \<and>
     parse_stream (conn_written k) = ([[0x83]], [])"
proof -
  obtain s where r: "runs (new_system idle_core) demo_labels s"
    and k: "connection_of s (ClientId 1) = Some demo_connection" "inbox (actor s) (ClientId 1) = Some []"
    and b: "broadcast_out (actor s) = [[0x83]]" using demo_run by blast
  have "snd (parse_stream (conn_written demo_connection)) = []"
    using client_stream_decoded [OF r k] b by auto
  moreover have "fst (parse_stream (conn_written demo_connection)) = [[0x83]]" by code_simp
  ultimately show ?thesis using r k by (metis prod.collapse)
qed

end
