(* ===== verification/Core_Provenance.thy ===== *)
theory Core_Provenance
  imports Core_Fifo System
begin

text \<open>
  What the radio is made to do: every command it gets is either one of the few the proxy has of
  its own (the handshake, the synchronization, the refresh of a contact) or a command a client
  sent, with the version of the proxy in a DEVICE_QUERY. The statement is proved for the actor,
  operation by operation, and then followed back through the frontend to the bytes of the clients.
\<close>

section \<open>The traffic of a state\<close>

text \<open>What is on its way to the radio: sent over the present connection, in flight or queued.\<close>

definition traffic :: "core \<Rightarrow> frame set" where
  "traffic s = set (radio_out s) \<union> snd ` set (work s)"

definition adds :: "frame set \<Rightarrow> core \<Rightarrow> core \<Rightarrow> bool" where
  "adds A s t \<longleftrightarrow> traffic t \<subseteq> traffic s \<union> Collect proxy_command \<union> A"

lemma adds_trans: "adds A s t \<Longrightarrow> adds B t u \<Longrightarrow> adds (A \<union> B) s u"
  by (auto simp: adds_def)

lemma adds_then: "adds {} s t \<Longrightarrow> adds A t u \<Longrightarrow> adds A s u"
  using adds_trans [of "{}" s t A u] by simp

lemma adds_subset: "traffic t \<subseteq> traffic s \<Longrightarrow> adds A s t"
  by (auto simp: adds_def)

lemma adds_wire: "wire t = wire s \<Longrightarrow> adds A s t"
  by (rule adds_subset) (simp add: traffic_def work_def wire_def)

lemma adds_proxy: "traffic t \<subseteq> insert p (traffic s) \<Longrightarrow> proxy_command p \<Longrightarrow> adds A s t"
  by (auto simp: adds_def)

section \<open>The operations\<close>

lemma traffic_iff:
  "p \<in> traffic s \<longleftrightarrow> p \<in> set (radio_out s) \<or> (\<exists>q \<in> set (pending_queue s). p = queued_payload q) \<or>
     (\<exists>f. in_flight s = Some f \<and> p = flight_payload f)"
  by (cases "in_flight s") (auto simp: traffic_def work_def image_image)

lemma traffic_push: "traffic (push_queue q s) = insert (queued_payload q) (traffic s)"
  by (auto simp: traffic_def work_def push_queue_def split: option.split)

lemma traffic_lower:
  "traffic (s\<lparr>in_flight := None\<rparr>) \<subseteq> traffic s"
  "pending_queue s = q # rest \<Longrightarrow> insert (queued_payload q) (traffic (s\<lparr>pending_queue := rest\<rparr>)) = traffic s"
  by (auto simp: traffic_def work_def split: option.split)

lemma adds_dispatch:
  assumes "dispatch_to_radio env c p s = Some t"
  shows "adds {p} s t"
  using dispatch_cases [OF assms]
proof
  assume "radio_send_tx s \<noteq> Some Open \<and> t = send_opt c error_frame s"
  then show ?thesis by (simp add: adds_wire)
next
  assume "radio_send_tx s = Some Open \<and> radio_out t = radio_out s @ [p] \<and>
      client_channels t = client_channels s \<and>
      (\<exists>f. in_flight t = Some f \<and> flight_payload f = p \<and> flight_client f = c)"
  then show ?thesis
    using dispatch_to_radio_queue [OF assms] by (auto simp: adds_def traffic_def work_def)
qed

lemma adds_enqueue: "enqueue_or_dispatch env c p s = Some t \<Longrightarrow> adds {p} s t"
  using adds_dispatch by (auto simp: enqueue_or_dispatch_def adds_def traffic_push split: if_splits)

text \<open>Taking the first entry off the queue and sending it.\<close>

lemma adds_serve_first:
  "pending_queue s = q # rest \<Longrightarrow> adds {queued_payload q} (s\<lparr>pending_queue := rest\<rparr>) t \<Longrightarrow> adds {} s t"
  using traffic_lower(2) [of s q rest] by (auto simp: adds_def)

lemma adds_advance: "advance_queue env s = Some t \<Longrightarrow> adds {} s t"
proof (induction s t rule: advance_queue_induct)
  case (Gone s q rest t)
  then show ?case using adds_serve_first adds_subset by (fastforce simp: adds_def)
next
  case (Sent s q rest t)
  then show ?case using adds_serve_first adds_dispatch by blast
next
  case (Failed s q rest s2 t)
  then show ?case using adds_serve_first [OF Failed(1) adds_dispatch] adds_then by blast
qed (simp add: adds_subset)

lemma adds_push: "proxy_command p \<Longrightarrow> adds A s (push_queue (internal p) s)"
  by (rule adds_proxy [of _ p]) (simp_all add: traffic_push internal_def)

lemma adds_client_command:
  assumes "handle_client_command env cmd s = Some t"
  shows "adds (snd ` set (request_of cmd)) s t"
  using assms
proof (cases rule: client_command_cases)
  case Served
  then show ?thesis by (rule adds_wire)
next
  case (Asked code rest u)
  then show ?thesis
    using adds_then [OF adds_wire [OF Asked(2)] adds_enqueue [OF Asked(3)]] by (simp add: request_of_def)
qed

section \<open>The life cycle\<close>

text \<open>The part of the traffic that is not the proxy's own.\<close>

definition relayed :: "core \<Rightarrow> in_flight_request option \<times> queued list \<times> frame list" where
  "relayed s = (in_flight s, pending_queue s, filter (\<lambda>p. \<not> proxy_command p) (radio_out s))"

lemma adds_relayed:
  assumes "relayed t = relayed s"
  shows "adds A s t"
proof -
  have "work t = work s" using assms by (simp add: relayed_def work_def)
  moreover have "set (filter (\<lambda>p. \<not> proxy_command p) (radio_out t)) = set (filter (\<lambda>p. \<not> proxy_command p) (radio_out s))"
    using assms by (simp only: relayed_def prod.inject)
  ultimately show ?thesis by (auto simp: adds_def traffic_def)
qed

lemma relayed_cache: "cache_response env code p s = Some t \<Longrightarrow> relayed t = relayed s"
  using wire_cache_response [of env code p s t] by (simp add: wire_def relayed_def)

lemma adds_initialize: "initialize_radio env evs s = Some r \<Longrightarrow> adds {} s (snd r)"
  by (rule adds_relayed, rule initialize_radio_same [where g = relayed])
    (auto intro: relayed_cache, auto simp: send_to_radio_Inr relayed_def)

lemma adds_connect: "connect_backend env dial s = Inr t \<Longrightarrow> adds {} s t"
  by (auto simp: connect_backend_def adds_def traffic_iff split: sum.splits if_splits)

lemma adds_queue_sync: "adds {} s (queue_sync s)"
  by (auto simp: adds_def traffic_iff queue_sync_def internal_def)

lemma adds_advance_sync: "advance_queue_sync env s = Some t \<Longrightarrow> adds {} s t"
proof (induction s t rule: advance_sync_induct)
  case (Gone s q rest t)
  then have "adds {queued_payload q} (s\<lparr>pending_queue := rest\<rparr>) t" by (auto simp: adds_def)
  then show ?case by (rule adds_serve_first [OF Gone(1)])
next
  case (Unsent s q rest c)
  show ?case by (rule adds_serve_first [OF Unsent]) (simp add: adds_wire)
next
  case (Sent s q rest f)
  show ?case by (rule adds_serve_first [OF Sent(1)]) (use Sent in \<open>auto simp: adds_def traffic_iff\<close>)
qed (simp add: adds_subset)

lemma adds_sync: "sync_from_radio env s = Some t \<Longrightarrow> adds {} s t"
  using adds_queue_sync adds_then [OF adds_queue_sync adds_advance_sync]
  by (auto simp: sync_from_radio_def Let_def split: if_splits)

lemma adds_updates: "adds A s (s\<lparr>radio_up := u\<rparr>)" "adds A s (s\<lparr>radio_send_tx := x\<rparr>)"
  by (simp_all add: adds_subset traffic_def work_def)

lemma adds_fail_all: "adds {} s (fail_all s)"
proof -
  have "radio_out (send_opt c p u) = radio_out u" for c p u
    using wire_simps(4) [of c p u] by (simp add: wire_def)
  then have "radio_out (fail_all s) = radio_out s"
    by (simp add: fail_all_def Let_def fold_same split: option.split)
  then show ?thesis
    using link_fail_all [of s] by (auto simp: adds_def traffic_iff link_def)
qed

interpretation own_walk: event_relation "adds {}"
proof
  show "adds {} s u" if "adds {} s t" "adds {} t u" for s t u by (rule adds_then [OF that])
  show "adds {} s ((deliver_reply env (flight_client f) cmd code p s)\<lparr>in_flight := None\<rparr>)"
    "adds {} s ((deliver_reply env (flight_client f) cmd code p s)\<lparr>in_flight := Some (f\<lparr>last_activity := n\<rparr>)\<rparr>)"
    "adds {} s (send_opt (flight_client f) error_frame (s\<lparr>in_flight := None\<rparr>))"
    if "in_flight s = Some f" for s f env cmd code p n
    using that wire_deliver_reply [of env "flight_client f" cmd code p s]
      wire_simps(4) [of "flight_client f" error_frame "s\<lparr>in_flight := None\<rparr>"]
    by (auto intro!: adds_subset simp: traffic_iff wire_def)
qed (auto intro: adds_wire adds_push adds_advance adds_fail_all adds_updates adds_connect adds_initialize adds_sync face_wire)

lemma adds_event:
  assumes "handle_event env ev s = Some t"
  shows "adds (snd ` set (requested ev)) s t"
proof (cases "(\<exists>cmd. ev = ClientCommandEvent cmd) \<or> (\<exists>cid. ev = ClientConnected cid \<or> ev = ClientDisconnected cid)")
  case True
  then consider (Asks) cmd where "ev = ClientCommandEvent cmd" | (Idle) "requested ev = []" "wire t = wire s"
    using assms(1) by (auto simp: client_connected_def client_disconnected_def)
  then show ?thesis using assms adds_client_command by cases (auto simp: adds_wire)
next
  case False
  then have "requested ev = []" by (cases ev) auto
  with False show ?thesis using own_walk.event_rel [OF assms] by auto
qed

section \<open>Back to the clients\<close>

text \<open>What a client's frame is sent to the radio as.\<close>

definition relayed_as :: "frame \<Rightarrow> frame \<Rightarrow> bool" where
  "relayed_as f p \<longleftrightarrow> f \<noteq> [] \<and> p = forwarded_payload (hd f) f"

lemma request_relayed: "p \<in> snd ` set (request_of cmd) \<longleftrightarrow> relayed_as (command_payload cmd) p"
  by (cases "command_payload cmd") (auto simp: request_of_def relayed_as_def)

lemma adds_sys_step:
  assumes "sys_step l s t"
  shows "adds {p. \<exists>cmd \<in> set (taken_by l). relayed_as (command_payload cmd) p} (actor s) (actor t)"
  using assms
proof (cases rule: sys_step.cases)
  case (takes cmd rest env c)
  then show ?thesis using adds_client_command [OF takes(6)] by (simp add: adds_def request_relayed subset_iff)
next
  case (handles ev env c)
  then have "requested ev = []" by (cases ev) (simp_all add: own_event_def)
  then show ?thesis using handles adds_event [OF handles(6)] by (simp add: adds_def)
qed (auto intro!: adds_subset simp: front_defs traffic_def work_def client_connected_def
      client_disconnected_def Let_def)

lemma traffic_of_runs:
  assumes "runs s ls t"
  shows "adds {p. \<exists>cmd \<in> set (taken ls). relayed_as (command_payload cmd) p} (actor s) (actor t)"
  using assms
proof (induction rule: runs.induct)
  case (next_step ls t l u)
  from adds_trans [OF next_step.IH adds_sys_step [OF next_step.hyps(2)]] show ?case
    by (auto simp: adds_def)
qed (simp add: adds_subset)

lemma taken_was_sent:
  assumes "runs (new_system c) ls s" and "length (started ls) < 2 ^ 64" and "cmd \<in> set (taken ls)"
  shows "command_payload cmd \<in> set (fst (parse_stream (sent (command_client cmd) ls)))"
proof -
  let ?cid = "command_client cmd"
  have "cmd \<in> set (commands_of ?cid ls s)" using assms(3) by (simp add: commands_of_def)
  then obtain port f where f: "cmd = command_of ?cid port f" "f \<in> set (fst (parse_stream (sent ?cid ls)))"
    using commands_decoded [OF assms(1,2), of ?cid]
    by (auto simp: untouched_def reads_from_def split: if_splits)
  have "command_payload cmd = f" by (subst f(1)) (simp add: command_of_def)
  with f(2) show ?thesis by simp
qed

lemma traffic_asked_for:
  assumes "startup env dial evs as (new_core cfg d) = Some (r, c)"
    and "runs (new_system c) ls s" and "length (started ls) < 2 ^ 64"
    and "p \<in> traffic (actor s)"
  shows "proxy_command p \<or>
    (\<exists>cid. \<exists>f \<in> set (fst (parse_stream (sent cid ls))). relayed_as f p)"
proof -
  have "traffic (new_core cfg d) = {}" by (simp add: traffic_def work_def new_core_def)
  then have "traffic c \<subseteq> Collect proxy_command"
    using own_walk.startup_rel [OF assms(1)] by (simp add: adds_def new_core_def)
  then have "proxy_command p \<or> (\<exists>cmd \<in> set (taken ls). relayed_as (command_payload cmd) p)"
    using traffic_of_runs [OF assms(2)] assms(4) by (auto simp: adds_def new_system_def)
  then show ?thesis using taken_was_sent [OF assms(2,3)] by blast
qed

text \<open>C3. Nobody but the clients and the proxy itself can make the radio do anything, and the proxy
  has only five commands of its own: APP_START, DEVICE_QUERY for its protocol version, GET_CONTACTS,
  GET_CHANNEL and GET_CONTACT_BY_KEY, all of which ask it for
  information. After any startup and any interleaving
  of the tasks, whatever else was sent to the radio, or is in flight or queued, is a frame that
  some client sent in full, unchanged but for the version in a DEVICE_QUERY.\<close>

theorem radio_gets_only_requests:
  assumes "startup env dial evs as (new_core cfg d) = Some (r, c)"
    and "runs (new_system c) ls s" and "length (started ls) < 2 ^ 64"
    and "p \<in> traffic (actor s)"
  shows "proxy_command p \<or>
    (\<exists>cid. \<exists>f \<in> set (fst (parse_stream (sent cid ls))). relayed_as f p)"
  by (rule traffic_asked_for [OF assms])

text \<open>The radio comes up and the command of the client is taken: it waits behind the first command
  of the synchronization.\<close>

lemma poll_queues:
  assumes "in_flight c \<noteq> None" "sessions c = []" "conf c = test_config" "client_is_alive c (ClientId 1)"
  shows "\<exists>t. handle_client_command test_env (command_of (ClientId 1) 5000 [0x0a]) c = Some t \<and> [0x0a] \<in> traffic t"
  using assms
  by (auto simp: handle_client_command_def command_of_def log_event_def test_config_def note_version_def
      decode_command_payload_def decode_command_arms_def replay_next_missed_def hm_get_def try_serve_from_cache_def
      enqueue_or_dispatch_def forwarded_payload_def traffic_push Let_def bind_eq_Some_conv)

theorem radio_gets_only_requests_witness:
  "\<exists>s env. runs (new_system idle_core)
      (demo_labels @ [ActorTakes env (command_of (ClientId 1) 5000 [0x0a])]) s \<and>
    [0x0a] \<in> traffic (actor s) \<and> \<not> proxy_command [0x0a] \<and>
    (\<exists>cid. \<exists>f \<in> set (fst (parse_stream (sent cid
      (demo_labels @ [ActorTakes env (command_of (ClientId 1) 5000 [0x0a])])))). relayed_as f [0x0a])"
proof -
  let ?cmd = "command_of (ClientId 1) 5000 [0x0a]"
  let ?ls = "demo_labels @ [ActorTakes test_env ?cmd]"
  obtain s where s: "runs (new_system idle_core) demo_labels s" "command_queue (front s) = [?cmd]"
    "inbox (actor s) (ClientId 1) = Some []"
    "in_flight (actor s) \<noteq> None" "sessions (actor s) = []" "conf (actor s) = test_config"
    using demo_run by blast
  obtain t where t: "handle_client_command test_env ?cmd (actor s) = Some t" "[0x0a] \<in> traffic t"
    using poll_queues [OF s(4-6)] s(3) by (auto simp: alive_inbox)
  have "\<not> event_panics test_env (ClientCommandEvent ?cmd) (actor s)"
    by (simp add: command_of_def log_panics_def)
  then have r: "runs (new_system idle_core) ?ls (s\<lparr>actor := t, front := (front s)\<lparr>command_queue := []\<rparr>\<rparr>)"
    using runs.next_step [OF s(1) sys_step.takes [OF s(2) test_env_ok _ t(1)]] by simp
  have "length (started ?ls) < 2 ^ 64" by (simp add: started_def demo_labels_def)
  moreover have "\<not> proxy_command [0x0a]" by (simp add: proxy_command_def build_appstart_def)
  ultimately show ?thesis
    using radio_gets_only_requests [OF idle_starts r, of "[0x0a]"] r t(2) by fastforce
qed

end
