(* ===== verification/Backend.thy ===== *)
theory Backend
  imports Frame "HOL-Library.Sublist"
begin

text \<open>
  The radio backends. \<open>src/backend/serial.rs\<close> and \<open>src/backend/tcp.rs\<close> frame the bytes of a port
  or socket in a reading and a writing task, and the task of \<open>Core::connect_backend\<close> forwards the
  frames to the actor; a link is these three tasks and their channels.
\<close>

section \<open>A link\<close>

text \<open>
  \<open>sender_open\<close>: the actor still holds the sending end; \<open>forwarding\<close>: the forwarding task still
  runs, and with it the receiving end of the reading task's channel exists. \<open>pending_frames\<close> and
  \<open>outgoing\<close> are the contents of the two channels, \<open>forwarded\<close> is what the actor got and \<open>wire\<close>
  are the bytes written.
\<close>

record radio_link =
  link_parser :: frame_parser
  reading :: bool
  writing :: bool
  sender_open :: bool
  forwarding :: bool
  pending_frames :: "frame list"
  outgoing :: "frame list"
  forwarded :: "frame list"
  wire_bytes :: frame

definition new_link :: radio_link where
  "new_link = \<lparr>link_parser = new_parser, reading = True, writing = True, sender_open = True,
     forwarding = True, pending_frames = [], outgoing = [], forwarded = [], wire_bytes = []\<rparr>"

text \<open>The serial reader leaves the loop over the frames of one \<open>read\<close> when the channel is closed,
  the TCP reader ignores it; neither leaves its loop over the reads.\<close>

fun serial_publish :: "bool \<Rightarrow> frame list \<Rightarrow> frame list \<Rightarrow> frame list" where
  "serial_publish is_open out [] = out"
| "serial_publish is_open out (f # fs) =
     (if is_open then serial_publish is_open (out @ [f]) fs else out)"

fun tcp_publish :: "bool \<Rightarrow> frame list \<Rightarrow> frame list \<Rightarrow> frame list" where
  "tcp_publish is_open out [] = out"
| "tcp_publish is_open out (f # fs) =
     tcp_publish is_open (if is_open then out @ [f] else out) fs"

datatype transport = SerialPort | TcpSocket

definition publish :: "transport \<Rightarrow> bool \<Rightarrow> frame list \<Rightarrow> frame list \<Rightarrow> frame list" where
  "publish b is_open out frames =
     (case b of SerialPort \<Rightarrow> serial_publish is_open out frames
      | TcpSocket \<Rightarrow> tcp_publish is_open out frames)"

definition read_link :: "transport \<Rightarrow> frame \<Rightarrow> radio_link \<Rightarrow> radio_link" where
  "read_link b data l =
     (let (p, frames) = feed (link_parser l) data
      in l\<lparr>link_parser := p,
           pending_frames := publish b (forwarding l) (pending_frames l) frames\<rparr>)"

text \<open>A command written; a failing write or flush may have put some of its bytes on the wire.\<close>

definition write_link :: "frame \<Rightarrow> radio_link \<Rightarrow> radio_link" where
  "write_link data l = l\<lparr>outgoing := tl (outgoing l), wire_bytes := wire_bytes l @ encode_command data\<rparr>"

definition break_write :: "nat \<Rightarrow> frame \<Rightarrow> radio_link \<Rightarrow> radio_link" where
  "break_write n data l =
     l\<lparr>outgoing := tl (outgoing l), wire_bytes := wire_bytes l @ take n (encode_command data), writing := False\<rparr>"

text \<open>The forwarding task of \<open>Core::connect_backend\<close>.\<close>

definition forward_frame :: "frame \<Rightarrow> radio_link \<Rightarrow> radio_link" where
  "forward_frame f l = l\<lparr>forwarded := forwarded l @ [f], pending_frames := tl (pending_frames l)\<rparr>"

definition end_forwarding :: "radio_link \<Rightarrow> radio_link" where
  "end_forwarding l = l\<lparr>forwarding := False, pending_frames := []\<rparr>"

datatype link_label =
    ReadBytes frame
  | ReadEnds
  | CoreSends frame
  | CoreDrops
  | Writes
  | WriteBreaks nat
  | WriteEnds
  | Forwards
  | ForwardEnds

text \<open>When one of the two tasks has ended the link's task ends, and the signal it sends ends the
  forwarding task, which drops its receiving end. The other task is not aborted. The actor may
  also drop the end the forwarding task sends to; that shows in the next frame it forwards.\<close>

definition disconnect_sent :: "radio_link \<Rightarrow> bool" where
  "disconnect_sent l \<longleftrightarrow> \<not> reading l \<or> \<not> writing l"

inductive link_step :: "transport \<Rightarrow> link_label \<Rightarrow> radio_link \<Rightarrow> radio_link \<Rightarrow> bool" for b where
  reads: "reading l \<Longrightarrow> data \<noteq> [] \<Longrightarrow> length data \<le> 4096 \<Longrightarrow> link_step b (ReadBytes data) l (read_link b data l)"
| read_ends: "reading l \<Longrightarrow> link_step b ReadEnds l (l\<lparr>reading := False\<rparr>)"
| core_sends: "sender_open l \<Longrightarrow> writing l \<Longrightarrow> link_step b (CoreSends p) l (l\<lparr>outgoing := outgoing l @ [p]\<rparr>)"
| core_drops: "link_step b CoreDrops l (l\<lparr>sender_open := False\<rparr>)"
| writes: "writing l \<Longrightarrow> outgoing l = p # rest \<Longrightarrow> link_step b Writes l (write_link p l)"
| write_breaks: "writing l \<Longrightarrow> outgoing l = p # rest \<Longrightarrow> link_step b (WriteBreaks n) l (break_write n p l)"
| write_ends: "writing l \<Longrightarrow> outgoing l = [] \<Longrightarrow> \<not> sender_open l \<Longrightarrow> link_step b WriteEnds l (l\<lparr>writing := False\<rparr>)"
| forwards: "forwarding l \<Longrightarrow> pending_frames l = f # rest \<Longrightarrow>
    link_step b Forwards l (forward_frame f l)"
| forward_ends: "forwarding l \<Longrightarrow> disconnect_sent l \<or> pending_frames l \<noteq> [] \<Longrightarrow>
    link_step b ForwardEnds l (end_forwarding l)"

inductive_cases link_stepE: "link_step b x l m"

inductive link_runs :: "transport \<Rightarrow> radio_link \<Rightarrow> link_label list \<Rightarrow> radio_link \<Rightarrow> bool" for b l where
  link_none: "link_runs b l [] l"
| link_next: "link_runs b l xs m \<Longrightarrow> link_step b x m n \<Longrightarrow> link_runs b l (xs @ [x]) n"

section \<open>Reading and writing\<close>

fun read_by :: "link_label \<Rightarrow> frame" where
  "read_by (ReadBytes data) = data"
| "read_by x = []"

fun sent_by_core :: "link_label \<Rightarrow> frame list" where
  "sent_by_core (CoreSends p) = [p]"
| "sent_by_core x = []"

definition bytes_read :: "link_label list \<Rightarrow> frame" where
  "bytes_read xs = concat (map read_by xs)"

definition commands_sent :: "link_label list \<Rightarrow> frame list" where
  "commands_sent xs = concat (map sent_by_core xs)"

definition framed_commands :: "frame list \<Rightarrow> frame" where
  "framed_commands ps = concat (map encode_command ps)"

lemma link_ghosts [simp]:
  "bytes_read [] = []" "bytes_read (xs @ [x]) = bytes_read xs @ read_by x"
  "commands_sent [] = []" "commands_sent (xs @ [x]) = commands_sent xs @ sent_by_core x"
  "framed_commands [] = []" "framed_commands (p # ps) = encode_command p @ framed_commands ps"
  "framed_commands (ps @ qs) = framed_commands ps @ framed_commands qs"
  by (simp_all add: bytes_read_def commands_sent_def framed_commands_def)

lemma serial_publish_eq: "serial_publish is_open out fs = (if is_open then out @ fs else out)"
  by (induction is_open out fs rule: serial_publish.induct) auto

lemma tcp_publish_eq: "tcp_publish is_open out fs = (if is_open then out @ fs else out)"
  by (induction is_open out fs rule: tcp_publish.induct) auto

lemma publish_eq: "publish b is_open out fs = (if is_open then out @ fs else out)"
  by (simp add: publish_def serial_publish_eq tcp_publish_eq split: transport.split)

lemma read_link_eq:
  "read_link b data l = l\<lparr>link_parser := fst (feed (link_parser l) data),
     pending_frames := pending_frames l @ (if forwarding l then snd (feed (link_parser l) data) else [])\<rparr>"
  by (simp add: read_link_def publish_eq split_def Let_def)

text \<open>What the reader has decoded, what of it reached the actor, and what was written.\<close>

definition link_reads :: "link_label list \<Rightarrow> radio_link \<Rightarrow> bool" where
  "link_reads xs l \<longleftrightarrow> parser_wf (link_parser l) \<and>
     snd (parse_stream (bytes_read xs)) = undecoded (link_parser l) \<and>
     prefix (forwarded l @ pending_frames l) (fst (parse_stream (bytes_read xs))) \<and>
     (forwarding l \<longrightarrow> forwarded l @ pending_frames l = fst (parse_stream (bytes_read xs)))"

definition link_writes :: "link_label list \<Rightarrow> radio_link \<Rightarrow> bool" where
  "link_writes xs l \<longleftrightarrow> prefix (wire_bytes l) (framed_commands (commands_sent xs)) \<and>
     (writing l \<longrightarrow> wire_bytes l @ framed_commands (outgoing l) = framed_commands (commands_sent xs))"

lemma link_reads_step: "link_step b x l m \<Longrightarrow> link_reads xs l \<Longrightarrow> link_reads (xs @ [x]) m"
proof (induction rule: link_step.induct)
  case (reads l data)
  obtain q fs where f: "feed (link_parser l) data = (q, fs)" by fastforce
  let ?p = "parse_stream (bytes_read xs)"
  have "parser_wf q \<and> parse_stream (snd ?p @ data) = (fs, undecoded q)"
    using decoder.step_refines [OF _ f] reads(4) by (simp add: link_reads_def)
  then have "parser_wf q" "parse_stream (bytes_read xs @ data) = (fst ?p @ fs, undecoded q)"
    using parse_stream_append [of "bytes_read xs" "fst ?p" "snd ?p" data] by simp_all
  moreover have "fst ?p @ fs = forwarded l @ pending_frames l @ fs" if "forwarding l"
    using reads(4) that unfolding link_reads_def by (metis append_assoc)
  moreover have "prefix (forwarded l @ pending_frames l) (fst ?p @ fs)"
    using reads(4) by (simp add: link_reads_def prefix_prefix)
  ultimately show ?case using f by (cases "forwarding l") (simp_all add: link_reads_def read_link_eq)
qed (auto simp: link_reads_def write_link_def break_write_def forward_frame_def end_forwarding_def
    dest: append_prefixD)

lemma link_writes_step: "link_step b x l m \<Longrightarrow> link_writes xs l \<Longrightarrow> link_writes (xs @ [x]) m"
proof (induction rule: link_step.induct)
  case (writes l p rest)
  then have "framed_commands (commands_sent xs) = (wire_bytes l @ encode_command p) @ framed_commands rest"
    by (simp add: link_writes_def)
  then show ?case using writes by (simp add: link_writes_def write_link_def prefix_def)
next
  case (write_breaks l p rest n)
  have "framed_commands (commands_sent xs) =
      (wire_bytes l @ take n (encode_command p)) @ drop n (encode_command p) @ framed_commands rest"
    using write_breaks by (simp add: link_writes_def) (metis append_assoc append_take_drop_id)
  then show ?case using write_breaks by (simp add: link_writes_def break_write_def prefix_def)
qed (auto simp: link_writes_def read_link_eq forward_frame_def end_forwarding_def prefix_prefix)

lemma link_invariants: "link_runs b new_link xs l \<Longrightarrow> link_reads xs l \<and> link_writes xs l"
proof (induction rule: link_runs.induct)
  case link_none
  show ?case by (simp add: link_reads_def link_writes_def new_link_def)
qed (use link_reads_step link_writes_step in blast)

text \<open>C32. A serial or TCP link is faithful in both directions. The actor gets the frames of the byte
  stream in order, all of them (up to those in the channel) as long as the link is up and a prefix
  of them otherwise; the bytes on the wire are a prefix of the framed commands the actor sent, and
  all but those of the commands in the channel while the writing task runs.\<close>

theorem link_faithful:
  assumes "link_runs b new_link xs l"
  shows "prefix (forwarded l @ pending_frames l) (fst (parse_stream (bytes_read xs))) \<and>
    (forwarding l \<longrightarrow> forwarded l @ pending_frames l = fst (parse_stream (bytes_read xs))) \<and>
    prefix (wire_bytes l) (framed_commands (commands_sent xs)) \<and>
    (writing l \<longrightarrow> wire_bytes l @ framed_commands (outgoing l) = framed_commands (commands_sent xs))"
  using link_invariants [OF assms] by (simp add: link_reads_def link_writes_def)

text \<open>A link whose initialization failed: the actor sent a command, gave up and dropped its end, the
  writing task ended, and so did the forwarding task; then the answer came.\<close>

definition given_up :: "link_label list" where
  "given_up = [CoreSends [0x16, 3], Writes, CoreDrops, WriteEnds, ForwardEnds, ReadBytes [0x3e, 1, 0, 5]]"

definition stale_link :: radio_link where
  "stale_link = new_link\<lparr>writing := False, sender_open := False, forwarding := False,
     wire_bytes := [0x3c, 2, 0, 0x16, 3]\<rparr>"

lemma given_up_runs: "link_runs b new_link given_up stale_link"
proof -
  let ?l1 = "new_link\<lparr>outgoing := [[0x16, 3]]\<rparr>"
  let ?l2 = "new_link\<lparr>wire_bytes := [0x3c, 2, 0, 0x16, 3]\<rparr>"
  let ?l3 = "?l2\<lparr>sender_open := False\<rparr>"
  let ?l4 = "?l3\<lparr>writing := False\<rparr>"
  have e: "encode_command [0x16, 3] = [0x3c, 2, 0, 0x16, 3]" by code_simp
  have f: "feed new_parser [0x3e, 1, 0, 5] = (new_parser, [[5]])" by code_simp
  have "link_step b (CoreSends [0x16, 3]) new_link ?l1"
    using core_sends [of new_link b "[0x16, 3]"] by (simp add: new_link_def)
  note r = link_next [OF link_none this]
  have "link_step b Writes ?l1 ?l2"
    using writes [of ?l1 "[0x16, 3]" "[]" b] by (simp add: new_link_def write_link_def e)
  note r = link_next [OF r this]
  have "link_step b CoreDrops ?l2 ?l3" using core_drops [of b ?l2] by simp
  note r = link_next [OF r this]
  have "link_step b WriteEnds ?l3 ?l4" using write_ends [of ?l3 b] by (simp add: new_link_def)
  note r = link_next [OF r this]
  have "link_step b ForwardEnds ?l4 stale_link"
    using forward_ends [of ?l4 b] by (simp add: disconnect_sent_def new_link_def stale_link_def end_forwarding_def)
  note r = link_next [OF r this]
  have "link_step b (ReadBytes [0x3e, 1, 0, 5]) stale_link stale_link"
    using reads [of stale_link "[0x3e, 1, 0, 5]" b] by (simp add: stale_link_def new_link_def read_link_eq f)
  note r = link_next [OF r this]
  show ?thesis using r by (simp add: given_up_def)
qed

theorem link_faithful_witness:
  "link_runs SerialPort new_link given_up stale_link \<and>
   prefix (forwarded stale_link) (fst (parse_stream (bytes_read given_up))) \<and>
   prefix (wire_bytes stale_link) (framed_commands (commands_sent given_up))"
  using link_faithful [OF given_up_runs [of SerialPort]] given_up_runs [of SerialPort]
  by (simp add: stale_link_def new_link_def)

end
