(* ===== verification/Backend_Tasks.thy ===== *)
theory Backend_Tasks
  imports Backend Decode
begin

text \<open>
  The functions \<open>connect\<close> of \<open>src/backend/serial.rs\<close> and \<open>src/backend/tcp.rs\<close> with the loops of their
  reading and writing tasks, as functions of what the port or socket returns to each call. The
  loops are refinements of the steps of a link: whatever they do is a run of the step relation,
  so what holds of its runs holds of them. Last, what the reading task does when its link is
  abandoned.
\<close>

section \<open>Connecting\<close>

text \<open>\<open>opens\<close> and \<open>sets_exclusive\<close> are the outcomes of the calls; a link starts with empty channels.\<close>

datatype connect_failure = OpenFailed | ExclusiveFailed | SocketFailed string

definition serial_connect ::
  "(string \<Rightarrow> u32 \<Rightarrow> bool) \<Rightarrow> bool \<Rightarrow> string \<Rightarrow> u32 \<Rightarrow> connect_failure + radio_link" where
  "serial_connect opens sets_exclusive path baud =
     (if \<not> opens path baud then Inl OpenFailed
      else if \<not> sets_exclusive then Inl ExclusiveFailed
      else Inr new_link)"

definition tcp_connect :: "(string \<Rightarrow> bool) \<Rightarrow> string \<Rightarrow> u16 \<Rightarrow> connect_failure + radio_link" where
  "tcp_connect opens host port =
     (let addr = host @ '':'' @ int_to_string (uint port)
      in if \<not> opens addr then Inl (SocketFailed addr) else Inr new_link)"

section \<open>The loops\<close>

text \<open>What \<open>read\<close> returns (\<open>Ok(0)\<close> is the end of the stream), and what becomes of a command: it is
  written and flushed, or writing or flushing fails with some of its bytes on the wire.\<close>

datatype read_result = ReadOk frame | ReadError

datatype write_result = Flushed | WriteError nat

text \<open>A list that runs out means that the task waits for the port.\<close>

fun serial_reader :: "read_result list \<Rightarrow> radio_link \<Rightarrow> radio_link" where
  "serial_reader [] l = l"
| "serial_reader (ReadError # rs) l = l\<lparr>reading := False\<rparr>"
| "serial_reader (ReadOk data # rs) l =
     (if data = [] then l\<lparr>reading := False\<rparr>
      else let (p, frames) = feed (link_parser l) data
        in serial_reader rs (l\<lparr>link_parser := p,
             pending_frames := serial_publish (forwarding l) (pending_frames l) frames\<rparr>))"

fun tcp_reader :: "read_result list \<Rightarrow> radio_link \<Rightarrow> radio_link" where
  "tcp_reader [] l = l"
| "tcp_reader (ReadError # rs) l = l\<lparr>reading := False\<rparr>"
| "tcp_reader (ReadOk data # rs) l =
     (if data = [] then l\<lparr>reading := False\<rparr>
      else let (p, frames) = feed (link_parser l) data
        in tcp_reader rs (l\<lparr>link_parser := p,
             pending_frames := tcp_publish (forwarding l) (pending_frames l) frames\<rparr>))"

text \<open>The writers of the two are the same; \<open>recv\<close> returns nothing once the channel is empty and the
  actor has dropped its end.\<close>

fun link_writer :: "write_result list \<Rightarrow> radio_link \<Rightarrow> radio_link" where
  "link_writer [] l = (if outgoing l = [] \<and> \<not> sender_open l then l\<lparr>writing := False\<rparr> else l)"
| "link_writer (w # ws) l =
     (case outgoing l of
        [] \<Rightarrow> if sender_open l then l else l\<lparr>writing := False\<rparr>
      | data # rest \<Rightarrow>
          (case w of
             Flushed \<Rightarrow> link_writer ws (write_link data l)
           | WriteError n \<Rightarrow> break_write n data l))"

section \<open>The loops refine the steps\<close>

definition reader :: "transport \<Rightarrow> read_result list \<Rightarrow> radio_link \<Rightarrow> radio_link" where
  "reader b = (case b of SerialPort \<Rightarrow> serial_reader | TcpSocket \<Rightarrow> tcp_reader)"

lemma reader_simps [simp]:
  "reader b [] l = l"
  "reader b (ReadError # rs) l = l\<lparr>reading := False\<rparr>"
  "reader b (ReadOk data # rs) l = (if data = [] then l\<lparr>reading := False\<rparr> else reader b rs (read_link b data l))"
  by (cases b; simp add: reader_def read_link_def publish_def split_def Let_def)+

lemma link_runs_Cons:
  assumes "link_step b x l m" and "link_runs b m xs n"
  shows "link_runs b l (x # xs) n"
  using assms(2)
proof (induction rule: link_runs.induct)
  case link_none
  from link_next [OF link_runs.link_none assms(1)] show ?case by simp
next
  case (link_next xs m' y n)
  from link_runs.link_next [OF link_next.IH link_next.hyps(2)] show ?case by simp
qed

text \<open>The labels of a run of the reading loop.\<close>

fun read_labels :: "read_result list \<Rightarrow> link_label list" where
  "read_labels [] = []"
| "read_labels (ReadError # rs) = [ReadEnds]"
| "read_labels (ReadOk data # rs) = (if data = [] then [ReadEnds] else ReadBytes data # read_labels rs)"

lemma reader_steps:
  "reading l \<Longrightarrow> \<forall>data. ReadOk data \<in> set rs \<longrightarrow> length data \<le> 4096 \<Longrightarrow>
   link_runs b l (read_labels rs) (reader b rs l)"
proof (induction rs arbitrary: l rule: read_labels.induct)
  case (3 data rs)
  show ?case
  proof (cases "data = []")
    case False
    have "link_runs b (read_link b data l) (read_labels rs) (reader b rs (read_link b data l))"
      using 3 False by (simp add: read_link_eq)
    then show ?thesis using link_runs_Cons [OF link_step.reads] 3(2,3) False by simp
  qed (use link_runs_Cons [OF read_ends link_none] 3(2) in simp)
qed (auto intro: link_runs_Cons [OF read_ends] link_none)

lemma writer_steps: "writing l \<Longrightarrow> \<exists>xs. link_runs b l xs (link_writer ws l)"
proof (induction ws l rule: link_writer.induct)
  case (1 l)
  then show ?case using link_runs_Cons [OF write_ends link_none, of l b] link_none [of b l] by auto
next
  case (2 w ws l)
  show ?case
  proof (cases "outgoing l")
    case Nil
    then show ?thesis
      using link_runs_Cons [OF write_ends link_none, of l b] link_none [of b l] 2(2) by auto
  next
    case (Cons data rest)
    show ?thesis
    proof (cases w)
      case Flushed
      obtain xs where "link_runs b (write_link data l) xs (link_writer ws (write_link data l))"
        using 2(1) [OF Cons Flushed] 2(2) by (auto simp: write_link_def)
      from link_runs_Cons [OF link_step.writes [OF 2(2) Cons] this] show ?thesis
        using Cons Flushed by auto
    next
      case (WriteError n)
      from link_runs_Cons [OF write_breaks [OF 2(2) Cons, of b n] link_none] show ?thesis
        using Cons WriteError by auto
    qed
  qed
qed

text \<open>The frames a new link's reading loop has decoded, whatever ends it.\<close>

lemma reader_decodes:
  assumes "\<forall>data. ReadOk data \<in> set rs \<longrightarrow> length data \<le> 4096"
  shows "pending_frames (reader b rs new_link) = fst (parse_stream (bytes_read (read_labels rs)))"
proof -
  have "forwarding (reader b rs l) = forwarding l \<and> forwarded (reader b rs l) = forwarded l" for l
    by (induction rs arbitrary: l rule: read_labels.induct) (simp_all add: read_link_eq)
  moreover have "reading new_link" "forwarding new_link" "forwarded new_link = []" by (simp_all add: new_link_def)
  ultimately show ?thesis
    using link_invariants [OF reader_steps [OF _ assms, of new_link b]] by (simp add: link_reads_def)
qed

section \<open>An abandoned link\<close>

lemma link_runs_append: "link_runs b l xs m \<Longrightarrow> link_runs b m ys n \<Longrightarrow> link_runs b l (xs @ ys) n"
proof (induction ys arbitrary: n rule: rev_induct)
  case (snoc y ys)
  then obtain k where "link_runs b m ys k" "link_step b y k n" by (auto elim: link_runs.cases)
  then show ?case using snoc link_next by fastforce
qed (auto elim: link_runs.cases)

lemma only_read_ends: "link_runs b l xs m \<Longrightarrow> reading l \<Longrightarrow> ReadEnds \<notin> set xs \<Longrightarrow> reading m"
proof (induction rule: link_runs.induct)
  case (link_next xs m x n)
  then have "reading m" "x \<noteq> ReadEnds" by auto
  with link_next(2) show ?case
    by (cases rule: link_step.cases) (auto simp: read_link_eq write_link_def break_write_def forward_frame_def
        end_forwarding_def)
qed simp

text \<open>The results of \<open>read\<close> that keep the loop going.\<close>

definition gives_bytes :: "read_result \<Rightarrow> bool" where
  "gives_bytes r \<longleftrightarrow> (\<exists>data. r = ReadOk data \<and> data \<noteq> [])"

lemma reader_goes_on: "reading l \<Longrightarrow> reading (reader b rs l) \<longleftrightarrow> (\<forall>r \<in> set rs. gives_bytes r)"
  by (induction rs arbitrary: l rule: read_labels.induct) (auto simp: gives_bytes_def read_link_eq)

lemma reader_drops:
  "\<not> forwarding l \<Longrightarrow> pending_frames (reader b rs l) = pending_frames l \<and> forwarded (reader b rs l) = forwarded l"
  by (induction rs arbitrary: l rule: read_labels.induct) (simp_all add: read_link_eq)

text \<open>C33. The reading task outlives its link. Nothing but the end of the stream or an error of the port
  ends it: not that the actor dropped its end, nor that the writing and the forwarding task are
  gone, nor that its channel is closed, where the \<open>break\<close> only leaves the loop over the frames of
  one \<open>read\<close>. From then on it takes and decodes all it is given, and every frame is lost.\<close>

theorem abandoned_reader_reads_on:
  assumes "link_runs b new_link xs l" and "ReadEnds \<notin> set xs" and "\<not> forwarding l"
    and "\<forall>data. ReadOk data \<in> set rs \<longrightarrow> length data \<le> 4096"
  shows "(reading (reader b rs l) \<longleftrightarrow> (\<forall>r \<in> set rs. gives_bytes r)) \<and>
    undecoded (link_parser (reader b rs l)) = snd (parse_stream (bytes_read (xs @ read_labels rs))) \<and>
    pending_frames (reader b rs l) = pending_frames l \<and> forwarded (reader b rs l) = forwarded l"
proof -
  have r: "reading l" using only_read_ends [OF assms(1) _ assms(2)] by (simp add: new_link_def)
  have "link_runs b new_link (xs @ read_labels rs) (reader b rs l)"
    by (rule link_runs_append [OF assms(1) reader_steps [OF r assms(4)]])
  then show ?thesis
    using link_invariants reader_goes_on [OF r] reader_drops [OF assms(3)] by (simp add: link_reads_def)
qed

text \<open>A link that was given up while the answer was late, with the port open; then the radio sends a
  frame and a half.\<close>

definition never_answered :: "link_label list" where
  "never_answered = [CoreDrops, WriteEnds, ForwardEnds]"

definition silent_link :: radio_link where
  "silent_link = new_link\<lparr>writing := False, sender_open := False, forwarding := False\<rparr>"

theorem abandoned_reader_reads_on_witness:
  "link_runs SerialPort new_link never_answered silent_link \<and>
   (let l = serial_reader [ReadOk [0x3e, 1, 0, 5], ReadOk [0x3e, 9]] silent_link
    in reading l \<and> pending_frames l = [] \<and> undecoded (link_parser l) = [0x3e, 9])"
proof -
  let ?l1 = "new_link\<lparr>sender_open := False\<rparr>" and ?rs = "[ReadOk [0x3e, 1, 0, 5], ReadOk [0x3e, 9]]"
  let ?l2 = "?l1\<lparr>writing := False\<rparr>"
  have "link_step SerialPort CoreDrops new_link ?l1" using core_drops [of SerialPort new_link] by simp
  note r = link_next [OF link_none this]
  have "link_step SerialPort WriteEnds ?l1 ?l2" using write_ends [of ?l1 SerialPort] by (simp add: new_link_def)
  note r = link_next [OF r this]
  have "link_step SerialPort ForwardEnds ?l2 silent_link"
    using forward_ends [of ?l2 SerialPort]
    by (simp add: disconnect_sent_def new_link_def silent_link_def end_forwarding_def)
  note r = link_next [OF r this]
  have run: "link_runs SerialPort new_link never_answered silent_link" using r by (simp add: never_answered_def)
  have p: "bytes_read (never_answered @ read_labels ?rs) = [0x3e, 1, 0, 5, 0x3e, 9]"
    by (simp add: never_answered_def bytes_read_def)
  have s: "snd (parse_stream [0x3e, 1, 0, 5, 0x3e, 9]) = [0x3e, 9]" by code_simp
  have "ReadEnds \<notin> set never_answered" "\<not> forwarding silent_link" "pending_frames silent_link = []"
    by (simp_all add: never_answered_def silent_link_def new_link_def)
  with abandoned_reader_reads_on [OF run this(1,2), of ?rs] run show ?thesis
    unfolding p s by (auto simp: gives_bytes_def reader_def Let_def)
qed

end
