(* ===== verification/Wiring.thy ===== *)
theory Wiring
  imports Core_Provenance Backend
begin

text \<open>
  The whole program with its radio: the actor, the frontend with the clients, and the serial or TCP
  link, coupled by the channels \<open>Core::connect_backend\<close> makes. What the actor sends is what the
  link writes, what the forwarding task passes on is what the actor takes, the end of the writing
  task is what makes sending fail, and the end of the forwarding task is what makes the actor
  reconnect. The steps of this machine are steps of the system and of the link, so all that was
  proved of either holds of it.
\<close>

section \<open>The machine\<close>

text \<open>
  \<open>collected\<close> are the frames the actor has taken from the channel of the present connection, those
  of the handshake included; the channel holds the rest of what was forwarded. \<open>happened\<close> and
  \<open>earlier\<close> record the steps of the present link and the bytes read over earlier ones.
\<close>

record machine =
  tasks :: system
  radio :: radio_link
  collected :: "frame list"
  happened :: "link_label list"
  earlier :: "frame list"

abbreviation actor_of :: "machine \<Rightarrow> core" where
  "actor_of m \<equiv> actor (tasks m)"

text \<open>What an event of the actor puts on the link's channel, and the end it drops.\<close>

definition newly_sent :: "core \<Rightarrow> core \<Rightarrow> frame list" where
  "newly_sent s t = drop (length (radio_out s)) (radio_out t)"

definition pass_on :: "core \<Rightarrow> core \<Rightarrow> radio_link \<Rightarrow> radio_link" where
  "pass_on s t l =
     l\<lparr>outgoing := outgoing l @ newly_sent s t,
       sender_open := sender_open l \<and> radio_send_tx t \<noteq> None\<rparr>"

definition passed_on :: "core \<Rightarrow> core \<Rightarrow> link_label list" where
  "passed_on s t = map CoreSends (newly_sent s t) @ (if radio_send_tx t = None then [CoreDrops] else [])"

text \<open>Once the writing task is gone the actor's sends fail.\<close>

definition notice_end :: "radio_link \<Rightarrow> system \<Rightarrow> system" where
  "notice_end l s = (if writing l then s else s\<lparr>actor := radio_channel_closed (actor s)\<rparr>)"

text \<open>The frames of a script of the radio.\<close>

fun frame_received :: "nat \<times> wait_event \<Rightarrow> frame list" where
  "frame_received (t, Received p) = [p]"
| "frame_received (t, ev) = []"

definition received :: "timed_events \<Rightarrow> frame list" where
  "received evs = concat (map frame_received evs)"

text \<open>A connection that is made: \<open>run\<close> is the startup or the reconnection as a function of what the
  last attempt gets from the radio. It takes all of \<open>evs\<close>: with one event less it would still wait.\<close>

definition connects :: "(timed_events \<Rightarrow> (reconnect_outcome \<times> core) or_panic) \<Rightarrow> timed_events \<Rightarrow> core \<Rightarrow> bool" where
  "connects run evs c \<longleftrightarrow> evs \<noteq> [] \<and> run evs = Some (Reconnected, c) \<and>
     map_option fst (run (butlast evs)) = Some StillTrying"

text \<open>The link of that connection: it got what the actor sent, and forwarded what the actor received.\<close>

definition new_connection_link :: "transport \<Rightarrow> timed_events \<Rightarrow> core \<Rightarrow> link_label list \<Rightarrow> radio_link \<Rightarrow> bool" where
  "new_connection_link b evs c xs l \<longleftrightarrow> link_runs b new_link xs l \<and> commands_sent xs = radio_out c \<and>
     sender_open l \<and> writing l \<and> prefix (received evs) (forwarded l)"

definition starting :: "env \<Rightarrow> (connect_target \<Rightarrow> bool) \<Rightarrow> core \<Rightarrow> timed_events \<Rightarrow> (reconnect_outcome \<times> core) or_panic" where
  "starting env dial s evs = startup env dial evs [] s"

definition retrying ::
  "env \<Rightarrow> (connect_target \<Rightarrow> bool) \<Rightarrow> timed_events \<Rightarrow> attempt list \<Rightarrow> env \<Rightarrow> (connect_target \<Rightarrow> bool) \<Rightarrow> core \<Rightarrow>
     timed_events \<Rightarrow> (reconnect_outcome \<times> core) or_panic" where
  "retrying env1 dial1 evs1 as env dial s evs = startup env1 dial1 evs1 (as @ [Dial env dial evs]) s"

definition reconnecting ::
  "attempt list \<Rightarrow> env \<Rightarrow> (connect_target \<Rightarrow> bool) \<Rightarrow> core \<Rightarrow> timed_events \<Rightarrow> (reconnect_outcome \<times> core) or_panic" where
  "reconnecting as env dial s evs =
     map_option (\<lambda>(r, ds, t). (r, t)) (reconnect_radio (as @ [Dial env dial evs]) s)"

definition wired_up :: "core \<Rightarrow> timed_events \<Rightarrow> link_label list \<Rightarrow> radio_link \<Rightarrow> machine" where
  "wired_up c evs xs l =
     \<lparr>tasks = new_system c, radio = l, collected = received evs, happened = xs, earlier = []\<rparr>"

text \<open>The machine when the event loop starts, with the first attempt to connect or a later one.\<close>

inductive machine_starts :: "transport \<Rightarrow> machine \<Rightarrow> bool" for b where
  at_once: "connects (starting env dial (new_core cfg d)) evs c \<Longrightarrow> new_connection_link b evs c xs l \<Longrightarrow>
    machine_starts b (wired_up c evs xs l)"
| later: "connects (retrying env1 dial1 evs1 as env dial (new_core cfg d)) evs c \<Longrightarrow>
    new_connection_link b evs c xs l \<Longrightarrow> machine_starts b (wired_up c evs xs l)"

datatype machine_label =
    OfTasks label
  | OfLink link_label
  | Takes env frame
  | Reconnects env "attempt list" env "connect_target \<Rightarrow> bool" timed_events

text \<open>The events of the actor that are not the link's doing, and the steps of the link that are not
  the actor's.\<close>

fun of_tasks :: "label \<Rightarrow> bool" where
  "of_tasks (ActorHandles env (RadioFrame p)) \<longleftrightarrow> False"
| "of_tasks (ActorHandles env (RadioLost as)) \<longleftrightarrow> False"
| "of_tasks (ActorHandles env RadioChannelClosed) \<longleftrightarrow> False"
| "of_tasks x \<longleftrightarrow> True"

fun of_link :: "link_label \<Rightarrow> bool" where
  "of_link (CoreSends p) \<longleftrightarrow> False"
| "of_link CoreDrops \<longleftrightarrow> False"
| "of_link x \<longleftrightarrow> True"

definition task_step :: "system \<Rightarrow> machine \<Rightarrow> machine" where
  "task_step s m =
     m\<lparr>tasks := s, radio := pass_on (actor_of m) (actor s) (radio m),
       happened := happened m @ passed_on (actor_of m) (actor s)\<rparr>"

inductive machine_step :: "transport \<Rightarrow> machine_label \<Rightarrow> machine \<Rightarrow> machine \<Rightarrow> bool" for b where
  tasks: "of_tasks x \<Longrightarrow> sys_step x (tasks m) s \<Longrightarrow> machine_step b (OfTasks x) m (task_step s m)"
| link: "of_link x \<Longrightarrow> link_step b x (radio m) l \<Longrightarrow>
    machine_step b (OfLink x) m (m\<lparr>tasks := notice_end l (tasks m), radio := l, happened := happened m @ [x]\<rparr>)"
| takes: "forwarded (radio m) = collected m @ p # rest \<Longrightarrow>
    sys_step (ActorHandles env (RadioFrame p)) (tasks m) s \<Longrightarrow>
    machine_step b (Takes env p) m ((task_step s m)\<lparr>collected := collected m @ [p]\<rparr>)"
| reconnects: "\<not> forwarding (radio m) \<Longrightarrow> forwarded (radio m) = collected m \<Longrightarrow>
    sys_step (ActorHandles env0 (RadioLost (as @ [Dial env dial evs]))) (tasks m) s \<Longrightarrow>
    connects (reconnecting as env dial (actor_of m)) evs (actor s) \<Longrightarrow>
    new_connection_link b evs (actor s) xs l \<Longrightarrow>
    machine_step b (Reconnects env0 as env dial evs) m
      \<lparr>tasks = s, radio = l, collected = received evs, happened = xs,
       earlier = earlier m @ [bytes_read (happened m)]\<rparr>"

inductive_cases machine_stepE: "machine_step b x m n"

inductive machine_runs :: "transport \<Rightarrow> machine \<Rightarrow> machine_label list \<Rightarrow> machine \<Rightarrow> bool" for b m where
  machine_none: "machine_runs b m [] m"
| machine_next: "machine_runs b m xs n \<Longrightarrow> machine_step b x n k \<Longrightarrow> machine_runs b m (xs @ [x]) k"

section \<open>What the actor does to the link\<close>

text \<open>An event sends commands only while the channel is open, and never takes one back.\<close>

definition sends :: "core \<Rightarrow> core \<Rightarrow> bool" where
  "sends s t \<longleftrightarrow> radio_send_tx t = radio_send_tx s \<and> broadcast_out t = broadcast_out s \<and>
     (\<exists>new. radio_out t = radio_out s @ new \<and> (radio_send_tx s \<noteq> Some Open \<longrightarrow> new = []))"

lemma sends_same:
  "radio_send_tx t = radio_send_tx s \<Longrightarrow> broadcast_out t = broadcast_out s \<Longrightarrow> radio_out t = radio_out s \<Longrightarrow>
   sends s t"
  by (simp add: sends_def)

lemma sends_trans: "sends s t \<Longrightarrow> sends t u \<Longrightarrow> sends s u"
  by (auto simp: sends_def)

lemma sends_face: "face t = face s \<Longrightarrow> sends s t"
  by (rule sends_same) (simp_all add: face_def wire_def)

lemma sends_to_clients:
  "sends s (send_to_client cid p s)" "sends s (send_opt c p s)" "sends s (broadcast_to_others x p s)"
  by (auto simp: sends_def send_to_client_def send_opt_def broadcast_to_others_def split: option.split)

lemma sends_updates:
  "sends s (s\<lparr>in_flight := f\<rparr>)" "sends s (s\<lparr>pending_queue := q\<rparr>)" "sends s (push_queue x s)"
  by (simp_all add: sends_def push_queue_def)

lemma sends_dispatch:
  assumes "dispatch_to_radio env c p s = Some t"
  shows "sends s t"
proof (cases "send_to_radio p s")
  case (Inl e)
  then show ?thesis
    using assms by (auto simp: dispatch_to_radio_def bind_eq_Some_conv sends_to_clients)
next
  case (Inr s1)
  then obtain s2 f code where s2: "forward_effects env code p s1 = Some s2" and t: "t = s2\<lparr>in_flight := Some f\<rparr>"
    using assms by (auto simp: dispatch_to_radio_def bind_eq_Some_conv)
  have "face s2 = face s1"
    using s2 by (auto simp: forward_effects_def bind_eq_Some_conv split: if_splits)
  then have "sends s1 t" using sends_trans [OF sends_face sends_updates(1)] t by blast
  moreover have "sends s s1" using Inr by (auto simp: sends_def send_to_radio_Inr)
  ultimately show ?thesis by (rule sends_trans [rotated])
qed

lemma sends_advance: "advance_queue env s = Some t \<Longrightarrow> sends s t"
proof (induction s t rule: advance_queue_induct)
  case (Gone s q rest t)
  then show ?case using sends_trans [OF sends_updates(2)] by blast
next
  case (Sent s q rest t)
  then show ?case using sends_trans [OF sends_updates(2) sends_dispatch] by blast
next
  case (Failed s q rest s2 t)
  then show ?case using sends_trans [OF sends_updates(2) sends_dispatch] sends_trans by blast
qed (simp add: sends_same)

interpretation asking: command_relation sends
  by unfold_locales
    (erule sends_trans, assumption, erule sends_face, rule sends_to_clients,
     auto simp: enqueue_or_dispatch_def sends_dispatch sends_updates split: if_splits)

lemma sends_deliver: "sends s (deliver_reply env c cmd code p s)"
proof -
  have "sends s (send_to_client cid p (record_ack env cid code p s))" for cid
    by (rule asking.rel_face_then [OF _ sends_to_clients(1)]) simp
  then have "sends s (case c of None \<Rightarrow> s | Some cid \<Rightarrow> send_to_client cid p (record_ack env cid code p s))"
    by (simp add: sends_same split: option.split)
  then show ?thesis
    using sends_trans [OF _ sends_to_clients(3)] by (auto simp: deliver_reply_def Let_def)
qed

interpretation answering: handler_relation sends
proof unfold_locales
  show "sends s (snd (try_route_ack code p s))" for code p s
    by (auto simp: try_route_ack_def sends_same split: option.split
        intro: asking.rel_face_then [OF _ sends_to_clients(1)])
qed (auto intro: sends_trans [OF sends_deliver sends_updates(1)] sends_trans [OF sends_updates(1) sends_to_clients(2)]
    sends_advance asking.missed_rel sends_to_clients sends_updates)

text \<open>Reconnecting says nothing to the clients on the broadcast channel.\<close>

interpretation hushed: cycle_relation "\<lambda>s t. broadcast_out t = broadcast_out s"
proof
  have q: "broadcast_out (send_opt c p u) = broadcast_out u" for c p u
    using sends_to_clients(2) by (simp add: sends_def)
  show "broadcast_out (fail_all s) = broadcast_out s" for s
    by (simp add: fail_all_def Let_def fold_same q split: option.split)
  show "broadcast_out (snd r) = broadcast_out s" if "initialize_radio env evs s = Some r" for env evs s r
    by (rule initialize_radio_same [where g = broadcast_out, OF _ _ that])
      (auto simp: send_to_radio_Inr face_def dest: face_cache_response)
  have "broadcast_out u = broadcast_out t" if "advance_queue_sync env t = Some u" for env t u
    using that by (induction t u rule: advance_sync_induct) (simp_all add: q)
  then show "broadcast_out t = broadcast_out s" if "sync_from_radio env s = Some t" for env s t
    using that by (auto simp: sync_from_radio_def Let_def queue_sync_def split: if_splits)
qed (auto simp: face_def connect_backend_def split: sum.splits if_splits)

lemma task_sends:
  assumes "sys_step x s t" and "of_tasks x"
  shows "sends (actor s) (actor t) \<or>
    radio_send_tx (actor t) = None \<and> broadcast_out (actor t) = broadcast_out (actor s) \<and>
      radio_out (actor t) = radio_out (actor s)"
  using assms
proof (cases rule: sys_step.cases)
  case (takes cmd rest env c)
  then show ?thesis using asking.client_command_rel by auto
next
  case (handles ev env c)
  then show ?thesis
    using assms(2) answering.timeout_rel [of env "actor s" c] answering.maintenance_rel [of env "actor s" c]
    by (cases ev) (auto simp: own_event_def shutdown_def)
qed (auto simp: front_defs Let_def sends_def client_connected_def client_disconnected_def)

section \<open>The parts agree\<close>

definition coupled :: "transport \<Rightarrow> machine \<Rightarrow> bool" where
  "coupled b m \<longleftrightarrow> link_runs b new_link (happened m) (radio m) \<and>
     commands_sent (happened m) = radio_out (actor_of m) \<and>
     (radio_send_tx (actor_of m) = Some Open \<longrightarrow> sender_open (radio m) \<and> writing (radio m)) \<and>
     prefix (collected m) (forwarded (radio m))"

lemma post_runs:
  assumes "link_runs b k xs l" and "sender_open l" and "writing l"
  shows "link_runs b k (xs @ map CoreSends ps) (l\<lparr>outgoing := outgoing l @ ps\<rparr>)"
proof (induction ps rule: rev_induct)
  case (snoc p ps)
  let ?l = "l\<lparr>outgoing := outgoing l @ ps\<rparr>"
  have "link_step b (CoreSends p) ?l (?l\<lparr>outgoing := outgoing ?l @ [p]\<rparr>)"
    using assms by (intro core_sends) simp_all
  from link_next [OF snoc this] show ?case by simp
qed (simp add: assms(1))

lemma commands_posted: "commands_sent (xs @ map CoreSends ps) = commands_sent xs @ ps"
  by (induction ps rule: rev_induct) (simp_all flip: append_assoc)

lemma pass_on_coupled:
  assumes "sends s t \<or> radio_send_tx t = None \<and> radio_out t = radio_out s"
    and "link_runs b new_link xs l" and "commands_sent xs = radio_out s"
    and "radio_send_tx s = Some Open \<longrightarrow> sender_open l \<and> writing l"
  shows "link_runs b new_link (xs @ passed_on s t) (pass_on s t l)"
    and "commands_sent (xs @ passed_on s t) = radio_out t"
    and "radio_send_tx t = Some Open \<longrightarrow> sender_open (pass_on s t l) \<and> writing (pass_on s t l)"
    and "forwarded (pass_on s t l) = forwarded l"
proof -
  obtain new where new: "radio_out t = radio_out s @ new" "newly_sent s t = new"
    and shut: "radio_send_tx s \<noteq> Some Open \<longrightarrow> new = []" and tx: "radio_send_tx t = radio_send_tx s \<or> radio_send_tx t = None"
    using assms(1) by (auto simp: sends_def newly_sent_def)
  have quiet: "l\<lparr>outgoing := outgoing l\<rparr> = l" "l\<lparr>sender_open := sender_open l\<rparr> = l" for l :: radio_link by simp_all
  have r: "link_runs b new_link (xs @ map CoreSends new) (l\<lparr>outgoing := outgoing l @ new\<rparr>)"
  proof (cases "radio_send_tx s = Some Open")
    case True
    then show ?thesis using post_runs [OF assms(2)] assms(4) by simp
  next
    case False
    then show ?thesis using shut assms(2) by simp
  qed
  then have "link_runs b new_link (xs @ passed_on s t) (pass_on s t l)"
    if "radio_send_tx t = None"
    using link_next [OF r core_drops] that by (simp add: passed_on_def pass_on_def new)
  then show "link_runs b new_link (xs @ passed_on s t) (pass_on s t l)"
    using r by (cases "radio_send_tx t") (simp_all add: passed_on_def pass_on_def new)
  show "commands_sent (xs @ passed_on s t) = radio_out t"
    using commands_posted [of xs new] assms(3) link_ghosts(4) [of "xs @ map CoreSends new" CoreDrops]
    by (simp add: passed_on_def new)
  show "radio_send_tx t = Some Open \<longrightarrow> sender_open (pass_on s t l) \<and> writing (pass_on s t l)"
    using assms(4) tx by (auto simp: pass_on_def)
  show "forwarded (pass_on s t l) = forwarded l" by (simp add: pass_on_def)
qed

lemma coupled_task:
  assumes "coupled b m" and "sends (actor_of m) (actor s) \<or>
    radio_send_tx (actor s) = None \<and> radio_out (actor s) = radio_out (actor_of m)"
  shows "coupled b (task_step s m)"
proof -
  have c: "link_runs b new_link (happened m) (radio m)" "commands_sent (happened m) = radio_out (actor_of m)"
    "radio_send_tx (actor_of m) = Some Open \<longrightarrow> sender_open (radio m) \<and> writing (radio m)"
    "prefix (collected m) (forwarded (radio m))"
    using assms(1) by (simp_all add: coupled_def)
  from pass_on_coupled [OF assms(2) c(1-3)] c(4) show ?thesis
    unfolding coupled_def task_step_def by simp
qed

text \<open>A frame of the radio: what it makes the actor send, and what it may make it broadcast.\<close>

lemma takes_parts:
  assumes "sys_step (ActorHandles env (RadioFrame p)) s t"
  shows "\<exists>u. sends (actor s) u \<and>
    (actor t = u \<or> actor t = broadcast p u \<and> p \<noteq> [] \<and> is_push_event (hd p))"
  using assms answering.radio_rx_parts by (auto elim!: sys_stepE)

lemma link_step_ends:
  assumes "link_step b x l k" and "of_link x"
  shows "sent_by_core x = []" and "sender_open k = sender_open l"
    and "prefix (forwarded l) (forwarded k)"
  using assms by (auto elim!: link_stepE simp: read_link_eq write_link_def break_write_def
      forward_frame_def end_forwarding_def)

lemma coupled_step:
  assumes "machine_step b x m n" and "coupled b m"
  shows "coupled b n"
  using assms(1)
proof (cases rule: machine_step.cases)
  case (tasks y s)
  then show ?thesis using coupled_task [OF assms(2)] task_sends [of y "tasks m" s] by blast
next
  case (link y l)
  let ?s = "notice_end l (tasks m)"
  have "radio_out (actor ?s) = radio_out (actor_of m)"
    "radio_send_tx (actor ?s) = Some Open \<longrightarrow> radio_send_tx (actor_of m) = Some Open \<and> writing l"
    by (auto simp: notice_end_def radio_channel_closed_def)
  then show ?thesis
    using link link_step_ends [OF link(4,3)] assms(2) link_next [OF _ link(4), of new_link "happened m"]
      prefix_order.trans [of "collected m" "forwarded (radio m)" "forwarded l"]
    by (auto simp: coupled_def)
next
  case (takes p rest env s)
  obtain u where "sends (actor_of m) u" "actor s = u \<or> actor s = broadcast p u"
    using takes_parts [OF takes(4)] by blast
  then have io: "radio_send_tx (actor s) = radio_send_tx (actor_of m)"
    and "sends (actor_of m) ((actor s)\<lparr>broadcast_out := broadcast_out (actor_of m)\<rparr>)"
    by (auto simp: sends_def broadcast_def)
  then have "coupled b (task_step (s\<lparr>actor := (actor s)\<lparr>broadcast_out := broadcast_out (actor_of m)\<rparr>\<rparr>) m)"
    by (intro coupled_task [OF assms(2)]) simp
  then show ?thesis
    using takes(2,3) by (simp add: coupled_def task_step_def pass_on_def passed_on_def newly_sent_def)
next
  case (reconnects env0 as env dial evs s xs l)
  then show ?thesis by (simp add: coupled_def new_connection_link_def)
qed

lemma machine_invariant:
  "machine_runs b m xs n \<Longrightarrow> I m \<Longrightarrow> (\<And>x m n. machine_step b x m n \<Longrightarrow> I m \<Longrightarrow> I n) \<Longrightarrow> I n"
  by (induction rule: machine_runs.induct) blast+

lemma coupled_start: "machine_starts b m \<Longrightarrow> coupled b m"
  by (auto elim!: machine_starts.cases simp: coupled_def wired_up_def new_system_def new_connection_link_def)

section \<open>The machine refines the system\<close>

text \<open>What a step of the machine is to the system.\<close>

fun seen_as :: "machine_label \<Rightarrow> label list" where
  "seen_as (OfTasks x) = [x]"
| "seen_as (OfLink (WriteBreaks n)) = [ActorHandles test_env RadioChannelClosed]"
| "seen_as (OfLink WriteEnds) = [ActorHandles test_env RadioChannelClosed]"
| "seen_as (OfLink x) = []"
| "seen_as (Takes env p) = [ActorHandles env (RadioFrame p)]"
| "seen_as (Reconnects env0 as env dial evs) = [ActorHandles env0 (RadioLost (as @ [Dial env dial evs]))]"

definition system_labels :: "machine_label list \<Rightarrow> label list" where
  "system_labels xs = concat (map seen_as xs)"

lemma system_labels_simps [simp]:
  "system_labels [] = []" "system_labels (xs @ [x]) = system_labels xs @ seen_as x"
  by (simp_all add: system_labels_def)

lemma closed_step: "sys_step (ActorHandles test_env RadioChannelClosed) s (s\<lparr>actor := radio_channel_closed (actor s)\<rparr>)"
  by (rule sys_step.handles) (simp_all add: own_event_def test_env_ok)

lemma closed_already: "radio_send_tx c \<noteq> Some Open \<Longrightarrow> radio_channel_closed c = c"
  by (cases "radio_send_tx c"; cases "the (radio_send_tx c)") (simp_all add: radio_channel_closed_def)

lemma seen_step:
  assumes "machine_step b x m n" and "coupled b m" and "runs s ls (tasks m)"
  shows "runs s (ls @ seen_as x) (tasks n)"
  using assms(1)
proof (cases rule: machine_step.cases)
  case (tasks y t)
  then show ?thesis using next_step [OF assms(3)] by (simp add: task_step_def)
next
  case (link y l)
  show ?thesis
  proof (cases "writing l")
    case True
    then have "seen_as x = []" using link(1,4) by (auto elim!: link_stepE simp: break_write_def)
    then show ?thesis using link(2) True assms(3) by (simp add: notice_end_def)
  next
    case False
    show ?thesis
    proof (cases "writing (radio m)")
      case True
      then have "seen_as x = [ActorHandles test_env RadioChannelClosed]"
        using link(1,3,4) False by (auto elim!: link_stepE simp: read_link_eq write_link_def forward_frame_def end_forwarding_def)
      then show ?thesis
        using next_step [OF assms(3) closed_step] link(2) False by (simp add: notice_end_def)
    next
      case closed: False
      then have "seen_as x = []" using link(1,4) by (auto elim!: link_stepE)
      moreover have "tasks n = tasks m"
        using closed assms(2) link(2) False closed_already by (simp add: coupled_def notice_end_def)
      ultimately show ?thesis using assms(3) by simp
    qed
  qed
next
  case (takes p rest env t)
  then show ?thesis using next_step [OF assms(3)] by (simp add: task_step_def)
next
  case (reconnects env0 as env dial evs t xs l)
  then show ?thesis using next_step [OF assms(3)] by simp
qed

lemma machine_refines:
  assumes "machine_runs b m xs n" and "coupled b m"
  shows "coupled b n \<and> runs (tasks m) (system_labels xs) (tasks n)"
  using assms(1)
proof (induction rule: machine_runs.induct)
  case (machine_next xs n x k)
  then show ?case using seen_step [of b x n k "tasks m" "system_labels xs"] coupled_step [of b x n k] by simp
qed (simp add: assms(2) runs.none)

section \<open>What the radio said\<close>

definition radio_frames :: "machine \<Rightarrow> frame list" where
  "radio_frames m = concat (map (\<lambda>bs. fst (parse_stream bs)) (earlier m)) @ fst (parse_stream (bytes_read (happened m)))"

lemma decoded_more: "set (fst (parse_stream bs)) \<subseteq> set (fst (parse_stream (bs @ cs)))"
  using parse_stream_append [of bs "fst (parse_stream bs)" "snd (parse_stream bs)" cs]
  by (cases "parse_stream bs") (simp add: split_def)

lemma bytes_read_append: "bytes_read (xs @ ys) = bytes_read xs @ bytes_read ys"
  by (simp add: bytes_read_def)

lemma radio_frames_more:
  "earlier n = earlier m \<Longrightarrow> happened n = happened m @ ys \<Longrightarrow> set (radio_frames m) \<subseteq> set (radio_frames n)"
  using decoded_more [of "bytes_read (happened m)" "bytes_read ys"]
  by (auto simp: radio_frames_def bytes_read_append)

lemma collected_decoded:
  assumes "coupled b m"
  shows "prefix (collected m) (fst (parse_stream (bytes_read (happened m))))"
proof -
  have "prefix (forwarded (radio m)) (fst (parse_stream (bytes_read (happened m))))"
    using link_invariants [of b "happened m" "radio m"] assms
    by (auto simp: coupled_def link_reads_def dest: append_prefixD)
  with assms show ?thesis unfolding coupled_def by (blast intro: prefix_order.trans)
qed

definition broadcasts_heard :: "machine \<Rightarrow> bool" where
  "broadcasts_heard m \<longleftrightarrow>
     (\<forall>p \<in> set (broadcast_out (actor_of m)). p \<in> set (radio_frames m) \<and> is_push_event (hd p))"

lemma broadcasts_same:
  "broadcasts_heard m \<Longrightarrow> broadcast_out (actor_of n) = broadcast_out (actor_of m) \<Longrightarrow>
   set (radio_frames m) \<subseteq> set (radio_frames n) \<Longrightarrow> broadcasts_heard n"
  by (auto simp: broadcasts_heard_def)

lemma broadcasts_step:
  assumes "machine_step b x m n" and "coupled b m" and "broadcasts_heard m"
  shows "broadcasts_heard n"
  using assms(1)
proof (cases rule: machine_step.cases)
  case (tasks y t)
  have "broadcast_out (actor t) = broadcast_out (actor_of m)"
    using task_sends [OF tasks(4,3)] by (auto simp: sends_def)
  moreover have "set (radio_frames m) \<subseteq> set (radio_frames n)"
    by (rule radio_frames_more) (simp_all add: tasks(2) task_step_def)
  ultimately show ?thesis using tasks(2) by (intro broadcasts_same [OF assms(3)]) (simp_all add: task_step_def)
next
  case (link y l)
  have "set (radio_frames m) \<subseteq> set (radio_frames n)"
    by (rule radio_frames_more) (simp_all add: link(2))
  then show ?thesis
    using link(2) by (intro broadcasts_same [OF assms(3)]) (simp_all add: notice_end_def radio_channel_closed_def)
next
  case (takes p rest env t)
  have "set (collected n) \<subseteq> set (fst (parse_stream (bytes_read (happened n))))"
    by (rule set_mono_prefix [OF collected_decoded [OF coupled_step [OF assms(1,2)]]])
  then have "p \<in> set (fst (parse_stream (bytes_read (happened n))))"
    by (auto simp: takes(2))
  then have p: "p \<in> set (radio_frames n)" by (simp add: radio_frames_def)
  have "set (radio_frames m) \<subseteq> set (radio_frames n)"
    by (rule radio_frames_more) (simp_all add: takes(2) task_step_def)
  moreover have "actor_of n = actor t" by (simp add: takes(2) task_step_def)
  moreover have "broadcast_out (actor t) = broadcast_out (actor_of m) \<or>
      broadcast_out (actor t) = broadcast_out (actor_of m) @ [p] \<and> is_push_event (hd p)"
    using takes_parts [OF takes(4)] by (auto simp: sends_def broadcast_def)
  ultimately show ?thesis using assms(3) p by (auto simp: broadcasts_heard_def)
next
  case (reconnects env0 as env dial evs t xs l)
  have "broadcast_out (actor t) = broadcast_out (actor_of m)"
    using reconnects(5) hushed.reconnect_rel by (auto elim!: sys_stepE)
  moreover have "set (radio_frames m) \<subseteq> set (radio_frames n)" by (auto simp: reconnects(2) radio_frames_def)
  ultimately show ?thesis by (intro broadcasts_same [OF assms(3)]) (simp_all add: reconnects(2))
qed

lemma starts_from:
  assumes "machine_starts b m"
  shows "\<exists>env dial evs as cfg d c. startup env dial evs as (new_core cfg d) = Some (Reconnected, c) \<and>
    tasks m = new_system c \<and> broadcast_out c = []"
proof -
  obtain env dial evs as cfg d c where s: "startup env dial evs as (new_core cfg d) = Some (Reconnected, c)"
    and t: "tasks m = new_system c"
    using assms by (auto elim!: machine_starts.cases simp: connects_def starting_def retrying_def wired_up_def)
  have "broadcast_out c = []" using hushed.startup_rel [OF s] by (simp add: new_core_def)
  with s t show ?thesis by blast
qed

text \<open>C5. The program between its clients and its radio, wired as it is. Along any run, in any
  interleaving, through any number of reconnections: the frames the actor has taken over the present
  connection are the first ones of the bytes the radio sent over it; the bytes written to the
  radio are the framed commands of the actor, cut off only when writing failed; each command is
  one of the proxy's own five or a frame that some client sent in full, unchanged but for the
  version in a DEVICE_QUERY; and every broadcast is a push frame the radio sent.\<close>

theorem wired_program:
  assumes "machine_starts b m" and "machine_runs b m xs n" and "length (started (system_labels xs)) < 2 ^ 64"
  shows "prefix (collected n) (fst (parse_stream (bytes_read (happened n)))) \<and>
    prefix (wire_bytes (radio n)) (framed_commands (radio_out (actor_of n))) \<and>
    (writing (radio n) \<longrightarrow>
       wire_bytes (radio n) @ framed_commands (outgoing (radio n)) = framed_commands (radio_out (actor_of n))) \<and>
    (\<forall>p \<in> set (radio_out (actor_of n)). proxy_command p \<or>
       (\<exists>cid. \<exists>f \<in> set (fst (parse_stream (sent cid (system_labels xs)))). relayed_as f p)) \<and>
    (\<forall>p \<in> set (broadcast_out (actor_of n)). p \<in> set (radio_frames n) \<and> is_push_event (hd p))"
proof -
  obtain env dial evs as cfg d c where c: "startup env dial evs as (new_core cfg d) = Some (Reconnected, c)"
    "tasks m = new_system c" "broadcast_out c = []"
    using starts_from [OF assms(1)] by blast
  have n: "coupled b n" and r: "runs (new_system c) (system_labels xs) (tasks n)"
    using machine_refines [OF assms(2) coupled_start [OF assms(1)]] c(2) by simp_all
  have "coupled b n \<and> broadcasts_heard n"
    by (rule machine_invariant [OF assms(2)])
      (use coupled_start [OF assms(1)] c(2,3) coupled_step broadcasts_step in
        \<open>auto simp: broadcasts_heard_def new_system_def\<close>)
  moreover have "proxy_command p \<or> (\<exists>cid. \<exists>f \<in> set (fst (parse_stream (sent cid (system_labels xs)))). relayed_as f p)"
    if "p \<in> set (radio_out (actor_of n))" for p
    using traffic_asked_for [OF c(1) r assms(3)] that by (simp add: traffic_def)
  ultimately show ?thesis
    using collected_decoded [OF n] link_invariants [of b "happened n" "radio n"] n
    by (simp add: coupled_def link_writes_def broadcasts_heard_def)
qed

section \<open>A run\<close>

text \<open>The radio answers the handshake; then it announces a message, which is broadcast.\<close>

definition demo_link :: "frame list \<Rightarrow> frame list \<Rightarrow> radio_link" where
  "demo_link out fw = new_link\<lparr>outgoing := out, forwarded := fw\<rparr>"

definition framed_byte :: "u8 \<Rightarrow> frame" where
  "framed_byte x = [0x3e, 1, 0, x]"

lemma framed_byte_read:
  "link_step b (ReadBytes (framed_byte x)) (demo_link out fw) ((demo_link out fw)\<lparr>pending_frames := [[x]]\<rparr>)"
proof -
  have "feed new_parser (framed_byte x) = (new_parser, [[x]])" by (simp add: framed_byte_def feed_def) code_simp
  then show ?thesis
    using reads [of "demo_link out fw" "framed_byte x" b]
    by (simp add: demo_link_def new_link_def read_link_eq framed_byte_def)
qed

lemma pending_forwarded:
  "link_step b Forwards ((demo_link out fw)\<lparr>pending_frames := [p]\<rparr>) (demo_link out (fw @ [p]))"
  using forwards [of "(demo_link out fw)\<lparr>pending_frames := [p]\<rparr>" p "[]" b]
  by (simp add: demo_link_def new_link_def forward_frame_def)

lemma demo_hears:
  "link_runs b k xs (demo_link out fw) \<Longrightarrow>
   link_runs b k (xs @ [ReadBytes (framed_byte x), Forwards]) (demo_link out (fw @ [[x]]))"
  using link_next [OF link_next [OF _ framed_byte_read] pending_forwarded] by fastforce

lemma demo_posts:
  "link_runs b k xs (demo_link out fw) \<Longrightarrow> link_runs b k (xs @ [CoreSends p]) (demo_link (out @ [p]) fw)"
  using post_runs [of b k xs "demo_link out fw" "[p]"] by (simp add: demo_link_def new_link_def)

definition handshake_labels :: "link_label list" where
  "handshake_labels = [CoreSends build_appstart, ReadBytes (framed_byte 0x05), Forwards,
     CoreSends [0x16, 3], ReadBytes (framed_byte 0x01), Forwards, CoreSends [0x04]]"

definition handshake_link :: radio_link where
  "handshake_link = demo_link [build_appstart, [0x16, 3], [0x04]] [[0x05], [0x01]]"

lemma handshake_runs: "link_runs b new_link handshake_labels handshake_link"
proof -
  have "new_link = demo_link [] []" by (simp add: demo_link_def new_link_def)
  then have "link_runs b new_link [] (demo_link [] [])" by (metis link_none)
  from demo_posts [OF demo_hears [OF demo_posts [OF demo_hears [OF demo_posts [OF this]]]]]
  show ?thesis by (simp add: handshake_labels_def handshake_link_def)
qed

definition handshake_events :: timed_events where
  "handshake_events = [(10001, Received [0x05]), (10002, Received [0x01])]"

lemma radio_answers_at_once:
  "\<exists>c. connects (starting test_env (\<lambda>t. True) (new_core test_config empty_state)) handshake_events c \<and>
     radio_out c = [build_appstart, [0x16, 3], [0x04]] \<and> radio_send_tx c = Some Open \<and>
     broadcast_out c = [] \<and> conf c = test_config \<and>
     map_option awaiting_reply (in_flight c) = Some (Stream [0x02, 0x03] 0x04)"
proof -
  have d: "decode_response_payload two_chars 5 [5] = Some None"
    by (simp add: decode_response_payload_def decode_response_arms_def nonempty_map_def)
  show ?thesis
    by (simp add: connects_def starting_def handshake_events_def startup_def start_radio_def connect_backend_def
        backend_target_def initialize_radio_def send_to_radio_def Let_def new_core_def test_config_def test_env_def
        cache_response_def extract_radio_identity_def d write_db_def kv_set_def run_query_def
        SELF_INFO_TIMEOUT_def DEVICE_INFO_TIMEOUT_def sync_from_radio_def queue_sync_def
        advance_queue_sync.simps client_gone_def internal_def new_flight_def
        awaiting_for_def awaiting_of_def restore_blobs_def kv_blob_def kv_get_def RADIO_PROTOCOL_VERSION_def
        migrate_def empty_state_def hm_get_def hm_retain_def hm_insert_def)
qed

theorem wired_program_witness:
  "\<exists>m n. machine_starts TcpSocket m \<and>
     machine_runs TcpSocket m [OfLink (ReadBytes (framed_byte 0x83)), OfLink Forwards, Takes test_env [0x83]] n \<and>
     prefix [[0x05], [0x01], [0x83]] (fst (parse_stream (bytes_read (happened n)))) \<and>
     wire_bytes (radio n) @ framed_commands (outgoing (radio n)) =
       framed_commands [build_appstart, [0x16, 3], [0x04]] \<and>
     [0x83] \<in> set (radio_frames n)"
proof -
  obtain c where c: "connects (starting test_env (\<lambda>t. True) (new_core test_config empty_state)) handshake_events c"
    and out: "radio_out c = [build_appstart, [0x16, 3], [0x04]]" "radio_send_tx c = Some Open" "broadcast_out c = []"
    and k: "conf c = test_config" "map_option awaiting_reply (in_flight c) = Some (Stream [0x02, 0x03] 0x04)"
    using radio_answers_at_once by blast
  let ?m = "wired_up c handshake_events handshake_labels handshake_link" and ?x = "ReadBytes (framed_byte 0x83)"
  let ?l = "demo_link [build_appstart, [0x16, 3], [0x04]]" and ?c = "broadcast [0x83] c"
  define m1 where "m1 = ?m\<lparr>radio := handshake_link\<lparr>pending_frames := [[0x83]]\<rparr>, happened := handshake_labels @ [?x]\<rparr>"
  define m2 where "m2 = ?m\<lparr>radio := ?l [[0x05], [0x01], [0x83]], happened := handshake_labels @ [?x, Forwards]\<rparr>"
  define m3 where "m3 = (task_step (tasks ?m\<lparr>actor := ?c\<rparr>) m2)\<lparr>collected := [[0x05], [0x01], [0x83]]\<rparr>"
  have r: "received handshake_events = [[0x05], [0x01]]" by (simp add: received_def handshake_events_def)
  have s: "commands_sent handshake_labels = [build_appstart, [0x16, 3], [0x04]]"
    by (simp add: handshake_labels_def commands_sent_def)
  have up: "writing handshake_link" "sender_open handshake_link" "forwarded handshake_link = [[0x05], [0x01]]"
    by (simp_all add: handshake_link_def demo_link_def new_link_def)
  have m: "machine_starts TcpSocket ?m"
    by (rule at_once [OF c]) (simp add: new_connection_link_def handshake_runs r s up out)
  have "machine_step TcpSocket (OfLink ?x) ?m m1"
    using link [of ?x TcpSocket ?m "handshake_link\<lparr>pending_frames := [[0x83]]\<rparr>"] framed_byte_read [of TcpSocket "0x83" "[build_appstart, [0x16, 3], [0x04]]" "[[0x05], [0x01]]"]
    by (simp add: m1_def wired_up_def handshake_link_def notice_end_def demo_link_def new_link_def)
  note run = machine_next [OF machine_none this]
  have "machine_step TcpSocket (OfLink Forwards) m1 m2"
    using link [of Forwards TcpSocket m1 "?l [[0x05], [0x01], [0x83]]"] pending_forwarded [of TcpSocket "[0x83]" "[build_appstart, [0x16, 3], [0x04]]" "[[0x05], [0x01]]"]
    by (simp add: m1_def m2_def wired_up_def handshake_link_def notice_end_def demo_link_def new_link_def)
  note run = machine_next [OF run this]
  have "sys_step (ActorHandles test_env (RadioFrame [0x83])) (tasks ?m) (tasks ?m\<lparr>actor := ?c\<rparr>)"
    using push_is_broadcast [OF k] k
    by (intro sys_step.handles) (simp_all add: own_event_def test_env_ok log_panics_def wired_up_def new_system_def)
  then have "machine_step TcpSocket (Takes test_env [0x83]) m2 m3"
    using takes [of m2 "[0x83]" "[]" test_env "tasks ?m\<lparr>actor := ?c\<rparr>" TcpSocket]
    by (simp add: m2_def m3_def wired_up_def r demo_link_def)
  note run = machine_next [OF run this]
  have n: "machine_runs TcpSocket ?m [OfLink ?x, OfLink Forwards, Takes test_env [0x83]] m3" using run by simp
  have m3: "collected m3 = [[0x05], [0x01], [0x83]]" "radio_out (actor_of m3) = radio_out c" "writing (radio m3)"
    "broadcast_out (actor_of m3) = [[0x83]]"
    by (simp_all add: m3_def m2_def task_step_def broadcast_def pass_on_def demo_link_def new_link_def out
        wired_up_def new_system_def)
  have "length (started (system_labels [OfLink ?x, OfLink Forwards, Takes test_env [0x83]])) < 2 ^ 64"
    by (simp add: system_labels_def started_def)
  from wired_program [OF m n this] m n m3 out(1) show ?thesis by (intro exI [of _ ?m] exI [of _ m3]) simp
qed

end
