(* ===== verification/Bluetooth.thy ===== *)
theory Bluetooth
  imports Prelude "HOL-Library.Sublist"
begin

text \<open>
  The Bluetooth backend, \<open>src/backend/ble.rs\<close>: finding the device by its address while scanning,
  connecting, picking the two characteristics, and passing packets on. What the Bluetooth stack
  and the crate of the UUIDs answer is in a record the operations take.
\<close>

section \<open>The Bluetooth stack\<close>

text \<open>
  \<open>discovered\<close>: the devices announced after the scan started, with the milliseconds until then;
  \<open>local_name_of\<close>: the name in the properties of a device, when they can be read;
  \<open>uuid_string\<close>: \<open>Uuid::to_string\<close>; \<open>to_uppercase\<close>: \<open>str::to_uppercase\<close>, all of Unicode.
\<close>

record ('p, 'u) ble_stack =
  manager_ok :: bool
  adapters :: "nat option"
  scan_ok :: bool
  events_ok :: bool
  discovered :: "(nat \<times> 'p) list"
  id_string :: "'p \<Rightarrow> string"
  local_name_of :: "'p \<Rightarrow> string option"
  peripheral_ok :: "'p \<Rightarrow> bool"
  connects :: "'p \<Rightarrow> bool"
  discovers :: "'p \<Rightarrow> bool"
  characteristics :: "'p \<Rightarrow> 'u list"
  uuid_string :: "'u \<Rightarrow> string"
  to_uppercase :: "string \<Rightarrow> string"

datatype ble_error =
    NoManager | NoAdapters | NoAdapter | ScanFailed | NoEvents | NotFound | NoPeripheral
  | ConnectFailed | DiscoverFailed | NoTxCharacteristic | NoRxCharacteristic

definition MESHCORE_TX_UUID :: string where
  "MESHCORE_TX_UUID = ''49535343-1E4D-4BD9-BA61-23C647249616''"

definition MESHCORE_RX_UUID :: string where
  "MESHCORE_RX_UUID = ''49535343-8841-43F4-A8D4-ECBE34729BB3''"

definition SCAN_TIMEOUT :: nat where
  "SCAN_TIMEOUT = 10000"

section \<open>Scanning\<close>

text \<open>The first device that matches, of those announced before the timeout.\<close>

definition scan_for :: "('p \<Rightarrow> bool) \<Rightarrow> ('p, 'u) ble_stack \<Rightarrow> ble_error + 'p" where
  "scan_for matches w =
     (if \<not> scan_ok w then Inl ScanFailed
      else if \<not> events_ok w then Inl NoEvents
      else case find (\<lambda>(t, p). matches p) (takeWhile (\<lambda>(t, p). t < SCAN_TIMEOUT) (discovered w)) of
          None \<Rightarrow> Inl NotFound
        | Some (t, p) \<Rightarrow> Inr p)"

definition find_by_mac :: "('p, 'u) ble_stack \<Rightarrow> string \<Rightarrow> ble_error + 'p" where
  "find_by_mac w mac =
     scan_for (\<lambda>p. peripheral_ok w p \<and>
       (case local_name_of w p of None \<Rightarrow> False
        | Some name \<Rightarrow> to_uppercase w name = to_uppercase w mac)) w"

definition find_by_uuid :: "('p, 'u) ble_stack \<Rightarrow> string \<Rightarrow> ble_error + 'p" where
  "find_by_uuid w uuid = scan_for (\<lambda>p. to_uppercase w (id_string w p) = to_uppercase w uuid) w"

section \<open>Connecting\<close>

definition is_uuid_address :: "string \<Rightarrow> bool" where
  "is_uuid_address address \<longleftrightarrow> CHR ''-'' \<in> set address \<and> length address > 20"

definition find_device :: "('p, 'u) ble_stack \<Rightarrow> string \<Rightarrow> ble_error + 'p" where
  "find_device w address =
     (if \<not> manager_ok w then Inl NoManager
      else case adapters w of
          None \<Rightarrow> Inl NoAdapters
        | Some n \<Rightarrow>
            if n = 0 then Inl NoAdapter
            else if is_uuid_address address then find_by_uuid w address
            else find_by_mac w address)"

definition pick_characteristic :: "('p, 'u) ble_stack \<Rightarrow> string \<Rightarrow> 'p \<Rightarrow> 'u option" where
  "pick_characteristic w wanted p = find (\<lambda>u. uuid_string w u = wanted) (characteristics w p)"

text \<open>The device and the characteristics to write to and to be notified by.\<close>

definition ble_connect :: "('p, 'u) ble_stack \<Rightarrow> string \<Rightarrow> ble_error + 'p \<times> 'u \<times> 'u" where
  "ble_connect w address =
     (case find_device w address of
        Inl e \<Rightarrow> Inl e
      | Inr p \<Rightarrow>
          if \<not> peripheral_ok w p then Inl NoPeripheral
          else if \<not> connects w p then Inl ConnectFailed
          else if \<not> discovers w p then Inl DiscoverFailed
          else case pick_characteristic w MESHCORE_TX_UUID p of
              None \<Rightarrow> Inl NoTxCharacteristic
            | Some tx \<Rightarrow>
                (case pick_characteristic w MESHCORE_RX_UUID p of
                   None \<Rightarrow> Inl NoRxCharacteristic
                 | Some rx \<Rightarrow> Inr (p, tx, rx)))"

section \<open>Packets\<close>

text \<open>The tasks of a connection: packets are frames. A failed write ends the writing task. Both tasks
  are spawned, so one that is left alone when the other ends goes on.\<close>

record ble_link =
  notified_frames :: "frame list"
  ble_outgoing :: "frame list"
  ble_written :: "frame list"
  ble_sender_open :: bool
  ble_notifying :: bool
  ble_writing :: bool

definition new_ble_link :: ble_link where
  "new_ble_link = \<lparr>notified_frames = [], ble_outgoing = [], ble_written = [], ble_sender_open = True,
     ble_notifying = True, ble_writing = True\<rparr>"

definition notify_task :: "('p, 'u) ble_stack \<Rightarrow> 'u \<times> frame \<Rightarrow> ble_link \<Rightarrow> ble_link" where
  "notify_task w n l =
     (if uuid_string w (fst n) = MESHCORE_RX_UUID
      then l\<lparr>notified_frames := notified_frames l @ [snd n]\<rparr> else l)"

definition write_task :: "bool \<Rightarrow> ble_link \<Rightarrow> ble_link" where
  "write_task ok l =
     (case ble_outgoing l of
        [] \<Rightarrow> l
      | p # rest \<Rightarrow>
          if ok then l\<lparr>ble_outgoing := rest, ble_written := ble_written l @ [p]\<rparr>
          else l\<lparr>ble_outgoing := rest, ble_writing := False\<rparr>)"

text \<open>What happens to the tasks. A write that returns is that of the first packet in the channel; the
  channel ends when it is empty and its sending end is gone; once the writing task is gone nothing
  more can be sent.\<close>

datatype 'u ble_event =
    Notified 'u frame | NotificationsEnd | PacketSent frame | SenderDropped | WriteReturns bool | ChannelEnds

fun packet_task :: "('p, 'u) ble_stack \<Rightarrow> 'u ble_event \<Rightarrow> ble_link \<Rightarrow> ble_link" where
  "packet_task w (Notified u f) l = (if ble_notifying l then notify_task w (u, f) l else l)"
| "packet_task w NotificationsEnd l = l\<lparr>ble_notifying := False\<rparr>"
| "packet_task w (PacketSent f) l =
     (if ble_sender_open l \<and> ble_writing l then l\<lparr>ble_outgoing := ble_outgoing l @ [f]\<rparr> else l)"
| "packet_task w SenderDropped l = l\<lparr>ble_sender_open := False\<rparr>"
| "packet_task w (WriteReturns ok) l = (if ble_writing l then write_task ok l else l)"
| "packet_task w ChannelEnds l =
     (if ble_outgoing l = [] \<and> \<not> ble_sender_open l then l\<lparr>ble_writing := False\<rparr> else l)"

definition packet_tasks :: "('p, 'u) ble_stack \<Rightarrow> 'u ble_event list \<Rightarrow> ble_link \<Rightarrow> ble_link" where
  "packet_tasks w evs l = fold (packet_task w) evs l"

text \<open>The task of a connection: without a subscription or a stream of notifications it returns, and
  both tasks have not been. The other side learns of the end when one of them ends.\<close>

definition ble_task :: "('p, 'u) ble_stack \<Rightarrow> bool \<Rightarrow> bool \<Rightarrow> 'u ble_event list \<Rightarrow> ble_link \<Rightarrow> ble_link" where
  "ble_task w subscribes notifies evs l =
     (if \<not> subscribes \<or> \<not> notifies then l\<lparr>ble_notifying := False, ble_writing := False\<rparr>
      else packet_tasks w evs l)"

definition ble_disconnected :: "ble_link \<Rightarrow> bool" where
  "ble_disconnected l \<longleftrightarrow> \<not> ble_notifying l \<or> \<not> ble_writing l"

text \<open>The packets sent are written in order: all but those still in the channel while the writing task
  runs, and the first ones when it does not.\<close>

fun packet_of :: "'u ble_event \<Rightarrow> frame list" where
  "packet_of (PacketSent f) = [f]"
| "packet_of ev = []"

definition packets_sent :: "'u ble_event list \<Rightarrow> frame list" where
  "packets_sent evs = concat (map packet_of evs)"

lemma notify_task_simps [simp]:
  "ble_outgoing (notify_task w n l) = ble_outgoing l" "ble_written (notify_task w n l) = ble_written l"
  "ble_sender_open (notify_task w n l) = ble_sender_open l" "ble_writing (notify_task w n l) = ble_writing l"
  by (simp_all add: notify_task_def)

definition packets_kept :: "frame list \<Rightarrow> ble_link \<Rightarrow> bool" where
  "packets_kept ps l \<longleftrightarrow>
     (if ble_writing l then prefix (ble_written l @ ble_outgoing l) ps \<and>
        (ble_sender_open l \<longrightarrow> ble_written l @ ble_outgoing l = ps)
      else prefix (ble_written l) ps)"

lemma packets_kept_step:
  "packets_kept ps l \<Longrightarrow> packets_kept (ps @ packet_of ev) (packet_task w ev l)"
  by (cases ev)
    (auto simp: packets_kept_def write_task_def intro: prefix_prefix append_prefixD split: list.split if_splits)

lemma packets_in_order:
  assumes "packets_kept ps l"
  shows "packets_kept (ps @ packets_sent evs) (packet_tasks w evs l)"
  using assms
proof (induction evs arbitrary: ps l)
  case (Cons ev evs)
  from Cons.IH [OF packets_kept_step [OF Cons.prems]] show ?case
    by (simp add: packets_sent_def packet_tasks_def)
qed (simp add: packets_sent_def packet_tasks_def)

lemma new_link_packets:
  "prefix (ble_written (packet_tasks w evs new_ble_link)) (packets_sent evs)"
  using packets_in_order [of "[]" new_ble_link evs w]
  by (auto simp: packets_kept_def new_ble_link_def dest: append_prefixD split: if_splits)

section \<open>Properties\<close>

lemma scan_for_Inr:
  "scan_for matches w = Inr p \<Longrightarrow>
   matches p \<and> (\<exists>t < SCAN_TIMEOUT. (t, p) \<in> set (discovered w))"
  by (force simp: scan_for_def find_Some_iff split: if_splits option.splits
      dest: nth_mem set_takeWhileD)

text \<open>A device given by its MAC address is found only if it advertises that text as its name.\<close>

lemma find_by_mac_by_name:
  "find_by_mac w mac = Inr p \<Longrightarrow>
   \<exists>name. local_name_of w p = Some name \<and> to_uppercase w name = to_uppercase w mac"
  using scan_for_Inr [of _ w p] by (force simp: find_by_mac_def split: option.splits)

text \<open>The documented output of the crate: hexadecimal digits in lower case and hyphens.\<close>

definition lower_hex :: "char \<Rightarrow> bool" where
  "lower_hex c \<longleftrightarrow> c \<in> set ''0123456789abcdef-''"

definition prints_lower_case :: "('p, 'u) ble_stack \<Rightarrow> bool" where
  "prints_lower_case w \<longleftrightarrow>
     (\<forall>p. \<forall>u \<in> set (characteristics w p). \<forall>c \<in> set (uuid_string w u). lower_hex c)"

lemma tx_not_lower: "\<not> (\<forall>c \<in> set MESHCORE_TX_UUID. lower_hex c)"
  by (simp add: MESHCORE_TX_UUID_def lower_hex_def)

text \<open>The same comparison drops every notification.\<close>

lemma notifications_dropped:
  "\<forall>u f. Notified u f \<in> set evs \<longrightarrow> (\<forall>c \<in> set (uuid_string w u). lower_hex c) \<Longrightarrow>
   notified_frames (packet_tasks w evs l) = notified_frames l"
proof (induction evs arbitrary: l)
  case (Cons ev evs)
  have rx: "\<not> (\<forall>c \<in> set MESHCORE_RX_UUID. lower_hex c)"
    by (simp add: MESHCORE_RX_UUID_def lower_hex_def)
  have "notified_frames (packet_task w ev l) = notified_frames l"
  proof (cases ev)
    case (Notified u f)
    then have "uuid_string w u \<noteq> MESHCORE_RX_UUID" using Cons.prems rx by force
    then show ?thesis using Notified by (simp add: notify_task_def)
  qed (simp_all add: write_task_def split: list.split)
  moreover have "notified_frames (packet_tasks w evs (packet_task w ev l)) = notified_frames (packet_task w ev l)"
    by (rule Cons.IH) (use Cons.prems in \<open>meson list.set_intros(2)\<close>)
  ultimately show ?case by (simp add: packet_tasks_def)
qed (simp add: packet_tasks_def)

lemma no_tx: "prints_lower_case w \<Longrightarrow> pick_characteristic w MESHCORE_TX_UUID p = None"
  using tx_not_lower by (auto simp: pick_characteristic_def find_None_iff prints_lower_case_def)

text \<open>C34. No Bluetooth device is ever connected: the crate prints UUIDs in lower case and the two
  constants have capital letters, so the search for the characteristic to write to fails on every
  device that was found, connected to and explored.\<close>

theorem ble_never_connects:
  assumes "prints_lower_case w"
  shows "\<exists>e. ble_connect w address = Inl e \<and>
    (\<forall>p. find_device w address = Inr p \<and> peripheral_ok w p \<and> connects w p \<and> discovers w p \<longrightarrow>
       e = NoTxCharacteristic)"
  using no_tx [OF assms] by (auto simp: ble_connect_def split: sum.split)

text \<open>A stack with one device, that has both characteristics.\<close>

definition test_stack :: "(nat, string) ble_stack" where
  "test_stack = \<lparr>manager_ok = True, adapters = Some 1, scan_ok = True, events_ok = True,
     discovered = [(200, 1)], id_string = (\<lambda>p. ''dev''), local_name_of = (\<lambda>p. Some ''AA:BB''),
     peripheral_ok = (\<lambda>p. True), connects = (\<lambda>p. True), discovers = (\<lambda>p. True),
     characteristics = (\<lambda>p. [''49535343-1e4d-4bd9-ba61-23c647249616'', ''49535343-8841-43f4-a8d4-ecbe34729bb3'']),
     uuid_string = id, to_uppercase = id\<rparr>"

theorem ble_never_connects_witness:
  "find_device test_stack ''AA:BB'' = Inr 1 \<and> ble_connect test_stack ''AA:BB'' = Inl NoTxCharacteristic"
proof -
  have "prints_lower_case test_stack" by (simp add: prints_lower_case_def test_stack_def lower_hex_def)
  moreover have "find_device test_stack ''AA:BB'' = Inr 1"
    by (simp add: find_device_def is_uuid_address_def find_by_mac_def scan_for_def test_stack_def SCAN_TIMEOUT_def)
  ultimately show ?thesis
    using ble_never_connects [of test_stack "''AA:BB''"] by (auto simp: test_stack_def)
qed

end
