(* ===== verification/Process.thy ===== *)
theory Process
  imports Core_Props Schema
begin

text \<open>
  The process, \<open>src/main.rs\<close>: the signals it waits for, the data directory, opening the database,
  and the actor from its start to the end of its loop. Running out of the given events is a result
  of its own, so that a theorem can say that the program ends.
\<close>

section \<open>Signals\<close>

datatype os_signal = SigInt | SigTerm | OtherSignal

text \<open>The task that waits returns at the first of the two signals.\<close>

fun wait_for_shutdown :: "os_signal list \<Rightarrow> os_signal option" where
  "wait_for_shutdown [] = None"
| "wait_for_shutdown (sig # sigs) =
     (if sig = SigInt \<or> sig = SigTerm then Some sig else wait_for_shutdown sigs)"

section \<open>The actor from start to end\<close>

datatype run_state =
    Starting core
  | Reconnecting core
  | Running core
  | Returned core

text \<open>The loop of \<open>Core::run\<close> with its end: \<open>Reconnecting\<close> is a reconnection that still goes on.\<close>

fun main_loop :: "(env \<times> core_event) list \<Rightarrow> core \<Rightarrow> run_state or_panic" where
  "main_loop [] s = Some (Running s)"
| "main_loop ((env, ev) # evs) s =
     (case ev of
        ShutdownSignal \<Rightarrow> Some (Returned (shutdown s))
      | RadioLost attempts \<Rightarrow>
          Option.bind (reconnect_radio attempts s) (\<lambda>(r, ds, t).
            if r = StillTrying then Some (Reconnecting t) else main_loop evs t)
      | _ \<Rightarrow> Option.bind (handle_event env ev s) (main_loop evs))"

definition core_run ::
  "env \<Rightarrow> (connect_target \<Rightarrow> bool) \<Rightarrow> timed_events \<Rightarrow> attempt list \<Rightarrow> (env \<times> core_event) list \<Rightarrow> core \<Rightarrow>
     run_state or_panic" where
  "core_run env dial evs attempts events s =
     Option.bind (startup env dial evs attempts s) (\<lambda>(r, t).
       if r = StillTrying then Some (Starting t) else main_loop events t)"

text \<open>What \<open>Core::new\<close> gets from the file: \<open>new_core\<close> on the tables of the migrated database.\<close>

definition core_new ::
  "core_config \<Rightarrow> bool \<Rightarrow> (nat \<Rightarrow> bool) \<Rightarrow> database option \<Rightarrow> core db_result" where
  "core_new cfg connects ok file =
     (case open_database connects ok file of
        (Some d, Inr _) \<Rightarrow> Inr (new_core cfg (load d))
      | (None, Inr _) \<Rightarrow> Inl SqlError
      | (f, Inl e) \<Rightarrow> Inl e)"

datatype main_result = NoDataDir | NoDatabase db_error | Ran run_state

definition main_program ::
  "cli \<Rightarrow> bool \<Rightarrow> bool \<Rightarrow> (nat \<Rightarrow> bool) \<Rightarrow> database option \<Rightarrow> env \<Rightarrow> (connect_target \<Rightarrow> bool) \<Rightarrow>
     timed_events \<Rightarrow> attempt list \<Rightarrow> (env \<times> core_event) list \<Rightarrow> main_result or_panic" where
  "main_program c dir_ok connects ok file env dial evs attempts events =
     (if \<not> dir_ok then Some NoDataDir
      else case core_new (into_config c) connects ok file of
          Inl e \<Rightarrow> Some (NoDatabase e)
        | Inr s \<Rightarrow> map_option Ran (core_run env dial evs attempts events s))"

section \<open>Hearing the signal\<close>

text \<open>
  The receiver of the shutdown flag reports each change once, and at once when the sender is gone,
  which it is after the signal: so every wait that starts or goes on after the signal hears it. In
  a script of the radio that is its last event, in a list of attempts its last entry.
\<close>

definition hears :: "timed_events \<Rightarrow> bool" where
  "hears evs \<longleftrightarrow> evs \<noteq> [] \<and> snd (last evs) = ShutdownSeen"

definition attempts_hear :: "attempt list \<Rightarrow> bool" where
  "attempts_hear as \<longleftrightarrow> as \<noteq> [] \<and> last as = ShutdownFirst \<and>
     (\<forall>a \<in> set as. case a of ShutdownFirst \<Rightarrow> True | Dial e d evs \<Rightarrow> hears evs)"

lemma hears_Cons: "hears (te # evs) \<longleftrightarrow> (if evs = [] then snd te = ShutdownSeen else hears evs)"
  by (simp add: hears_def)

lemma self_info_hears:
  "wait_for_self_info env deadline now evs s = Some (r, n, rest, t) \<Longrightarrow> hears evs \<Longrightarrow>
   r \<noteq> Waiting \<and> (r = Ready \<longrightarrow> hears rest)"
  by (induction env deadline now evs s rule: wait_for_self_info.induct)
    (auto simp: hears_def bind_eq_Some_conv split: if_splits wait_event.splits)

lemma device_info_hears:
  "wait_for_device_info env deadline now evs s = Some (r, n, rest, t) \<Longrightarrow> hears evs \<Longrightarrow> r \<noteq> Waiting"
  by (induction env deadline now evs s rule: wait_for_device_info.induct)
    (auto simp: hears_def bind_eq_Some_conv split: if_splits wait_event.splits)

lemma initialize_hears:
  assumes "initialize_radio env evs s = Some (r, t)" and "hears evs"
  shows "r \<noteq> Waiting"
proof (cases "send_to_radio build_appstart s")
  case (Inr s1)
  then obtain r1 n rest s2 where
    w: "wait_for_self_info env (instant_now env + SELF_INFO_TIMEOUT) (instant_now env) evs s1 = Some (r1, n, rest, s2)"
    using assms(1) by (auto simp: initialize_radio_def bind_eq_Some_conv)
  have h: "r1 \<noteq> Waiting" "r1 = Ready \<Longrightarrow> hears rest" using self_info_hears [OF w assms(2)] by auto
  show ?thesis
  proof (cases r1)
    case Ready
    then show ?thesis
      using assms(1) Inr w h(2)
      by (auto simp: initialize_radio_def bind_eq_Some_conv split: sum.splits dest: device_info_hears)
  qed (use assms(1) Inr w h(1) in \<open>auto simp: initialize_radio_def\<close>)
qed (use assms(1) in \<open>auto simp: initialize_radio_def\<close>)

lemma attempts_hear_Cons:
  "attempts_hear (a # as) \<longleftrightarrow>
     (case a of ShutdownFirst \<Rightarrow> True | Dial e d evs \<Rightarrow> hears evs) \<and>
     (if as = [] then a = ShutdownFirst else attempts_hear as)"
  by (auto simp: attempts_hear_def)

lemma reconnect_loop_hears:
  "reconnect_loop delay as s = Some (r, ds, t) \<Longrightarrow> attempts_hear as \<Longrightarrow> r \<noteq> StillTrying"
proof (induction rule: reconnect_loop_induct)
  case (Waiting delay dial evs later s s1 s2)
  then show ?case by (auto simp: attempts_hear_Cons dest: initialize_hears)
qed (auto simp: attempts_hear_Cons attempts_hear_def split: if_splits)

lemma reconnect_hears:
  "reconnect_radio as s = Some (r, ds, t) \<Longrightarrow> attempts_hear as \<Longrightarrow> r \<noteq> StillTrying"
  unfolding reconnect_radio_def by (rule reconnect_loop_hears)

lemma start_radio_hears:
  assumes "start_radio env dial evs as s = Some (r, t)" and "hears evs" and "attempts_hear as"
  shows "r \<noteq> StillTrying"
proof -
  have retry: "q \<noteq> StillTrying"
    if "map_option (\<lambda>(r, ds, t). (r, t)) (reconnect_radio as u) = Some (q, w)" for u q w
    using that by (auto dest: reconnect_hears [OF _ assms(3)])
  show ?thesis
  proof (cases "connect_backend env dial s")
    case (Inl e)
    then show ?thesis using assms(1) retry by (simp add: start_radio_def Let_def)
  next
    case (Inr u)
    then obtain o1 v where i: "initialize_radio env evs u = Some (o1, v)"
      using assms(1) by (auto simp: start_radio_def Let_def bind_eq_Some_conv)
    then show ?thesis
      using assms(1) Inr retry [of "v\<lparr>radio_send_tx := None\<rparr>"] initialize_hears [OF i assms(2)]
      by (cases o1) (auto simp: start_radio_def Let_def bind_eq_Some_conv)
  qed
qed

lemma startup_hears:
  "startup env dial evs as s = Some (r, t) \<Longrightarrow> hears evs \<Longrightarrow> attempts_hear as \<Longrightarrow> r \<noteq> StillTrying"
  by (auto simp: startup_def bind_eq_Some_conv dest: start_radio_hears split: if_splits)

section \<open>The program ends\<close>

text \<open>Events the log decodes without a panic, and whose reconnections hear the signal.\<close>

fun well_formed :: "env \<times> core_event \<Rightarrow> bool" where
  "well_formed (env, ClientCommandEvent cmd) \<longleftrightarrow> hex_ok env \<and>
     \<not> (hd (command_payload cmd) = 0x04 \<and> 2 \<le> length (command_payload cmd) \<and> length (command_payload cmd) < 5)"
| "well_formed (env, RadioFrame p) \<longleftrightarrow> hex_ok env \<and>
     \<not> (hd p = 0x06 \<and> length p = 9 \<or> hd p = 0x10 \<and> 13 \<le> length p \<and> length p < 16 \<or>
        hd p = 0x12 \<and> 3 \<le> length p \<and> length p < 34)"
| "well_formed (env, RadioLost as) \<longleftrightarrow> hex_ok env \<and> quiet_attempts as \<and> attempts_hear as"
| "well_formed (env, ev) \<longleftrightarrow> hex_ok env"

lemma well_formed_calm: "well_formed (env, ev) \<Longrightarrow> hex_ok env \<and> \<not> event_panics env ev s"
  by (cases ev) (auto simp: log_panics_def split: list.split)

lemma main_loop_Cons:
  "ev \<noteq> ShutdownSignal \<Longrightarrow> handle_event env ev s = Some t \<Longrightarrow>
   \<forall>as ds. ev = RadioLost as \<longrightarrow> reconnect_radio as s \<noteq> Some (StillTrying, ds, t) \<Longrightarrow>
   main_loop ((env, ev) # evs) s = main_loop evs t"
  by (cases ev) auto

lemma main_loop_ends:
  "core_inv s \<Longrightarrow> \<forall>e \<in> set events. well_formed e \<Longrightarrow> (env, ShutdownSignal) \<in> set events \<Longrightarrow>
   \<exists>t. main_loop events s = Some (Returned t) \<and> run_loop events s = Some t \<and> radio_send_tx t = None \<and>
     core_inv t"
proof (induction events arbitrary: s)
  case (Cons e events)
  obtain env' ev where e: "e = (env', ev)" by fastforce
  show ?case
  proof (cases "ev = ShutdownSignal")
    case True
    have "core_inv (shutdown s)" if "handle_event env' ShutdownSignal s = Some (shutdown s)"
      using handle_event_inv [of env' s ShutdownSignal] Cons.prems(1,2) by (simp add: e True)
    then show ?thesis by (simp add: e True shutdown_def)
  next
    case False
    have c: "hex_ok env'" "\<not> event_panics env' ev s"
      using well_formed_calm [of env' ev s] Cons.prems(2) by (simp_all add: e)
    obtain t where t: "handle_event env' ev s = Some t" "core_inv t"
      using handle_event_inv [OF c(1) Cons.prems(1) c(2)] by blast
    have r: "\<forall>as ds. ev = RadioLost as \<longrightarrow> reconnect_radio as s \<noteq> Some (StillTrying, ds, t)"
      using Cons.prems(2) by (auto simp: e dest: reconnect_hears)
    have "run_loop (e # events) s = run_loop events t"
      using t(1) False by (cases ev) (auto simp: e)
    then show ?thesis
      using Cons.IH [OF t(2)] Cons.prems(2,3) main_loop_Cons [OF False t(1) r] False by (auto simp: e)
  qed
qed simp

text \<open>C9. The program ends when it is told to. Wherever the signal finds it -- waiting for the radio to
  answer, between two attempts to connect, or in its loop -- the process returns from \<open>main\<close>, with
  the channel to the radio dropped; no client, no frame of the radio and no failing statement can
  keep it from that, frames that make the log decoders panic excepted.\<close>

theorem signal_ends_program:
  assumes "database_wf (connect_database file)" and "store_inv (load (connect_database file))"
    and "hex_ok env" and "quiet env evs" and "hears evs" and "quiet_attempts attempts" and "attempts_hear attempts"
    and "\<forall>e \<in> set events. well_formed e" and "(env', ShutdownSignal) \<in> set events"
  shows "\<exists>t. main_program c True True (\<lambda>n. True) file env dial evs attempts events = Some (Ran (Returned t)) \<and>
    radio_send_tx t = None \<and> core_inv t"
proof -
  let ?d = "connect_database file"
  obtain e where m: "migrate_database (\<lambda>n. True) ?d = (e, Inr ())" and l: "load e = migrate (load ?d)"
    using migration_loads [OF assms(1)] by blast
  let ?s = "new_core (into_config c) (load e)"
  have new: "core_new (into_config c) True (\<lambda>n. True) file = Inr ?s"
    by (simp add: core_new_def open_database_def m)
  have "store_inv (load e)" unfolding l using db_step_migrate assms(2) by (auto simp: db_step_def)
  then have "core_inv ?s" by (rule core_inv_new)
  then obtain r u where u: "startup env dial evs attempts ?s = Some (r, u)" "core_inv u"
    using goes_startup [OF assms(3,4,6), where s = ?s and dial = dial] by (auto simp: fx.goes_def)
  have "r \<noteq> StillTrying" by (rule startup_hears [OF u(1) assms(5,7)])
  then show ?thesis
    using main_loop_ends [OF u(2) assms(8,9)] u(1) by (auto simp: main_program_def new core_run_def)
qed

text \<open>A first start: no file, a serial port that cannot be opened, and the signal while the second
  attempt waits for the radio.\<close>

definition test_cli :: cli where
  "test_cli = cli_defaults\<lparr>cli_serial := Some ''/dev/ttyUSB0''\<rparr>"

theorem signal_ends_program_witness:
  "\<exists>t. main_program test_cli True True (\<lambda>n. True) None test_env (\<lambda>t. False) [(10001, ShutdownSeen)]
       [Dial test_env (\<lambda>t. True) [(12000, Received [0x83]), (13000, ShutdownSeen)], ShutdownFirst]
       [(test_env, ShutdownSignal)] = Some (Ran (Returned t)) \<and> radio_send_tx t = None \<and> core_inv t"
proof (rule signal_ends_program [OF _ _ test_env_ok])
  show "database_wf (connect_database None)"
    by (simp add: database_wf_def connect_database_def table_def hm_simps)
  have "load (connect_database None) = empty_state"
    by (simp add: load_def connect_database_def rows_def table_def empty_state_def hm_simps)
  then show "store_inv (load (connect_database None))" by (simp add: store_inv_empty)
qed (simp_all add: quiet_def hears_def quiet_attempts_def attempts_hear_def test_env_ok)

text \<open>Without any option the program has no radio to look for: it runs, but every attempt to connect
  fails and none ever succeeds.\<close>

lemma defaults_never_connect:
  assumes "reconnect_radio as s = Some (r, ds, t)" and "conf s = into_config cli_defaults"
  shows "r \<noteq> Reconnected"
proof -
  have t: "connect_backend e dial u = Inl (NotSpecified Serial)" if "conf u = into_config cli_defaults" for e dial u
    by (simp add: connect_backend_def backend_target_def that into_config_def cli_defaults_def cli_backend_type_def)
  have "reconnect_loop delay as u = Some (r, ds, t) \<Longrightarrow> conf u = into_config cli_defaults \<Longrightarrow> r \<noteq> Reconnected" for delay u
    by (induction rule: reconnect_loop_induct) (simp_all add: t)
  moreover have "conf (send_opt c p u) = conf u" for c p u
    by (simp add: send_opt_def send_to_client_def split: option.split)
  then have "conf (fail_all u) = conf u" for u
    by (simp add: fail_all_def Let_def fold_same split: option.split)
  ultimately show ?thesis using assms by (simp add: reconnect_radio_def)
qed

end
