(* ===== verification/Unit_Tests.thy ===== *)
theory Unit_Tests
  imports Store_Laws Frame Types Reply "HOL-Library.Multiset"
begin

text \<open>
  The unit tests of the program, translated as they are: each is a boolean that evaluates the
  model's definitions on the inputs of the test and compares the results with those the test
  asserts, and it is proved to hold. They tie the definitions to what the authors of the code
  expect of it. The clock stands still during a test; the tests of the store hold at any time.
\<close>

section \<open>\<open>src/protocol/frame.rs\<close>\<close>

definition test_frame_roundtrip :: bool where
  "test_frame_roundtrip \<longleftrightarrow>
     (let payload = [0x01, 0x02, 0x03]; encoded = encode_command payload;
          (parser, frames) = feed new_parser encoded
      in length frames = 1 \<and> frames ! 0 = payload)"

definition test_frame_partial_feed :: bool where
  "test_frame_partial_feed \<longleftrightarrow>
     (let payload = [0x01, 0x02, 0x03]; encoded = encode_command payload;
          (parser1, frames1) = feed new_parser (take 2 encoded);
          (parser2, frames2) = feed parser1 (drop 2 encoded)
      in frames1 = [] \<and> length frames2 = 1 \<and> frames2 ! 0 = payload)"

definition test_multiple_frames :: bool where
  "test_multiple_frames \<longleftrightarrow>
     (let all_encoded = concat (map (\<lambda>i. encode_command (replicate (5 + i) (word_of_nat i))) [0..<3]);
          (parser, frames) = feed new_parser all_encoded
      in length frames = 3 \<and> frames ! 0 = replicate 5 0 \<and> frames ! 1 = replicate 6 1 \<and>
         frames ! 2 = replicate 7 2)"

lemma frame_tests: test_frame_roundtrip test_frame_partial_feed test_multiple_frames
  by code_simp+

section \<open>\<open>src/protocol/types.rs\<close>\<close>

text \<open>\<open>a..=b\<close>.\<close>

definition byte_range :: "nat \<Rightarrow> nat \<Rightarrow> u8 list" where
  "byte_range a b = map word_of_nat [a..<Suc b]"

definition every_firmware_command_is_known :: bool where
  "every_firmware_command_is_known \<longleftrightarrow>
     list_all (\<lambda>b. case command_from_byte b of None \<Rightarrow> False | Some cmd \<Rightarrow> command_as_u8 cmd = b)
       (byte_range 0x01 0x2B @ byte_range 0x32 0x34 @ byte_range 0x36 0x42) \<and>
     command_from_byte 0x35 = None"

definition every_firmware_response_is_known :: bool where
  "every_firmware_response_is_known \<longleftrightarrow>
     list_all (\<lambda>b. case response_from_byte b of None \<Rightarrow> False | Some resp \<Rightarrow> response_as_u8 resp = b)
       (byte_range 0x00 0x1D @ byte_range 0x80 0x90) \<and>
     response_from_byte 0x32 = None"

lemma code_tests: every_firmware_command_is_known every_firmware_response_is_known
  by code_simp+

section \<open>\<open>src/core.rs\<close>\<close>

text \<open>\<open>awaiting_for(payload).classify(code)\<close>.\<close>

definition classified :: "frame \<Rightarrow> u8 \<Rightarrow> (bool \<times> bool) option" where
  "classified payload code = map_option (\<lambda>a. classify a code) (awaiting_for payload)"

definition push_codes_are_the_high_bit_range :: bool where
  "push_codes_are_the_high_bit_range \<longleftrightarrow>
     is_push_event 0x80 \<and> is_push_event 0x82 \<and> is_push_event 0x8F \<and>
     \<not> is_push_event 0x00 \<and> \<not> is_push_event 0x12"

definition late_reply_does_not_complete_other_command :: bool where
  "late_reply_does_not_complete_other_command \<longleftrightarrow>
     (let get_channel = classified [0x1F, 0]
      in get_channel 0x05 = Some (False, True) \<and> get_channel 0x12 = Some (True, True) \<and>
         get_channel 0x01 = Some (True, True))"

definition channel_send_expects_ok_not_sent :: bool where
  "channel_send_expects_ok_not_sent \<longleftrightarrow>
     (let send_chan = classified [0x03, 0, 0, 0, 0, 0, 0, 120]
      in map_option fst (send_chan 0x00) = Some True \<and> map_option fst (send_chan 0x06) = Some False)"

definition self_telemetry_reply_is_a_push :: bool where
  "self_telemetry_reply_is_a_push \<longleftrightarrow>
     (let self_telemetry = classified [0x27, 0, 0, 0];
          remote_telemetry = classified (replicate 36 0x27)
      in map_option fst (self_telemetry 0x8B) = Some True \<and>
         map_option fst (remote_telemetry 0x8B) = Some False \<and>
         map_option fst (remote_telemetry 0x06) = Some True)"

definition contacts_stream_ends_on_terminator_or_error :: bool where
  "contacts_stream_ends_on_terminator_or_error \<longleftrightarrow>
     (let stream = classified [0x04]
      in stream 0x02 = Some (True, False) \<and> stream 0x03 = Some (True, False) \<and>
         stream 0x04 = Some (True, True) \<and> stream 0x01 = Some (True, True) \<and>
         map_option fst (stream 0x83) = Some False)"

definition unknown_command_takes_any_non_push :: bool where
  "unknown_command_takes_any_non_push \<longleftrightarrow>
     (let unknown = classified [0x7E]
      in map_option fst (unknown 0x2A) = Some True \<and> map_option fst (unknown 0x83) = Some False)"

definition channel_echo_carries_node_name :: bool where
  "channel_echo_carries_node_name \<longleftrightarrow>
     channel_text_on_air (Some ''Node'') (as_bytes ''hola'') = as_bytes ''Node: hola'' \<and>
     channel_text_on_air None (as_bytes ''hola'') = as_bytes ''hola'' \<and>
     (let long = replicate 200 120; out = channel_text_on_air (Some ''Node'') long
      in length out = MAX_TEXT_LEN \<and> take 7 out = as_bytes ''Node: x'')"

definition message_frames_follow_client_version :: bool where
  "message_frames_follow_client_version \<longleftrightarrow>
     (let v3 = [0x11, 0x2F, 0, 0, 1, 6, 0, 1, 2, 3, 4, 104, 105];
          v1 = [0x08, 1, 6, 0, 1, 2, 3, 4, 104, 105];
          upgraded = message_frame_for 3 v1
      in message_frame_for 0 v3 = v1 \<and> message_frame_for 3 v3 = v3 \<and> message_frame_for 1 v1 = v1 \<and>
         take 4 upgraded = [0x11, 0, 0, 0] \<and> drop 4 upgraded = drop 4 v3) \<and>
     (let v3 = [0x10, 0x10, 0, 0, 0xAA, 0xBB, 0xCC, 0xDD, 0xEE, 0xFF, 0, 0, 1, 2, 3, 4]
      in take 2 (message_frame_for 0 v3) = [0x07, 0xAA]) \<and>
     message_frame_for 0 [0x12, 1, 2] = [0x12, 1, 2] \<and> message_frame_for 3 [0x83] = [0x83]"

lemma reply_tests:
  push_codes_are_the_high_bit_range late_reply_does_not_complete_other_command
  channel_send_expects_ok_not_sent self_telemetry_reply_is_a_push
  contacts_stream_ends_on_terminator_or_error unknown_command_takes_any_non_push
  channel_echo_carries_node_name message_frames_follow_client_version
  by code_simp+

section \<open>\<open>src/node/state.rs\<close>\<close>

text \<open>\<open>unwrap()\<close>: a test fails on an error.\<close>

definition unwrap :: "('e + 'a) \<Rightarrow> ('a \<Rightarrow> bool) \<Rightarrow> bool" where
  "unwrap r k = (case r of Inl e \<Rightarrow> False | Inr x \<Rightarrow> k x)"

lemma unwrap_simps [simp]: "unwrap (Inl e) k = False" "unwrap (Inr x) k = k x"
  by (simp_all add: unwrap_def)

definition DAY :: int where
  "DAY = 86400"

text \<open>A test runs on a fresh database whose statements all succeed.\<close>

definition clock :: "int \<Rightarrow> unit db_env_scheme" where
  "clock now = \<lparr>unix_now = now, db_ok = (\<lambda>c. True)\<rparr>"

definition open_temp :: node_state where
  "open_temp = migrate empty_state"

definition test_contact :: "u8 \<Rightarrow> cached_contact" where
  "test_contact key = \<lparr>public_key = replicate 32 key, contact_name = ''c'' @ int_to_string (uint key),
     contact_type = 1, last_advert = None, contact_lat = None, contact_lon = None, raw = None\<rparr>"

text \<open>The statements the tests run on the tables themselves.\<close>

definition set_seen_at :: "u8 \<Rightarrow> int \<Rightarrow> node_state \<Rightarrow> node_state" where
  "set_seen_at key t s = s\<lparr>contacts := map (\<lambda>r. if contact_key r = replicate 32 key
     then r\<lparr>seen_at := Some t\<rparr> else r) (contacts s)\<rparr>"

definition set_received_at :: "(int \<Rightarrow> bool) \<Rightarrow> int \<Rightarrow> node_state \<Rightarrow> node_state" where
  "set_received_at which t s = s\<lparr>messages := map (\<lambda>m. if which (msg_id m)
     then m\<lparr>received_at := Some t\<rparr> else m) (messages s)\<rparr>"

definition contact_keys :: "node_state \<Rightarrow> u8 list db_result" where
  "contact_keys s = (case get_contacts (clock 0) s of Inl e \<Rightarrow> Inl e
     | Inr cs \<Rightarrow> Inr (sort (map (\<lambda>c. public_key c ! 0) cs)))"

definition channel_message :: "string \<Rightarrow> int \<Rightarrow> frame \<Rightarrow> identity option \<Rightarrow> new_message" where
  "channel_message txt ts f who = \<lparr>msg_type = ''channel'', from_key = None, channel_idx = Some 0,
     msg_text = txt, timestamp = ts, msg_frame = f, origin = who\<rparr>"

definition messages_and_raw_rx_follow_local_time :: "int \<Rightarrow> bool" where
  "messages_and_raw_rx_follow_local_time now \<longleftrightarrow>
     unwrap (insert_message (clock now) (channel_message ''fresh'' 0 [0x08] None) open_temp) (\<lambda>(fresh, s1).
     unwrap (insert_message (clock now) (channel_message ''old'' now [0x08] None) s1) (\<lambda>(old, s2).
     let s3 = set_received_at (\<lambda>i. i = old) (now - 40 * DAY) s2
     in unwrap (insert_raw_rx (clock now) 0x83 [0x83] s3) (\<lambda>s4.
     let s5 = s4\<lparr>raw_rx := map (\<lambda>r. r\<lparr>rx_ts := now - 8 * DAY\<rparr>) (raw_rx s4)\<rparr>;
         retention = \<lparr>messages_days = 30, raw_rx_days = 7, contacts_days = 0, clients_days = 0\<rparr>;
         (s6, stats) = maintain (clock now) retention s5
     in unwrap stats (\<lambda>st. (purged_messages st, purged_raw_rx st) = (1, 1) \<and>
          map row_text (messages s6) = [''fresh'']))))"

definition contacts_kept_without_a_recorded_sync :: "int \<Rightarrow> bool" where
  "contacts_kept_without_a_recorded_sync now \<longleftrightarrow>
     unwrap (upsert_contact (clock now) (test_contact 1) open_temp) (\<lambda>s1.
     let retention = \<lparr>messages_days = 0, raw_rx_days = 0, contacts_days = 30, clients_days = 0\<rparr>;
         (s2, stats) = maintain (clock now) retention (set_seen_at 1 (now - 400 * DAY) s1)
     in unwrap stats (\<lambda>st. purged_contacts st = 0 \<and> contact_keys s2 = Inr [1]))"

definition only_long_missing_contacts_are_purged :: "int \<Rightarrow> bool" where
  "only_long_missing_contacts_are_purged now \<longleftrightarrow>
     (let env = clock now;
          retention = \<lparr>messages_days = 0, raw_rx_days = 0, contacts_days = 30, clients_days = 0\<rparr>
      in unwrap (upsert_contact env (test_contact 1) open_temp) (\<lambda>a1.
         unwrap (upsert_contact env (test_contact 2) a1) (\<lambda>a2.
         unwrap (upsert_contact env (test_contact 3) a2) (\<lambda>a3.
         let s1 = set_seen_at 3 (now - 2 * DAY) (set_seen_at 2 (now - 5 * DAY) (set_seen_at 1 (now - 60 * DAY) a3))
         in unwrap (set_contacts_synced_at env (now - 2 * DAY) s1) (\<lambda>s2.
         let (s3, stats) = maintain env retention s2
         in unwrap stats (\<lambda>st. purged_contacts st = 1 \<and> contact_keys s3 = Inr [2, 3] \<and>
           (let s4 = set_seen_at 3 (now - 45 * DAY) (set_seen_at 2 (now - 45 * DAY) s3)
            in unwrap (set_contacts_synced_at env (now - 45 * DAY) s4) (\<lambda>s5.
               let (s6, stats') = maintain env retention s5
               in unwrap stats' (\<lambda>st'. purged_contacts st' = 0 \<and> contact_keys s6 = Inr [2, 3])))))))))"

definition backlog_parses_count_and_windows :: bool where
  "backlog_parses_count_and_windows \<longleftrightarrow>
     parse_backlog ''0'' = Inr Off \<and> parse_backlog ''0d'' = Inr Off \<and>
     parse_backlog ''50'' = Inr (Messages 50) \<and> parse_backlog ''24h'' = Inr (Seconds (24 * 3600)) \<and>
     parse_backlog ''7D'' = Inr (Seconds (7 * DAY)) \<and>
     isl (parse_backlog ''5m'') \<and> isl (parse_backlog ''h'') \<and> isl (parse_backlog ''-1'')"

definition store :: "int \<Rightarrow> string \<Rightarrow> identity option \<Rightarrow> node_state \<Rightarrow> (int \<times> node_state) db_result" where
  "store now txt who = insert_message (clock now) (channel_message txt 0 (as_bytes txt) who)"

definition replay_skips_own_messages :: "int \<Rightarrow> bool" where
  "replay_skips_own_messages now \<longleftrightarrow>
     unwrap (store now ''from radio'' None open_temp) (\<lambda>(a, s1).
     unwrap (store now ''sent by cli'' (Some (5000, ''cli'')) s1) (\<lambda>(b, s2).
     unwrap (store now ''sent by app'' (Some (5000, ''app'')) s2) (\<lambda>(c, s3).
     unwrap (store now ''cli on other port'' (Some (5001, ''cli'')) s3) (\<lambda>(d, s4).
       message_ids_after (clock now) 0 (5000, ''cli'') s4 = Inr [a, c, d] \<and>
       message_frame (clock now) c s4 = Inr (Some (as_bytes ''sent by app''))))))"

definition backlog_by_count_and_time :: "int \<Rightarrow> bool" where
  "backlog_by_count_and_time now \<longleftrightarrow>
     unwrap (store now ''m0'' None open_temp) (\<lambda>(i0, s1).
     unwrap (store now ''m1'' None s1) (\<lambda>(i1, s2).
     unwrap (store now ''m2'' None s2) (\<lambda>(i2, s3).
     unwrap (store now ''m3'' None s3) (\<lambda>(i3, s4).
     let s5 = set_received_at (\<lambda>i. i \<le> i1) (now - 3 * DAY) s4
     in backlog_message_ids (clock now) (Messages 2) (5000, ''x'') s5 = Inr [i2, i3] \<and>
        backlog_message_ids (clock now) (Seconds DAY) (5000, ''x'') s5 = Inr [i2, i3] \<and>
        backlog_message_ids (clock now) Off (5000, ''x'') s5 = Inr []))))"

definition client_cursor_never_goes_back :: "int \<Rightarrow> bool" where
  "client_cursor_never_goes_back now \<longleftrightarrow>
     (let env = clock now
      in client_cursor env (5000, ''app'') open_temp = Inr None \<and>
         unwrap (advance_client_cursor env (5000, ''app'') 10 open_temp) (\<lambda>s1.
         unwrap (advance_client_cursor env (5000, ''app'') 7 s1) (\<lambda>s2.
           client_cursor env (5000, ''app'') s2 = Inr (Some 10) \<and>
           client_cursor env (5001, ''app'') s2 = Inr None)))"

definition idle_clients_are_forgotten :: "int \<Rightarrow> bool" where
  "idle_clients_are_forgotten now \<longleftrightarrow>
     (let env = clock now;
          retention = \<lparr>messages_days = 0, raw_rx_days = 0, contacts_days = 0, clients_days = 180\<rparr>
      in unwrap (advance_client_cursor env (5000, ''old'') 1 open_temp) (\<lambda>s1.
         unwrap (advance_client_cursor env (5000, ''recent'') 1 s1) (\<lambda>s2.
         let s3 = s2\<lparr>clients := map (\<lambda>(k, c). (k, if snd k = ''old''
               then c\<lparr>last_connected_at := now - 200 * DAY\<rparr> else c)) (clients s2)\<rparr>;
             (s4, stats) = maintain env retention s3
         in unwrap stats (\<lambda>st. purged_clients st = 1 \<and>
              client_cursor env (5000, ''old'') s4 = Inr None \<and>
              client_cursor env (5000, ''recent'') s4 = Inr (Some 1)))))"

lemma backlog_test: backlog_parses_count_and_windows
  by code_simp

lemmas state_test_defs = clock_def open_temp_def migrate_def empty_state_def DAY_def Let_def
  insert_message_def max_rowid_def channel_message_def message_row_of_def run_query_def
  set_received_at_def set_seen_at_def insert_raw_rx_def maintain_def then_purge_def
  maintain_messages_def maintain_raw_rx_def maintain_contacts_def maintain_clients_def
  purge_rows_def message_time_def contact_time_def cutoff_def no_stats_def hm_retain_def

lemma messages_and_raw_rx_follow_local_time_holds: "messages_and_raw_rx_follow_local_time now"
  by (simp add: messages_and_raw_rx_follow_local_time_def state_test_defs)

text \<open>The keys the tests compare, without the order of the names.\<close>

lemma sort_map_sort_key: "sort (map f (sort_key g xs)) = sort (map f xs)"
  by (rule properties_for_sort) simp_all

lemma contact_keys_eq: "contact_keys s = Inr (sort (map (\<lambda>r. contact_key r ! 0) (contacts s)))"
  by (simp add: contact_keys_def get_contacts_def clock_def run_query_def sort_map_sort_key comp_def)

lemma contacts_kept_without_a_recorded_sync_holds: "contacts_kept_without_a_recorded_sync now"
  by (simp add: contacts_kept_without_a_recorded_sync_def contact_keys_eq state_test_defs
      upsert_contact_def upsert_row_def test_contact_def contacts_synced_at_def kv_get_def hm_get_def)

lemma only_long_missing_contacts_are_purged_holds:
  assumes "\<bar>now\<bar> < 2 ^ 62"
  shows "only_long_missing_contacts_are_purged now"
proof -
  have r: "i64_from_le_bytes (i64_to_le_bytes (now - d)) = now - d" if "0 \<le> d" "d < 2 ^ 32" for d
    using assms that by (intro i64_le_roundtrip) auto
  have l: "length (i64_to_le_bytes i) = 8" for i by (simp add: i64_to_le_bytes_def)
  show ?thesis
    by (simp add: only_long_missing_contacts_are_purged_def contact_keys_eq state_test_defs
      upsert_contact_def upsert_row_def test_contact_def contacts_synced_at_def set_contacts_synced_at_def
      kv_get_def kv_set_def hm_insert_def hm_get_def r l)
qed

lemmas query_test_defs = store_def message_ids_after_def backlog_message_ids_def message_frame_def
  replayable_ids_def replayable_to_def client_cursor_def advance_client_cursor_def advance_cursor_def
  client_key_def hm_get_def hm_insert_def

lemma replay_skips_own_messages_holds: "replay_skips_own_messages now"
  by (simp add: replay_skips_own_messages_def state_test_defs query_test_defs)

lemma backlog_by_count_and_time_holds: "backlog_by_count_and_time now"
  by (simp add: backlog_by_count_and_time_def state_test_defs query_test_defs)

lemma client_cursor_never_goes_back_holds: "client_cursor_never_goes_back now"
  by (simp add: client_cursor_never_goes_back_def state_test_defs query_test_defs)

lemma idle_clients_are_forgotten_holds: "idle_clients_are_forgotten now"
  by (simp add: idle_clients_are_forgotten_def state_test_defs query_test_defs)

end
