(* ===== verification/Spec2Isabelle.thy ===== *)
theory Spec2Isabelle
  imports Store_Laws Schema Core_Props Core_Serving Core_Fifo Core_Accounting Core_Timing Core_Echo
    Core_Missed Core_Acks Core_Removal Core_Loop System Core_Provenance Backend Backend_Tasks Wiring Bluetooth Process Unit_Tests
begin

text \<open>
  A verification of coresplitter, a multiplexer that lets several clients share one MeshCore
  companion radio. A client speaks the radio's own protocol to the proxy over TCP; the proxy
  answers what it can from a cache, keeps the messages clients miss, and puts everything else
  through a queue that has at most one request at the radio.

  \<^bold>\<open>The program and the theories.\<close> All sources are under \<open>src/src\<close>.

  \<^item> \<open>protocol/frame.rs\<close>: \<open>Frame\<close>. \<open>encode\<close> and the incremental \<open>FrameParser\<close> (\<open>frame_parser\<close>,
    \<open>feed\<close>, whose loop is \<open>feed_loop\<close> over \<open>loop_body\<close>).
  \<^item> \<open>protocol/types.rs\<close>: \<open>Types\<close>. The command and response codes, \<open>from_byte\<close> and their names.
  \<^item> \<open>protocol/decode.rs\<close>: \<open>Decode\<close>, on \<open>Utf8\<close> (\<open>String::from_utf8_lossy\<close>) and \<open>Float64\<close> (the
    arithmetic and printing of \<open>f64\<close> the program uses). One definition per arm of the decoders.
  \<^item> \<open>node/state.rs\<close>: \<open>Store\<close>. The SQLite tables are lists of rows, a statement is the function it
    computes on them. \<open>Store_Laws\<close> has what callers rely on. \<open>Schema\<close>: \<open>NodeState::open\<close> and
    \<open>NodeState::migrate\<close> on a database file of named columns, one \<open>migration\<close> per statement; \<open>load\<close>
    reads the tables of \<open>Store\<close> out of it, where a migration is the function \<open>migrate\<close>.
  \<^item> \<open>cli.rs\<close>, \<open>logging.rs\<close> and the configuration part of \<open>core.rs\<close>: \<open>Config\<close>.
  \<^item> \<open>core.rs\<close>: the rules of replies and message layouts in \<open>Reply\<close>; the state of the actor
    (\<open>core\<close>, the fields of \<open>Core\<close>), sending and client sessions in \<open>Core_State\<close>; \<open>cache_response\<close>
    and the answers from the cache in \<open>Core_Cache\<close>; dispatching, the queue, replies, ACKs and the
    timeout in \<open>Core_Queue\<close>; the handlers of the five arms of the loop in \<open>Core_Handlers\<close>;
    connecting, initialization, reconnection, startup and the loop in \<open>Core_Run\<close>. \<open>Core_Loop\<close>
    has the order in which the \<open>biased\<close> \<open>select!\<close> serves the sources of events (\<open>select_event\<close>) and
    the loop over them (\<open>biased_loop\<close>) with its two intervals, which is \<open>run_loop\<close> on the events
    so chosen.
  \<^item> \<open>frontend/tcp.rs\<close>: \<open>Frontend\<close>. The phases of the listener and the two tasks of a connection.
  \<^item> The whole program: \<open>System\<close>, a step relation in which the actor, the listener and the
    connections interleave over the map of client channels, the broadcast channel, the command
    queue and the flag that says whether the radio is up.
  \<^item> \<open>backend/serial.rs\<close>, \<open>backend/tcp.rs\<close> and the forwarding task of \<open>Core::connect_backend\<close>:
    \<open>Backend\<close>, a step relation of the three tasks of a link; \<open>Backend_Tasks\<close>, the two \<open>connect\<close>
    functions and the loops of their tasks, which refine the steps.
  \<^item> The whole program with its radio: \<open>Wiring\<close>, a step relation whose state (\<open>machine\<close>) is that of
    \<open>System\<close> and of the present link, coupled by the channels that \<open>Core::connect_backend\<close> makes;
    every connection, of the startup or of a reconnection, has a link of its own.
  \<^item> \<open>backend/ble.rs\<close>: \<open>Bluetooth\<close>.
  \<^item> \<open>main.rs\<close> and \<open>Core::run\<close> from end to end: \<open>Process\<close>. \<open>main_program\<close> composes the data
    directory, opening the database, the startup and the loop, and tells a process that has
    returned from one that still waits.
  \<^item> The \<open>#[test]\<close> functions of all files: \<open>Unit_Tests\<close>, booleans over the model that are proved to hold.

  \<^bold>\<open>How code is modelled.\<close> A panic is the value \<open>None\<close> (\<open>or_panic\<close>), and every index and slice of the
  source keeps its bounds check. A \<open>Result\<close> is a sum whose left side is the error. Integers have
  the width of the source (\<open>u8\<close>, \<open>u16\<close>, \<open>u32\<close>, \<open>u64\<close> are words; \<open>i64\<close> values that cannot overflow are
  \<open>int\<close>). A \<open>String\<close> is the list of its bytes as characters. A \<open>HashMap\<close> is an association list,
  used through the laws of the locale \<open>hash_map\<close> only. An unbounded channel is the list of the
  frames put on it. The clock, whether an SQL statement fails, and \<open>hex::encode\<close> are in the
  environment \<open>env\<close> of an event; the only hypothesis about the last (\<open>hex_ok\<close>) is that it writes
  two characters per byte. In \<open>Bluetooth\<close> the stack and the crate \<open>uuid\<close> are a record, and the
  hypothesis \<open>prints_lower_case\<close> is the crate's documented output format.

  \<^bold>\<open>Events and time.\<close> \<open>core_event\<close> has the arms of the \<open>select!\<close> of \<open>Core::run\<close> and what the other
  tasks do to the actor's state between them. An event that waits carries what it meets: an
  \<open>attempt\<close> of the reconnection has an environment of its own, whether dialling succeeds and the
  frames received, each with its time in milliseconds (\<open>at_end\<close> is the clock after them); a
  list of them that ends while the code would go on waiting gives the outcome \<open>StillTrying\<close> or \<open>Waiting\<close>. So no fuel is needed: loops recurse on these lists, on the
  queue, on the rows of a table or on the bytes of a stream, and all functions are total.
  The timeouts are those of the source: 5 s for a request in flight and for SELF_INFO, 3 s for
  DEVICE_INFO, 5 minutes for an ACK, 10 s for a Bluetooth scan, and delays from 1 s up to 60 s.

  \<^bold>\<open>Interfaces.\<close> Each is a locale, interpreted on the model. \<open>hash_map\<close> (\<open>Prelude\<close>) has the laws of
  maps. \<open>keyed_table\<close> and \<open>cursor_table\<close> (\<open>Store_Laws\<close>) are the tables with a primary key and the
  cursors of client identities. \<open>incremental_decoder\<close> (\<open>Frame\<close>) is a decoder that may be fed in
  chunks; the readers of the clients and of the radio rest on its interpretation. \<open>effect_logic\<close>
  (\<open>Core_Inv\<close>) composes operations that keep an invariant and move the state along a preorder; it is
  interpreted for the invariant of the actor with the growth of its log and cursors (\<open>fx\<close>) and for
  the growth of the client channels (\<open>io\<close>, \<open>Core_Channels\<close>). The locales of \<open>Core_Walk\<close> compose the
  handlers once for every relation that their elementary operations respect: \<open>step_relation\<close>, which
  \<open>command_relation\<close> extends for the handling of a command, \<open>handler_relation\<close> for the frames of the
  radio and the timers, \<open>cycle_relation\<close> for startup and reconnection, and \<open>event_relation\<close> for all of
  them. They are interpreted for what stays the same on the wire (\<open>same_wire\<close>), the channels
  (\<open>io_commands\<close>, \<open>io_walk\<close>), the queue (\<open>fifo_walk\<close>, \<open>Core_Fifo\<close>), the accounts of the clients
  (\<open>accounts\<close>, \<open>Core_Accounting\<close>), what the request in flight awaits (\<open>awaits_commands\<close>,
  \<open>awaits_walk\<close>, \<open>Core_Acks\<close>), the traffic to the radio (\<open>own_walk\<close>, \<open>Core_Provenance\<close>) and the
  commands passed to the link (\<open>asking\<close>, \<open>answering\<close>, \<open>hushed\<close>, \<open>Wiring\<close>). \<open>fifo_server\<close>
  (\<open>Core_Fifo\<close>) is the abstract specification of the multiplexer. \<open>repeatable_steps\<close> (\<open>Schema\<close>) are
  steps that do nothing when they are repeated; a sequence of them can be interrupted anywhere and
  run again.

  \<^bold>\<open>What is shown.\<close>

  \<^item> \<open>Core_Inv\<close>, \<open>Core_Safety\<close>, \<open>Core_Props\<close>: the invariant \<open>core_inv\<close> holds in every reachable state and
    every handler returns, but for the frames whose decoder panics in the event log, which are
    given exactly; cursors do not go back. \<open>Core_Serial\<close>: the radio is never idle while requests wait.
  \<^item> \<open>Core_Routing\<close>, \<open>Core_Fifo\<close>, \<open>Core_Timing\<close>: who gets a reply, the order of requests,
    late replies, the loss of the radio, timeouts, reconnection. \<open>Core_Answers\<close>: which commands the
    proxy answers itself, and that all others wait at the end of the queue of a busy radio.
    \<open>Core_Acks\<close>: a delivery ACK from the SENT reply that announces it to the client it is for.
    \<open>Core_Loop\<close>: when a request is given up at the latest, and when never.
  \<^item> \<open>Core_Serving\<close>, \<open>Core_Missed\<close>, \<open>Core_Echo\<close>: contacts and channels come back from the cache as they
    were received; a client that comes back gets exactly the messages it missed
    (\<open>missed_messages\<close>, over the stored rows), once and in order, never its own; accepted messages
    are echoed to the other clients.
  \<^item> \<open>Core_Accounting\<close>: no command of a connected client is left without a frame in answer.
    \<open>Core_Provenance\<close>: what the radio is sent comes from the clients, followed back to the bytes they
    sent, or is one of the proxy's five own commands. \<open>Process\<close>: a shutdown signal ends the program
    wherever it finds it. \<open>Schema\<close>: an interrupted migration is completed by the next, and a complete
    one has added every later column.
  \<^item> \<open>System\<close>: the whole program refines the actor; ids are not reused; the commands of a client are
    the frames it sent; a client decodes exactly what the actor sent it. \<open>Backend\<close>: the same for
    the link to the radio. \<open>Wiring\<close>: both at once, from the bytes of the clients to those of the radio
    and back, over any number of reconnections; its runs are runs of the system and of the link
    (\<open>machine_refines\<close>, \<open>coupled\<close>).
  \<^item> \<open>Frame\<close>, \<open>Types\<close>, \<open>Reply\<close>, \<open>Store_Laws\<close>: chunking, resynchronization and round trips of the
    framing, codes, message layouts, and the functional behaviour of queries and maintenance.
  \<^item> Behaviours the code does not intend, stated as they are: the panics of the log decoders, frames
    of 65,536 bytes, a silent radio that blocks the startup (\<open>Core_Timing\<close>), a late message that no
    client sees (\<open>Core_Echo\<close>), the contact that goes from the cache although the radio refused to
    remove it (\<open>Core_Removal\<close>), clients that keep the actor from its radio (\<open>Core_Loop\<close>), the
    reading task that outlives its link (\<open>Backend_Tasks\<close>), and the Bluetooth characteristic that is never found (\<open>Bluetooth\<close>).

  \<^bold>\<open>Not modelled.\<close> The parsing of arguments by \<open>clap\<close> (the parsed
  \<open>Cli\<close>, its defaults and \<open>into_config\<close> are); what
  \<open>tracing\<close> does with a subscriber and the texts of the diagnostics
  (\<open>logging::init\<close> is the value it builds); the declared types of SQL columns; a
  failure to install the signal handlers; the input and output of devices and sockets below
  \<open>read\<close> and \<open>write_all\<close>. The result of the event log is modelled, where
  it is printed is not. In the steps of \<open>System\<close> a tick of a timer may come at any
  time; \<open>Core_Loop\<close> has their intervals. In \<open>System\<close> and
  \<open>Wiring\<close> an event of the actor is one step, so a client is connected or
  disconnected, and a write to the radio fails, before or after it; the actor takes the locks of
  the shared map for single accesses, and a client that leaves within an event would only miss its
  last frames. A startup or reconnection is one event as well: the radio is up, or not, from
  \<open>connect_backend\<close> to the end of the sync, so a writing task that dies between the sends of the
  handshake and those of the sync is not covered. The code then leaves the queue of the sync
  without a request in flight until the next reconnection. \<open>Wiring\<close> covers the serial and TCP links: a Bluetooth link never comes
  to be (\<open>Bluetooth\<close>), so its tasks are modelled alone.
\<close>

end
